(* ===== verification/Prelude.thy ===== *)
theory Prelude
  imports Main "HOL-Library.Word" "HOL-Library.AList" "HOL-Library.Char_ord"
    "HOL-Library.List_Lexorder" "HOL-Library.Product_Lexorder"
begin

text \<open>
  Shared vocabulary of the development: the machine integers and byte strings of the
  program, the error-and-state combinators that stand for Rust's \<open>?\<close> operator and for
  loops over mutable state, big-endian encodings, hexadecimal and decimal printing,
  saturating arithmetic, and the list and association-list facts that the components
  share.
\<close>

unbundle bit_operations_syntax

named_theorems monad_simps \<open>evaluation of the state-and-error combinators\<close>
named_theorems preserves_intros \<open>invariants through the combinators\<close>
named_theorems codec_simps \<open>lengths and bslices of encoded byte strings\<close>

section \<open>Machine types\<close>

text \<open>
  A fixed array \<open>[u8; N]\<close> is the \<open>8 * N\<close> bit word whose big-endian bytes are the array.
  The two types have the same elements, and word equality is array equality.
\<close>

type_synonym u8 = "8 word"
type_synonym u16 = "16 word"
type_synonym u32 = "32 word"
type_synonym u64 = "64 word"
type_synonym i32 = "32 word"
type_synonym i64 = "64 word"
type_synonym u256 = "256 word"
type_synonym bytes = "8 word list"

section \<open>Errors and state\<close>

text \<open>
  A fallible method that may change a state \<open>'s\<close> is a function
  \<open>'s \<Rightarrow> ('e + 'a) \<times> 's\<close>: the state reached is kept also when the method returns an
  error, as the mutations before a \<open>?\<close> are kept in Rust.
\<close>

definition returnE :: "'a \<Rightarrow> 's \<Rightarrow> ('e + 'a) \<times> 's" where
  "returnE x = (\<lambda>s. (Inr x, s))"

definition throwE :: "'e \<Rightarrow> 's \<Rightarrow> ('e + 'a) \<times> 's" where
  "throwE e = (\<lambda>s. (Inl e, s))"

definition bindE ::
  "('s \<Rightarrow> ('e + 'a) \<times> 's) \<Rightarrow> ('a \<Rightarrow> 's \<Rightarrow> ('e + 'b) \<times> 's) \<Rightarrow> 's \<Rightarrow> ('e + 'b) \<times> 's" where
  "bindE m f = (\<lambda>s. case m s of (Inl e, s') \<Rightarrow> (Inl e, s') | (Inr x, s') \<Rightarrow> f x s')"

definition readE :: "('s \<Rightarrow> 'e + 'a) \<Rightarrow> 's \<Rightarrow> ('e + 'a) \<times> 's" where
  "readE f = (\<lambda>s. (f s, s))"

definition modifyE :: "('s \<Rightarrow> 's) \<Rightarrow> 's \<Rightarrow> ('e + unit) \<times> 's" where
  "modifyE f = (\<lambda>s. (Inr (), f s))"

text \<open>\<open>let _ = m;\<close>: the effect of \<open>m\<close> stays, its error is dropped.\<close>

definition ignoreE :: "('s \<Rightarrow> ('e + 'a) \<times> 's) \<Rightarrow> 's \<Rightarrow> ('f + unit) \<times> 's" where
  "ignoreE m = (\<lambda>s. (Inr (), snd (m s)))"

text \<open>A method of a field of the state, lifted to the state.\<close>

definition zoomE ::
  "('s \<Rightarrow> 't) \<Rightarrow> ('t \<Rightarrow> 's \<Rightarrow> 's) \<Rightarrow> ('t \<Rightarrow> ('e + 'a) \<times> 't) \<Rightarrow> 's \<Rightarrow> ('e + 'a) \<times> 's" where
  "zoomE g p m = (\<lambda>s. case m (g s) of (r, t) \<Rightarrow> (r, p t s))"

text \<open>\<open>for x in xs\<close> with a local accumulator; the first error leaves the loop.\<close>

primrec foldE ::
  "('x \<Rightarrow> 'a \<Rightarrow> 's \<Rightarrow> ('e + 'a) \<times> 's) \<Rightarrow> 'x list \<Rightarrow> 'a \<Rightarrow> 's \<Rightarrow> ('e + 'a) \<times> 's" where
  "foldE f [] a = returnE a"
| "foldE f (x # xs) a = bindE (f x a) (foldE f xs)"

text \<open>The same two constructs for methods that only read.\<close>

definition bindR :: "'e + 'a \<Rightarrow> ('a \<Rightarrow> 'e + 'b) \<Rightarrow> 'e + 'b" where
  "bindR r f = (case r of Inl e \<Rightarrow> Inl e | Inr x \<Rightarrow> f x)"

primrec foldR :: "('x \<Rightarrow> 'a \<Rightarrow> 'e + 'a) \<Rightarrow> 'x list \<Rightarrow> 'a \<Rightarrow> 'e + 'a" where
  "foldR f [] a = Inr a"
| "foldR f (x # xs) a = bindR (f x a) (foldR f xs)"

definition map_err :: "('e \<Rightarrow> 'f) \<Rightarrow> 'e + 'a \<Rightarrow> 'f + 'a" where
  "map_err f r = (case r of Inl e \<Rightarrow> Inl (f e) | Inr x \<Rightarrow> Inr x)"

definition ok_or :: "'e \<Rightarrow> 'a option \<Rightarrow> 'e + 'a" where
  "ok_or e o' = (case o' of None \<Rightarrow> Inl e | Some x \<Rightarrow> Inr x)"

lemma returnE_apply [monad_simps]: "returnE x s = (Inr x, s)"
  by (simp add: returnE_def)

lemma throwE_apply [monad_simps]: "throwE e s = (Inl e, s)"
  by (simp add: throwE_def)

lemma readE_apply [monad_simps]: "readE f s = (f s, s)"
  by (simp add: readE_def)

lemma modifyE_apply [monad_simps]: "modifyE f s = (Inr (), f s)"
  by (simp add: modifyE_def)

lemma ignoreE_apply [monad_simps]: "ignoreE m s = (Inr (), snd (m s))"
  by (simp add: ignoreE_def)

lemma bindE_ok [monad_simps]: "m s = (Inr x, s') \<Longrightarrow> bindE m f s = f x s'"
  by (simp add: bindE_def)

lemma bindE_err [monad_simps]: "m s = (Inl e, s') \<Longrightarrow> bindE m f s = (Inl e, s')"
  by (simp add: bindE_def)

lemma zoomE_ok [monad_simps]: "m (g s) = (r, t) \<Longrightarrow> zoomE g p m s = (r, p t s)"
  by (simp add: zoomE_def)

lemma bindR_simps [simp]: "bindR (Inl e) f = Inl e" "bindR (Inr x) f = f x"
  by (simp_all add: bindR_def)

lemma map_err_simps [simp]: "map_err f (Inl e) = Inl (f e)" "map_err f (Inr x) = Inr x"
  by (simp_all add: map_err_def)

lemma ok_or_simps [simp]: "ok_or e None = Inl e" "ok_or e (Some x) = Inr x"
  by (simp_all add: ok_or_def)

lemmas monad_defs =
  returnE_def throwE_def bindE_def readE_def modifyE_def ignoreE_def zoomE_def

lemma bindE_Inr_elim:
  assumes "bindE m f s = (Inr y, s'')"
  obtains x s' where "m s = (Inr x, s')" and "f x s' = (Inr y, s'')"
  using assms by (auto simp: bindE_def split: prod.splits sum.splits)

lemma bindR_Inr_elim:
  assumes "bindR r f = Inr y"
  obtains x where "r = Inr x" and "f x = Inr y"
  using assms by (cases r) auto

lemma foldE_append:
  "foldE f (xs @ ys) a s = bindE (foldE f xs a) (foldE f ys) s"
  by (induction xs arbitrary: a s)
    (auto simp: bindE_def returnE_def split: prod.splits sum.splits)

text \<open>A loop none of whose steps fails is a pure fold.\<close>

lemma foldE_total:
  assumes "\<And>x a s. P s \<Longrightarrow> \<exists>a' s'. f x a s = (Inr a', s') \<and> P s'" and "P s"
  shows "\<exists>a' s'. foldE f xs a s = (Inr a', s') \<and> P s'"
  using assms(2)
proof (induction xs arbitrary: a s)
  case Nil
  then show ?case by (simp add: returnE_def)
next
  case (Cons x xs)
  obtain a' s' where "f x a s = (Inr a', s')" and "P s'"
    using assms(1) [OF Cons.prems] by blast
  then show ?case using Cons.IH by (simp add: bindE_ok)
qed

lemma foldR_all_ok:
  assumes "\<And>x a. x \<in> set xs \<Longrightarrow> f x a = Inr (g x a)"
  shows "foldR f xs a = Inr (fold g xs a)"
  using assms by (induction xs arbitrary: a) auto

lemma bindR_Inr: "bindR r f = Inr v \<longleftrightarrow> (\<exists>x. r = Inr x \<and> f x = Inr v)"
  by (simp add: bindR_def split: sum.split)

lemma map_err_Inr [simp]: "map_err f r = Inr v \<longleftrightarrow> r = Inr v"
  by (simp add: map_err_def split: sum.split)

lemma foldR_keeps:
  assumes "foldR f xs a = Inr b" and "P a"
    and "\<And>x a b. x \<in> set xs \<Longrightarrow> P a \<Longrightarrow> f x a = Inr b \<Longrightarrow> P b"
  shows "P b"
  using assms by (induction xs arbitrary: a) (auto simp: bindR_Inr)

lemma foldR_map: "foldR f (map h xs) a = foldR (\<lambda>x. f (h x)) xs a"
  by (induction xs arbitrary: a) (auto simp: bindR_def split: sum.splits)

section \<open>Invariants\<close>

text \<open>A method keeps a property of the state whether it succeeds or fails.\<close>

definition preserves :: "('s \<Rightarrow> bool) \<Rightarrow> ('s \<Rightarrow> ('e + 'a) \<times> 's) \<Rightarrow> bool" where
  "preserves P m \<longleftrightarrow> (\<forall>s. P s \<longrightarrow> P (snd (m s)))"

lemma preservesD: "preserves P m \<Longrightarrow> P s \<Longrightarrow> P (snd (m s))"
  by (simp add: preserves_def)

lemma preserves_returnE [preserves_intros]: "preserves P (returnE x)"
  by (simp add: preserves_def returnE_def)

lemma preserves_throwE [preserves_intros]: "preserves P (throwE e)"
  by (simp add: preserves_def throwE_def)

lemma preserves_readE [preserves_intros]: "preserves P (readE f)"
  by (simp add: preserves_def readE_def)

lemma preserves_modifyE [preserves_intros]: "(\<And>s. P s \<Longrightarrow> P (f s)) \<Longrightarrow> preserves P (modifyE f)"
  by (simp add: preserves_def modifyE_def)

lemma preserves_ignoreE [preserves_intros]: "preserves P m \<Longrightarrow> preserves P (ignoreE m)"
  by (simp add: preserves_def ignoreE_def)

lemma preserves_bindE [preserves_intros]:
  assumes "preserves P m" and "\<And>x. preserves P (f x)"
  shows "preserves P (bindE m f)"
  unfolding preserves_def
proof (intro allI impI)
  fix s assume "P s"
  then have "P (snd (m s))" using assms(1) by (rule preservesD [rotated])
  then show "P (snd (bindE m f s))"
    using assms(2) by (auto simp: bindE_def preserves_def split: prod.splits sum.splits)
qed

lemma preserves_foldE [preserves_intros]:
  assumes "\<And>x a. x \<in> set xs \<Longrightarrow> preserves P (f x a)"
  shows "preserves P (foldE f xs a)"
  using assms
  by (induction xs arbitrary: a) (auto intro!: preserves_returnE preserves_bindE)

lemma preserves_if [preserves_intros]:
  "(c \<Longrightarrow> preserves P m) \<Longrightarrow> (\<not> c \<Longrightarrow> preserves P m') \<Longrightarrow> preserves P (if c then m else m')"
  by simp

lemma preserves_zoomE [preserves_intros]:
  "(\<And>s t. P s \<Longrightarrow> P (p t s)) \<Longrightarrow> preserves P (zoomE g p m)"
  by (auto simp: preserves_def zoomE_def split: prod.splits)

text \<open>A step relation with an invariant.\<close>

locale machine =
  fixes step :: "'s \<Rightarrow> 's \<Rightarrow> bool" and inv :: "'s \<Rightarrow> bool"
  assumes step_inv: "step s s' \<Longrightarrow> inv s \<Longrightarrow> inv s'"
begin

lemma reach_inv: "step\<^sup>*\<^sup>* s s' \<Longrightarrow> inv s \<Longrightarrow> inv s'"
  by (induction rule: rtranclp_induct) (auto intro: step_inv)

lemma reach_induct:
  assumes "step\<^sup>*\<^sup>* s s'" and "inv s" and "R s"
    and "\<And>t t'. inv t \<Longrightarrow> step t t' \<Longrightarrow> R t \<Longrightarrow> R t'"
  shows "R s'"
  using assms
proof (induction rule: rtranclp_induct)
  case (step t t')
  then show ?case using reach_inv [OF step.hyps(1)] by blast
qed

end

text \<open>
  A log of operations that can be undone. Undoing works on every state that is the same, as
  far as the log is concerned, as the one the operation produced.
\<close>

primrec allowed_run :: "('x \<Rightarrow> 's \<Rightarrow> bool) \<Rightarrow> ('x \<Rightarrow> 's \<Rightarrow> 's) \<Rightarrow> 'x list \<Rightarrow> 's \<Rightarrow> bool" where
  "allowed_run P f [] s \<longleftrightarrow> True"
| "allowed_run P f (x # xs) s \<longleftrightarrow> P x s \<and> allowed_run P f xs (f x s)"

locale undo_log =
  fixes apply_op :: "'x \<Rightarrow> 's \<Rightarrow> 's" and undo_op :: "'x \<Rightarrow> 's \<Rightarrow> 's"
    and allowed :: "'x \<Rightarrow> 's \<Rightarrow> bool" and same :: "'s \<Rightarrow> 's \<Rightarrow> bool"
  assumes same_refl: "same s s"
    and undo_applied: "allowed x s \<Longrightarrow> same t (apply_op x s) \<Longrightarrow> same (undo_op x t) s"
begin

lemma undo_run: "allowed_run allowed apply_op xs s \<Longrightarrow> same (fold undo_op (rev xs) (fold apply_op xs s)) s"
  by (induction xs arbitrary: s) (simp_all add: same_refl undo_applied)

lemma undo_one: "allowed x s \<Longrightarrow> same (undo_op x (apply_op x s)) s"
  by (simp add: undo_applied same_refl)

end

section \<open>Big-endian byte strings\<close>

text \<open>\<open>to_be_bytes\<close> and \<open>from_be_bytes\<close> at every width.\<close>

fun be_bytes :: "nat \<Rightarrow> 'a::len word \<Rightarrow> bytes" where
  "be_bytes 0 w = []"
| "be_bytes (Suc n) w = be_bytes n (drop_bit 8 w) @ [ucast w]"

definition from_be :: "bytes \<Rightarrow> 'a::len word" where
  "from_be bs = foldl (\<lambda>a b. push_bit 8 a OR ucast b) 0 bs"

abbreviation u32_be :: "u32 \<Rightarrow> bytes" where "u32_be \<equiv> be_bytes 4"
abbreviation u64_be :: "u64 \<Rightarrow> bytes" where "u64_be \<equiv> be_bytes 8"
abbreviation arr32 :: "u256 \<Rightarrow> bytes" where "arr32 \<equiv> be_bytes 32"

lemma length_be_bytes [simp]: "length (be_bytes n w) = n"
  by (induction n arbitrary: w) auto

lemma from_be_Nil [simp]: "from_be [] = 0"
  by (simp add: from_be_def)

lemma from_be_snoc: "from_be (bs @ [b]) = push_bit 8 (from_be bs) OR ucast b"
  by (simp add: from_be_def)

lemma from_be_be_bytes_take: "from_be (be_bytes n w) = take_bit (8 * n) w"
proof (induction n arbitrary: w)
  case 0
  then show ?case by simp
next
  case (Suc n)
  have "from_be (be_bytes (Suc n) w)
      = push_bit 8 (take_bit (8 * n) (drop_bit 8 w)) OR ucast (ucast w :: u8)"
    by (simp add: from_be_snoc Suc.IH)
  also have "\<dots> = take_bit (8 * Suc n) w"
    by (rule bit_eqI) (auto simp: bit_simps)
  finally show ?case .
qed

lemma from_be_be_bytes [codec_simps]:
  "LENGTH('a) \<le> 8 * n \<Longrightarrow> from_be (be_bytes n (w :: 'a::len word)) = w"
  by (simp add: from_be_be_bytes_take take_bit_word_eq_self)

lemma be_bytes_from_be:
  "8 * length bs \<le> LENGTH('a) \<Longrightarrow> be_bytes (length bs) (from_be bs :: 'a::len word) = bs"
proof (induction bs rule: rev_induct)
  case Nil
  then show ?case by simp
next
  case (snoc b bs)
  let ?w = "from_be bs :: 'a word"
  have small: "take_bit (8 * length bs) ?w = ?w"
    using from_be_be_bytes_take [of "length bs" ?w] snoc by simp
  have "drop_bit 8 (push_bit 8 ?w OR ucast b :: 'a word) = ?w"
  proof (rule bit_word_eqI)
    fix i assume "i < LENGTH('a)"
    have "bit ?w i \<Longrightarrow> i < 8 * length bs"
      using small by (metis bit_take_bit_iff)
    then show "bit (drop_bit 8 (push_bit 8 ?w OR ucast b :: 'a word)) i = bit ?w i"
      using snoc.prems by (auto simp: bit_simps dest: bit_imp_le_length)
  qed
  moreover have "ucast (push_bit 8 ?w OR ucast b :: 'a word) = b"
    using snoc.prems by (intro bit_word_eqI) (auto simp: bit_simps)
  ultimately show ?case
    using snoc by (simp add: from_be_snoc)
qed

lemma be_bytes_inj [simp]:
  "LENGTH('a) \<le> 8 * n \<Longrightarrow> be_bytes n (v :: 'a::len word) = be_bytes n w \<longleftrightarrow> v = w"
  by (metis from_be_be_bytes)

lemma be_bytes_numeral:
  "be_bytes (numeral k) w = be_bytes (pred_numeral k) (drop_bit 8 w) @ [ucast w]"
  by (simp add: numeral_eq_Suc)

text \<open>\<open>bslice a n bs\<close> is \<open>bs[a..a + n]\<close>, which the code reads only after a length check.\<close>

definition bslice :: "nat \<Rightarrow> nat \<Rightarrow> bytes \<Rightarrow> bytes" where
  "bslice a n bs = take n (drop a bs)"

lemma bslice_skip [codec_simps]:
  "length xs \<le> a \<Longrightarrow> bslice a n (xs @ ys) = bslice (a - length xs) n ys"
  by (simp add: bslice_def)

lemma bslice_take [codec_simps]: "length xs = n \<Longrightarrow> bslice 0 n (xs @ ys) = xs"
  by (simp add: bslice_def)

lemma bslice_all [codec_simps]: "length xs = n \<Longrightarrow> bslice 0 n xs = xs"
  by (simp add: bslice_def)

lemma bslice_Cons [codec_simps]:
  "bslice (Suc a) n (x # xs) = bslice a n xs"
  "bslice (numeral k) n (x # xs) = bslice (pred_numeral k) n xs"
  by (simp_all add: bslice_def numeral_eq_Suc)

lemma length_bslice [simp]: "length (bslice a n bs) = min n (length bs - a)"
  by (simp add: bslice_def)

lemma bslice_append: "bslice a m bs @ bslice (a + m) n bs = bslice a (m + n) bs"
  by (simp add: bslice_def take_add add.commute)

lemma be_bytes_bslice:
  assumes "a + n \<le> length bs" and "LENGTH('a) = 8 * n"
  shows "be_bytes n (from_be (bslice a n bs) :: 'a::len word) = bslice a n bs"
proof -
  have "length (bslice a n bs) = n" using assms by simp
  then show ?thesis using be_bytes_from_be [of "bslice a n bs", where 'a = 'a] assms by simp
qed

section \<open>Encodings as interfaces\<close>

text \<open>
  What a reader of stored bytes relies on: decoding returns what was encoded and, for an
  exact encoding, accepts nothing else.
\<close>

locale codec =
  fixes enc :: "'a \<Rightarrow> 'b" and decode :: "'b \<Rightarrow> 'e + 'a"
  assumes decode_enc: "decode (enc x) = Inr x"
begin

lemma enc_inject: "enc x = enc y \<longleftrightarrow> x = y"
  by (metis decode_enc sum.inject(2))

end

locale exact_codec = codec +
  assumes enc_decode: "decode b = Inr x \<Longrightarrow> enc x = b"
begin

lemma decode_iff: "decode b = Inr x \<longleftrightarrow> b = enc x"
  using decode_enc enc_decode by metis

lemma decode_inject: "decode b = Inr x \<Longrightarrow> decode c = Inr x \<Longrightarrow> b = c"
  using enc_decode by metis

end

section \<open>Saturating and wrapping arithmetic\<close>

definition saturating_add :: "'a::len word \<Rightarrow> 'a word \<Rightarrow> 'a word" where
  "saturating_add a b = (if unat a + unat b < 2 ^ LENGTH('a) then a + b else - 1)"

definition saturating_sub :: "'a::len word \<Rightarrow> 'a word \<Rightarrow> 'a word" where
  "saturating_sub a b = (if a < b then 0 else a - b)"

lemma unat_max_word: "unat (- 1 :: 'a::len word) = 2 ^ LENGTH('a) - 1"
  by (simp add: unsigned_minus_1_eq_mask mask_eq_exp_minus_1)

lemma unat_saturating_add:
  "unat (saturating_add a b) = min (2 ^ LENGTH('a) - 1) (unat a + unat (b :: 'a::len word))"
  by (auto simp: saturating_add_def unat_word_ariths unat_max_word min_def not_less)

lemma unat_saturating_sub: "unat (saturating_sub a b) = unat a - unat b"
  by (auto simp: saturating_sub_def word_less_nat_alt unat_sub word_le_nat_alt)

lemma unat_fold_saturating_add:
  "unat (fold (\<lambda>x t. saturating_add t (f x)) xs (t :: 'a::len word))
     = min (2 ^ LENGTH('a) - 1) (unat t + (\<Sum>x\<leftarrow>xs. unat (f x)))"
proof (induction xs arbitrary: t)
  case Nil
  have "unat t < 2 ^ LENGTH('a)" by simp
  then have "unat t \<le> 2 ^ LENGTH('a) - 1" by linarith
  then show ?case by simp
next
  case (Cons x xs)
  have "min m (min m (a + b) + c) = min m (a + (b + c))" for m a b c :: nat
    by simp
  then show ?case by (simp add: unat_saturating_add Cons.IH)
qed

section \<open>Printing\<close>

definition ascii :: "string \<Rightarrow> bytes" where
  "ascii s = map of_char s"

definition hex_digit :: "nat \<Rightarrow> char" where
  "hex_digit d = (if d < 10 then char_of (48 + d) else char_of (87 + d))"

definition hex_byte :: "u8 \<Rightarrow> string" where
  "hex_byte b = [hex_digit (unat b div 16), hex_digit (unat b mod 16)]"

definition hex_of_bytes :: "bytes \<Rightarrow> string" where
  "hex_of_bytes bs = concat (map hex_byte bs)"

fun dec :: "nat \<Rightarrow> string" where
  "dec n = (if n < 10 then [char_of (48 + n)] else dec (n div 10) @ [char_of (48 + n mod 10)])"

declare dec.simps [simp del]

definition dec_int :: "int \<Rightarrow> string" where
  "dec_int i = (if i < 0 then CHR ''-'' # dec (nat (- i)) else dec (nat i))"

lemma length_hex_of_bytes [simp]: "length (hex_of_bytes bs) = 2 * length bs"
  by (induction bs) (auto simp: hex_of_bytes_def hex_byte_def)

section \<open>Lists and association lists\<close>

text \<open>
  A Rust \<open>HashMap\<close> is an association list without repeated keys. Its order stands for
  the iteration order, which Rust leaves open; a property that must not depend on that
  order is proved for every order. A \<open>HashSet\<close> is a list without repetitions.
\<close>

definition hm_insert :: "'k \<Rightarrow> 'v \<Rightarrow> ('k \<times> 'v) list \<Rightarrow> ('k \<times> 'v) list" where
  "hm_insert = AList.update"

definition hm_remove :: "'k \<Rightarrow> ('k \<times> 'v) list \<Rightarrow> ('k \<times> 'v) list" where
  "hm_remove = AList.delete"

text \<open>\<open>entry(k).or_default().push(v)\<close>.\<close>

definition hm_push :: "'k \<Rightarrow> 'v \<Rightarrow> ('k \<times> 'v list) list \<Rightarrow> ('k \<times> 'v list) list" where
  "hm_push k v m = AList.update k ((case map_of m k of None \<Rightarrow> [] | Some vs \<Rightarrow> vs) @ [v]) m"

lemma map_of_hm_insert [simp]: "map_of (hm_insert k v m) = (map_of m)(k \<mapsto> v)"
  by (simp add: hm_insert_def update_conv')

lemma map_of_hm_remove [simp]: "map_of (hm_remove k m) = (map_of m)(k := None)"
  by (simp add: hm_remove_def delete_conv')

lemma map_of_hm_push [simp]:
  "map_of (hm_push k v m)
     = (map_of m)(k \<mapsto> (case map_of m k of None \<Rightarrow> [] | Some vs \<Rightarrow> vs) @ [v])"
  by (simp add: hm_push_def update_conv')

lemma distinct_hm_insert [simp]:
  "distinct (map fst m) \<Longrightarrow> distinct (map fst (hm_insert k v m))"
  by (simp add: hm_insert_def distinct_update)

lemma distinct_hm_remove [simp]:
  "distinct (map fst m) \<Longrightarrow> distinct (map fst (hm_remove k m))"
  by (simp add: hm_remove_def distinct_delete)

lemma set_hm_remove [simp]: "set (hm_remove k m) = {p \<in> set m. fst p \<noteq> k}"
  by (auto simp: hm_remove_def AList.delete_eq)

lemma keys_hm_insert [simp]: "fst ` set (hm_insert k v m) = insert k (fst ` set m)"
  by (simp add: hm_insert_def dom_update)

lemma in_set_hm_insert:
  assumes "distinct (map fst m)"
  shows "p \<in> set (hm_insert k v m) \<longleftrightarrow> p = (k, v) \<or> p \<in> set m \<and> fst p \<noteq> k"
proof (cases p)
  case (Pair a b)
  have "p \<in> set (hm_insert k v m) \<longleftrightarrow> map_of (hm_insert k v m) a = Some b"
    using map_of_eq_Some_iff [OF distinct_hm_insert [OF assms]] Pair by metis
  then show ?thesis
    using map_of_eq_Some_iff [OF assms] Pair by auto
qed

definition starts_with :: "'a list \<Rightarrow> 'a list \<Rightarrow> bool" where
  "starts_with p xs = (take (length p) xs = p)"

lemma starts_with_append: "length p = length a \<Longrightarrow> starts_with p (a @ b) \<longleftrightarrow> a = p"
  by (auto simp: starts_with_def)

text \<open>\<open>retain\<close>, \<open>dedup_by_key\<close> and the stable descending sort of the library.\<close>

fun dedup_by_key :: "('a \<Rightarrow> 'k) \<Rightarrow> 'a list \<Rightarrow> 'a list" where
  "dedup_by_key f [] = []"
| "dedup_by_key f [x] = [x]"
| "dedup_by_key f (x # y # zs) =
     (if f x = f y then dedup_by_key f (x # zs) else x # dedup_by_key f (y # zs))"

definition sort_desc :: "('a \<Rightarrow> 'k::linorder) \<Rightarrow> 'a list \<Rightarrow> 'a list" where
  "sort_desc f xs = rev (sort_key f (rev xs))"

lemma set_sort_desc [simp]: "set (sort_desc f xs) = set xs"
  by (simp add: sort_desc_def)

lemma dedup_by_key_subset: "set (dedup_by_key f xs) \<subseteq> set xs"
  by (induction f xs rule: dedup_by_key.induct) auto

lemma dedup_by_key_id: "distinct (map f xs) \<Longrightarrow> dedup_by_key f xs = xs"
  by (induction f xs rule: dedup_by_key.induct) auto

end
