(* ===== verification/External.thy ===== *)
theory External
  imports Prelude
begin

text \<open>
  What the program takes from third-party crates. The operations of \<open>sled\<close> (the embedded
  store) and of \<open>bitcoin\<close> are records of functions, passed as the arguments \<open>S\<close> and \<open>B\<close>
  to every definition that uses them. \<open>sled_ok\<close> and \<open>bitcoin_ok\<close> are the documented
  behaviour that properties rely on. \<open>ref_sled\<close> and \<open>ref_bitcoin\<close> are concrete instances,
  used to show that the two hypotheses can hold and to run the model.
\<close>

section \<open>Bitcoin data\<close>

text \<open>\<open>Txid\<close>, \<open>BlockHash\<close> and \<open>ScriptHash\<close> wrap a 32-byte array.\<close>

type_synonym txid = u256
type_synonym block_hash = u256
type_synonym script_hash = u256

record outpoint =
  op_txid :: txid
  op_vout :: u32

record txin =
  previous_output :: outpoint
  script_sig :: bytes
  tx_sequence :: u32
  witness :: "bytes list"

record txout =
  tx_value :: u64
  script_pubkey :: bytes

record transaction =
  tx_version :: i32
  lock_time :: u32
  tx_input :: "txin list"
  tx_output :: "txout list"

record block_header =
  header_version :: i32
  prev_blockhash :: block_hash
  merkle_root :: u256
  header_time :: u32
  header_bits :: u32
  header_nonce :: u32

record block =
  header :: block_header
  txdata :: "transaction list"

record bitcoin_lib =
  compute_txid :: "transaction \<Rightarrow> txid"
  serialize_tx :: "transaction \<Rightarrow> bytes"
  deserialize_tx :: "bytes \<Rightarrow> string + transaction"
  is_null :: "outpoint \<Rightarrow> bool"
  sha256 :: "bytes \<Rightarrow> u256"
  sha256_to_string :: "u256 \<Rightarrow> string"
  txid_to_string :: "txid \<Rightarrow> string"
  txid_from_str :: "string \<Rightarrow> string + txid"
  tx_weight :: "transaction \<Rightarrow> u64"
  block_hash :: "block_header \<Rightarrow> block_hash"
  serialize_header_hex :: "block_header \<Rightarrow> string"
  serialize_tx_hex :: "transaction \<Rightarrow> string"
  hex_decode :: "string \<Rightarrow> string + bytes"

text \<open>
  Consensus decoding inverts consensus encoding, and a txid is printed faithfully: the
  two facts about the crate that the index relies on.
\<close>

definition bitcoin_ok :: "bitcoin_lib \<Rightarrow> bool" where
  "bitcoin_ok B \<longleftrightarrow>
     (\<forall>tx. deserialize_tx B (serialize_tx B tx) = Inr tx) \<and>
     (\<forall>t. txid_from_str B (txid_to_string B t) = Inr t)"

lemma bitcoin_ok_decode [simp]:
  "bitcoin_ok B \<Longrightarrow> deserialize_tx B (serialize_tx B tx) = Inr tx"
  by (simp add: bitcoin_ok_def)

lemma bitcoin_ok_txid [simp]:
  "bitcoin_ok B \<Longrightarrow> txid_from_str B (txid_to_string B t) = Inr t"
  by (simp add: bitcoin_ok_def)

lemma bitcoin_ok_txid_inj:
  "bitcoin_ok B \<Longrightarrow> txid_to_string B s = txid_to_string B t \<longleftrightarrow> s = t"
  by (metis bitcoin_ok_txid sum.inject(2))

section \<open>The embedded store\<close>

text \<open>
  A tree maps byte strings to byte strings, in lexicographic key order. Iterators yield
  a \<open>Result\<close> per entry, and every operation may fail with an I/O error.
\<close>

record 't sled =
  sled_insert :: "'t \<Rightarrow> bytes \<Rightarrow> bytes \<Rightarrow> (string + unit) \<times> 't"
  sled_remove :: "'t \<Rightarrow> bytes \<Rightarrow> (string + unit) \<times> 't"
  sled_get :: "'t \<Rightarrow> bytes \<Rightarrow> string + bytes option"
  sled_iter :: "'t \<Rightarrow> (string + (bytes \<times> bytes)) list"
  sled_scan_prefix :: "'t \<Rightarrow> bytes \<Rightarrow> (string + (bytes \<times> bytes)) list"

definition view :: "'t sled \<Rightarrow> 't \<Rightarrow> bytes \<rightharpoonup> bytes" where
  "view S t = (\<lambda>k. case sled_get S t k of Inl _ \<Rightarrow> None | Inr r \<Rightarrow> r)"

text \<open>
  The contract while no I/O error occurs: point operations behave as on a map, and an
  iterator yields the entries of that map in strictly increasing key order.
\<close>

definition sled_ok :: "'t sled \<Rightarrow> bool" where
  "sled_ok S \<longleftrightarrow>
     (\<forall>t k. \<exists>r. sled_get S t k = Inr r) \<and>
     (\<forall>t k v. \<exists>t'. sled_insert S t k v = (Inr (), t') \<and> view S t' = (view S t)(k \<mapsto> v)) \<and>
     (\<forall>t k. \<exists>t'. sled_remove S t k = (Inr (), t') \<and> view S t' = (view S t)(k := None)) \<and>
     (\<forall>t. \<exists>es. sled_iter S t = map Inr es \<and> sorted_wrt (\<lambda>a b. fst a < fst b) es
             \<and> (\<forall>k v. (k, v) \<in> set es \<longleftrightarrow> view S t k = Some v)) \<and>
     (\<forall>t p. sled_scan_prefix S t p
              = filter (\<lambda>e. case e of Inl _ \<Rightarrow> True | Inr kv \<Rightarrow> starts_with p (fst kv))
                  (sled_iter S t))"

definition ins :: "'t sled \<Rightarrow> bytes \<Rightarrow> bytes \<Rightarrow> 't \<Rightarrow> 't" where
  "ins S k v t = snd (sled_insert S t k v)"

definition del :: "'t sled \<Rightarrow> bytes \<Rightarrow> 't \<Rightarrow> 't" where
  "del S k t = snd (sled_remove S t k)"

definition entries :: "'t sled \<Rightarrow> 't \<Rightarrow> (bytes \<times> bytes) list" where
  "entries S t = map projr (sled_iter S t)"

named_theorems sled_simps \<open>the store contract as rewrite rules\<close>

lemma sled_insert_ok [sled_simps]:
  "sled_ok S \<Longrightarrow> sled_insert S t k v = (Inr (), ins S k v t)"
  unfolding sled_ok_def ins_def by (metis prod.sel(2))

lemma sled_remove_ok [sled_simps]:
  "sled_ok S \<Longrightarrow> sled_remove S t k = (Inr (), del S k t)"
  unfolding sled_ok_def del_def by (metis prod.sel(2))

lemma sled_get_ok [sled_simps]: "sled_ok S \<Longrightarrow> sled_get S t k = Inr (view S t k)"
  unfolding sled_ok_def view_def by (metis sum.simps(6))

lemma view_ins [sled_simps]: "sled_ok S \<Longrightarrow> view S (ins S k v t) = (view S t)(k \<mapsto> v)"
  unfolding sled_ok_def ins_def by (metis prod.sel(2))

lemma view_del [sled_simps]: "sled_ok S \<Longrightarrow> view S (del S k t) = (view S t)(k := None)"
  unfolding sled_ok_def del_def by (metis prod.sel(2))

lemma sled_entries:
  assumes "sled_ok S"
  shows "sled_iter S t = map Inr (entries S t)"
    and "sorted_wrt (\<lambda>a b. fst a < fst b) (entries S t)"
    and "(k, v) \<in> set (entries S t) \<longleftrightarrow> view S t k = Some v"
proof -
  obtain es where es: "sled_iter S t = map Inr es" "sorted_wrt (\<lambda>a b. fst a < fst b) es"
    "\<forall>k v. (k, v) \<in> set es \<longleftrightarrow> view S t k = Some v"
    using assms unfolding sled_ok_def by blast
  have "entries S t = es" by (simp add: entries_def es(1) comp_def)
  with es show "sled_iter S t = map Inr (entries S t)"
    and "sorted_wrt (\<lambda>a b. fst a < fst b) (entries S t)"
    and "(k, v) \<in> set (entries S t) \<longleftrightarrow> view S t k = Some v" by auto
qed

lemma sled_scan_ok [sled_simps]:
  "sled_ok S \<Longrightarrow>
     sled_scan_prefix S t p = map Inr (filter (\<lambda>e. starts_with p (fst e)) (entries S t))"
  using sled_entries(1) [of S t]
  by (auto simp: sled_ok_def filter_map comp_def)

text \<open>The entry list of a tree is determined by its content.\<close>

lemma entries_strict_sorted: "sled_ok S \<Longrightarrow> sorted_wrt (<) (map fst (entries S t))"
  using sled_entries(2) [of S t] by (simp add: sorted_wrt_map)

lemma entries_sorted: "sled_ok S \<Longrightarrow> sorted (map fst (entries S t))"
  using entries_strict_sorted [of S t] by (simp add: strict_sorted_iff)

lemma entries_distinct: "sled_ok S \<Longrightarrow> distinct (map fst (entries S t))"
  using entries_strict_sorted [of S t] by (simp add: strict_sorted_iff)

lemma entries_cong:
  assumes "sled_ok S" and "view S t = view S u"
  shows "entries S t = entries S u"
proof (rule map_sorted_distinct_set_unique)
  show "inj_on fst (set (entries S t) \<union> set (entries S u))"
    using assms by (auto simp: inj_on_def sled_entries(3))
  show "set (entries S t) = set (entries S u)"
    using assms by (auto simp: sled_entries(3))
qed (use assms in \<open>auto intro: entries_sorted entries_distinct\<close>)

section \<open>Concrete instances\<close>

text \<open>
  Association lists of byte strings, sorted when they are iterated, satisfy the contract.
\<close>

definition ref_items :: "(bytes \<times> bytes) list \<Rightarrow> (bytes \<times> bytes) list" where
  "ref_items t = sort_key fst (AList.clearjunk t)"

definition ref_sled :: "(bytes \<times> bytes) list sled" where
  "ref_sled = \<lparr>
     sled_insert = (\<lambda>t k v. (Inr (), AList.update k v t)),
     sled_remove = (\<lambda>t k. (Inr (), AList.delete k t)),
     sled_get = (\<lambda>t k. Inr (map_of t k)),
     sled_iter = (\<lambda>t. map Inr (ref_items t)),
     sled_scan_prefix = (\<lambda>t p. map Inr (filter (\<lambda>e. starts_with p (fst e)) (ref_items t)))\<rparr>"

lemma ref_sled_simps [simp]:
  "sled_insert ref_sled t k v = (Inr (), AList.update k v t)"
  "sled_remove ref_sled t k = (Inr (), AList.delete k t)"
  "sled_get ref_sled t k = Inr (map_of t k)"
  "sled_iter ref_sled t = map Inr (ref_items t)"
  "sled_scan_prefix ref_sled t p = map Inr (filter (\<lambda>e. starts_with p (fst e)) (ref_items t))"
  by (simp_all add: ref_sled_def)

lemma view_ref_sled [simp]: "view ref_sled t = map_of t"
  by (simp add: view_def)

lemma ref_items_sorted: "sorted_wrt (\<lambda>a b. fst a < fst b) (ref_items t)"
proof -
  have "distinct (map fst (ref_items t))"
    by (simp add: ref_items_def distinct_map distinct_clearjunk [unfolded distinct_map])
  then have "sorted_wrt (<) (map fst (ref_items t))"
    by (simp add: strict_sorted_iff ref_items_def)
  then show ?thesis by (simp add: sorted_wrt_map)
qed

lemma set_ref_items: "(k, v) \<in> set (ref_items t) \<longleftrightarrow> map_of t k = Some v"
  using map_of_eq_Some_iff [OF distinct_clearjunk, of t k v]
  by (simp add: ref_items_def map_of_clearjunk)

lemma ref_sled_ok [simp]: "sled_ok ref_sled"
  unfolding sled_ok_def
  by (auto simp: update_conv' delete_conv' filter_map comp_def set_ref_items
      intro!: exI [of _ "ref_items t" for t] ref_items_sorted)

text \<open>
  A self-delimiting encoding of transactions, and a library built on it: every element of
  a sequence is preceded by a 1 and the sequence is closed by a 0.
\<close>

definition enc_seq :: "('a \<Rightarrow> bytes) \<Rightarrow> 'a list \<Rightarrow> bytes" where
  "enc_seq e xs = concat (map (\<lambda>x. 1 # e x) xs) @ [0]"

fun dec_seq :: "(bytes \<Rightarrow> 'a \<times> bytes) \<Rightarrow> nat \<Rightarrow> bytes \<Rightarrow> 'a list \<times> bytes" where
  "dec_seq d (Suc n) (b # r) =
     (if b = 1 then case d r of (x, r') \<Rightarrow> (case dec_seq d n r' of (xs, r'') \<Rightarrow> (x # xs, r''))
      else ([], r))"
| "dec_seq d _ r = ([], r)"

definition dec_word :: "nat \<Rightarrow> bytes \<Rightarrow> 'a::len word \<times> bytes" where
  "dec_word n bs = (from_be (take n bs), drop n bs)"

definition enc_u8 :: "u8 \<Rightarrow> bytes" where
  "enc_u8 b = [b]"

fun dec_u8 :: "bytes \<Rightarrow> u8 \<times> bytes" where
  "dec_u8 [] = (0, [])"
| "dec_u8 (b # r) = (b, r)"

definition enc_txin :: "txin \<Rightarrow> bytes" where
  "enc_txin i = arr32 (op_txid (previous_output i)) @ u32_be (op_vout (previous_output i))
     @ enc_seq (enc_u8) (script_sig i) @ u32_be (tx_sequence i)
     @ enc_seq (enc_seq (enc_u8)) (witness i)"

definition dec_bytes :: "bytes \<Rightarrow> bytes \<times> bytes" where
  "dec_bytes bs = dec_seq (dec_u8) (length bs) bs"

definition dec_txin :: "bytes \<Rightarrow> txin \<times> bytes" where
  "dec_txin r0 =
     (let (t, r1) = dec_word 32 r0; (v, r2) = dec_word 4 r1; (ss, r3) = dec_bytes r2;
          (q, r4) = dec_word 4 r3; (w, r5) = dec_seq dec_bytes (length r4) r4
      in (\<lparr>previous_output = \<lparr>op_txid = t, op_vout = v\<rparr>, script_sig = ss, tx_sequence = q,
            witness = w\<rparr>, r5))"

definition enc_txout :: "txout \<Rightarrow> bytes" where
  "enc_txout o' = u64_be (tx_value o') @ enc_seq (enc_u8) (script_pubkey o')"

definition dec_txout :: "bytes \<Rightarrow> txout \<times> bytes" where
  "dec_txout r0 =
     (let (v, r1) = dec_word 8 r0; (ss, r2) = dec_bytes r1
      in (\<lparr>tx_value = v, script_pubkey = ss\<rparr>, r2))"

definition enc_transaction :: "transaction \<Rightarrow> bytes" where
  "enc_transaction tx = u32_be (tx_version tx) @ u32_be (lock_time tx)
     @ enc_seq enc_txin (tx_input tx) @ enc_seq enc_txout (tx_output tx)"

definition dec_transaction :: "bytes \<Rightarrow> transaction" where
  "dec_transaction r0 =
     (let (v, r1) = dec_word 4 r0; (l, r2) = dec_word 4 r1;
          (is, r3) = dec_seq dec_txin (length r2) r2; (os, r4) = dec_seq dec_txout (length r3) r3
      in \<lparr>tx_version = v, lock_time = l, tx_input = is, tx_output = os\<rparr>)"

lemma dec_word_append [simp]:
  "LENGTH('a) \<le> 8 * n \<Longrightarrow> dec_word n (be_bytes n (w :: 'a::len word) @ r) = (w, r)"
  by (simp add: dec_word_def from_be_be_bytes)

lemma dec_seq_append [simp]:
  assumes "\<And>x r. d (e x @ r) = (x, r)" and "length (enc_seq e xs @ r) \<le> n"
  shows "dec_seq d n (enc_seq e xs @ r) = (xs, r)"
  using assms(2)
proof (induction xs arbitrary: n)
  case Nil
  then show ?case by (cases n) (auto simp: enc_seq_def)
next
  case (Cons x xs)
  have "enc_seq e (x # xs) @ r = 1 # e x @ (enc_seq e xs @ r)"
    by (simp add: enc_seq_def)
  with Cons show ?case by (cases n) (auto simp: assms(1))
qed

lemma dec_bytes_append [simp]: "dec_bytes (enc_seq (enc_u8) bs @ r) = (bs, r)"
  unfolding dec_bytes_def by (rule dec_seq_append) (simp_all add: enc_u8_def)

lemma dec_txin_append [simp]: "dec_txin (enc_txin i @ r) = (i, r)"
  by (simp add: dec_txin_def enc_txin_def)

lemma dec_txout_append [simp]: "dec_txout (enc_txout o' @ r) = (o', r)"
  by (simp add: dec_txout_def enc_txout_def)

lemma dec_enc_transaction [simp]: "dec_transaction (enc_transaction tx) = tx"
proof -
  have "dec_seq dec_txout n (enc_seq enc_txout os) = (os, [])"
    if "length (enc_seq enc_txout os) \<le> n" for n os
    using dec_seq_append [of dec_txout enc_txout os "[]" n] that by simp
  then show ?thesis by (simp add: dec_transaction_def enc_transaction_def)
qed

definition hex_val :: "char \<Rightarrow> nat" where
  "hex_val c = (if 97 \<le> (of_char c :: nat) then of_char c - 87 else of_char c - 48)"

fun bytes_of_hex :: "string \<Rightarrow> bytes" where
  "bytes_of_hex (a # b # cs) = of_nat (16 * hex_val a + hex_val b) # bytes_of_hex cs"
| "bytes_of_hex _ = []"

lemma hex_val_digit [simp]: "d < 16 \<Longrightarrow> hex_val (hex_digit d) = d"
  by (auto simp: hex_val_def hex_digit_def)

lemma bytes_of_hex_of_bytes [simp]: "bytes_of_hex (hex_of_bytes bs) = bs"
proof (induction bs)
  case Nil
  then show ?case by (simp add: hex_of_bytes_def)
next
  case (Cons b bs)
  have "unat b < 2 ^ LENGTH(8)" by (rule unsigned_less)
  then have "unat b div 16 < 16" by (simp add: less_mult_imp_div_less)
  moreover have "(of_nat (16 * (unat b div 16) + unat b mod 16) :: u8) = b"
    by (simp add: mult_div_mod_eq)
  ultimately show ?case using Cons by (simp add: hex_of_bytes_def hex_byte_def)
qed

definition ref_bitcoin :: bitcoin_lib where
  "ref_bitcoin = \<lparr>
     compute_txid = (\<lambda>tx. ucast (tx_version tx)),
     serialize_tx = enc_transaction,
     deserialize_tx = (\<lambda>bs. Inr (dec_transaction bs)),
     is_null = (\<lambda>p. op_txid p = 0 \<and> op_vout p = - 1),
     sha256 = (\<lambda>bs. from_be (rev bs)),
     sha256_to_string = (\<lambda>h. hex_of_bytes (arr32 h)),
     txid_to_string = (\<lambda>t. hex_of_bytes (rev (arr32 t))),
     txid_from_str = (\<lambda>s. Inr (from_be (rev (bytes_of_hex s)))),
     tx_weight = (\<lambda>tx. 400),
     block_hash = (\<lambda>h. ucast (header_nonce h)),
     serialize_header_hex = (\<lambda>h. hex_of_bytes (u32_be (header_nonce h))),
     serialize_tx_hex = (\<lambda>tx. hex_of_bytes (enc_transaction tx)),
     hex_decode = (\<lambda>s. Inr (bytes_of_hex s))\<rparr>"

lemma ref_bitcoin_simps [simp]:
  "compute_txid ref_bitcoin tx = ucast (tx_version tx)"
  "serialize_tx ref_bitcoin tx = enc_transaction tx"
  "deserialize_tx ref_bitcoin bs = Inr (dec_transaction bs)"
  "is_null ref_bitcoin p \<longleftrightarrow> op_txid p = 0 \<and> op_vout p = - 1"
  "sha256 ref_bitcoin bs = from_be (rev bs)"
  "txid_to_string ref_bitcoin t = hex_of_bytes (rev (arr32 t))"
  by (simp_all add: ref_bitcoin_def)

lemma ref_bitcoin_ok [simp]: "bitcoin_ok ref_bitcoin"
  by (simp add: bitcoin_ok_def ref_bitcoin_def from_be_be_bytes)

end
