(* ===== verification/Store.thy ===== *)
theory Store
  imports External
begin

text \<open>
  \<open>src/store.rs\<close>: the persistent index, six trees of the embedded store with their key
  and value encodings. A method of \<open>PersistentIndex\<close> is a function on the record of trees;
  methods that mutate return the changed record beside their result.
\<close>

section \<open>Data\<close>

text \<open>One constructor per way in which the index reports an error.\<close>

datatype error =
    SledError string
  | OpenFailed string
  | ExpectPanic
  | DecodeTx string
  | InvalidUtxoValue
  | MissingOutput outpoint
  | InvalidOutputLength nat
  | InvalidHistoryKeyLength nat
  | InvalidJournalKeyLength nat
  | InvalidJournalValueLength
  | InvalidJournalKind u8
  | InvalidPendingListLength nat
  | InvalidPendingChunk
  | InvalidTxidPayload nat
  | InvalidOutpointPayload nat
  | SlicePanic

record 't pindex =
  ix_history :: 't
  ix_outputs :: 't
  ix_txs :: 't
  ix_utxos :: 't
  ix_journal :: 't
  ix_meta :: 't

datatype history_kind = Fund | Spend

fun history_kind_u8 :: "history_kind \<Rightarrow> u8" where
  "history_kind_u8 Fund = 0"
| "history_kind_u8 Spend = 1"

record stored_history_entry =
  sh_script_hash :: script_hash
  sh_txid :: txid
  sh_height :: u32
  sh_sequence :: u32
  sh_kind :: u8
  sh_history_key :: bytes

record stored_output =
  so_script_hash :: script_hash
  so_txid :: txid
  so_vout :: u32
  so_value :: u64
  so_height :: u32

record stored_unspent =
  su_txid :: txid
  su_vout :: u32
  su_value :: u64
  su_height :: u32

datatype journal_action_kind = JTx | JHistory | JOutput | JSpend

fun journal_kind_u8 :: "journal_action_kind \<Rightarrow> u8" where
  "journal_kind_u8 JTx = 0"
| "journal_kind_u8 JHistory = 1"
| "journal_kind_u8 JOutput = 2"
| "journal_kind_u8 JSpend = 3"

record stored_journal_action =
  ja_journal_key :: bytes
  ja_height :: u32
  ja_sequence :: u32
  ja_kind :: journal_action_kind
  ja_payload :: bytes

record tx_entry =
  te_txid :: txid
  te_height :: u32
  te_sequence :: u32

section \<open>Keys and values\<close>

definition PENDING_TXIDS_KEY :: bytes where
  "PENDING_TXIDS_KEY = ascii ''pending_txids''"

definition TIP_HEIGHT_KEY :: bytes where
  "TIP_HEIGHT_KEY = ascii ''tip_height''"

definition outpoint_key :: "outpoint \<Rightarrow> bytes" where
  "outpoint_key p = arr32 (op_txid p) @ u32_be (op_vout p)"

definition utxo_key :: "script_hash \<Rightarrow> txid \<Rightarrow> u32 \<Rightarrow> bytes" where
  "utxo_key sh t v = arr32 sh @ arr32 t @ u32_be v"

definition journal_key :: "u32 \<Rightarrow> u32 \<Rightarrow> bytes" where
  "journal_key height sequence = u32_be height @ u32_be sequence"

definition encode_output :: "stored_output \<Rightarrow> bytes" where
  "encode_output out =
     arr32 (so_script_hash out) @ u64_be (so_value out) @ u32_be (so_height out)"

definition decode_output :: "outpoint \<Rightarrow> bytes \<Rightarrow> error + stored_output" where
  "decode_output p raw =
     (if length raw \<noteq> 44 then Inl (InvalidOutputLength (length raw))
      else Inr \<lparr>so_script_hash = from_be (bslice 0 32 raw), so_txid = op_txid p,
                so_vout = op_vout p, so_value = from_be (bslice 32 8 raw),
                so_height = from_be (bslice 40 4 raw)\<rparr>)"

definition history_key ::
  "script_hash \<Rightarrow> u32 \<Rightarrow> history_kind \<Rightarrow> txid \<Rightarrow> u32 \<Rightarrow> bytes" where
  "history_key sh height kind t sequence =
     arr32 sh @ u32_be height @ [history_kind_u8 kind] @ arr32 t @ u32_be sequence"

definition parse_history_key :: "bytes \<Rightarrow> error + stored_history_entry" where
  "parse_history_key key =
     (if length key \<noteq> 73 then Inl (InvalidHistoryKeyLength (length key))
      else Inr \<lparr>sh_script_hash = from_be (bslice 0 32 key), sh_txid = from_be (bslice 37 32 key),
                sh_height = from_be (bslice 32 4 key), sh_sequence = from_be (bslice 69 4 key),
                sh_kind = key ! 36, sh_history_key = key\<rparr>)"

definition parse_journal_action :: "bytes \<Rightarrow> bytes \<Rightarrow> error + stored_journal_action" where
  "parse_journal_action key v =
     (if length key \<noteq> 8 then Inl (InvalidJournalKeyLength (length key))
      else case v of
        [] \<Rightarrow> Inl InvalidJournalValueLength
      | b # payload \<Rightarrow>
          bindR (if b = 0 then Inr JTx else if b = 1 then Inr JHistory
                 else if b = 2 then Inr JOutput else if b = 3 then Inr JSpend
                 else Inl (InvalidJournalKind b))
            (\<lambda>kind. Inr \<lparr>ja_journal_key = key, ja_height = from_be (bslice 0 4 key),
                         ja_sequence = from_be (bslice 4 4 key), ja_kind = kind,
                         ja_payload = payload\<rparr>))"

definition encode_txid_list :: "txid list \<Rightarrow> bytes" where
  "encode_txid_list txids = concat (map arr32 txids)"

fun chunks_exact :: "nat \<Rightarrow> bytes \<Rightarrow> bytes list" where
  "chunks_exact n bs =
     (if n = 0 \<or> length bs < n then [] else take n bs # chunks_exact n (drop n bs))"

declare chunks_exact.simps [simp del]

definition decode_txid_list :: "bytes \<Rightarrow> error + txid list" where
  "decode_txid_list raw =
     (if length raw mod 32 \<noteq> 0 then Inl (InvalidPendingListLength (length raw))
      else foldR (\<lambda>chunk acc. if length chunk = 32 then Inr (acc @ [from_be chunk])
                             else Inl InvalidPendingChunk) (chunks_exact 32 raw) [])"

section \<open>Operations\<close>

text \<open>A point write of one of the trees, with the store's error converted.\<close>

definition tree_insert ::
  "'t sled \<Rightarrow> ('t pindex \<Rightarrow> 't) \<Rightarrow> (('t \<Rightarrow> 't) \<Rightarrow> 't pindex \<Rightarrow> 't pindex) \<Rightarrow> bytes \<Rightarrow> bytes
     \<Rightarrow> 't pindex \<Rightarrow> (error + unit) \<times> 't pindex" where
  "tree_insert S g u k v ix =
     (case sled_insert S (g ix) k v of (r, t) \<Rightarrow> (map_err SledError r, u (\<lambda>_. t) ix))"

definition tree_remove ::
  "'t sled \<Rightarrow> ('t pindex \<Rightarrow> 't) \<Rightarrow> (('t \<Rightarrow> 't) \<Rightarrow> 't pindex \<Rightarrow> 't pindex) \<Rightarrow> bytes
     \<Rightarrow> 't pindex \<Rightarrow> (error + unit) \<times> 't pindex" where
  "tree_remove S g u k ix =
     (case sled_remove S (g ix) k of (r, t) \<Rightarrow> (map_err SledError r, u (\<lambda>_. t) ix))"

text \<open>
  Opening retries ten times; \<open>open_db i\<close> is the outcome of attempt \<open>i\<close> and \<open>open_tree\<close>
  opens a named tree.
\<close>

fun open_attempts ::
  "(nat \<Rightarrow> string + 'db) \<Rightarrow> ('db \<Rightarrow> string \<Rightarrow> string + 't) \<Rightarrow> string option \<Rightarrow> nat \<Rightarrow> nat
     \<Rightarrow> error + 't pindex" where
  "open_attempts open_db open_tree last_err attempt 0 =
     (case last_err of None \<Rightarrow> Inl ExpectPanic | Some e \<Rightarrow> Inl (OpenFailed e))"
| "open_attempts open_db open_tree last_err attempt (Suc n) =
     (case open_db attempt of
        Inr db \<Rightarrow>
          map_err SledError
            (bindR (open_tree db ''history'') (\<lambda>hi.
             bindR (open_tree db ''outputs'') (\<lambda>ou.
             bindR (open_tree db ''txs'') (\<lambda>tx.
             bindR (open_tree db ''utxos'') (\<lambda>ut.
             bindR (open_tree db ''journal'') (\<lambda>jo.
             bindR (open_tree db ''meta'') (\<lambda>me.
               Inr \<lparr>ix_history = hi, ix_outputs = ou, ix_txs = tx, ix_utxos = ut,
                    ix_journal = jo, ix_meta = me\<rparr>)))))))
      | Inl e \<Rightarrow> open_attempts open_db open_tree (Some e) (Suc attempt) n)"

definition open_index ::
  "(nat \<Rightarrow> string + 'db) \<Rightarrow> ('db \<Rightarrow> string \<Rightarrow> string + 't) \<Rightarrow> error + 't pindex" where
  "open_index open_db open_tree = open_attempts open_db open_tree None 0 10"

definition set_tip_height :: "'t sled \<Rightarrow> u32 \<Rightarrow> 't pindex \<Rightarrow> (error + unit) \<times> 't pindex" where
  "set_tip_height S height =
     tree_insert S ix_meta ix_meta_update TIP_HEIGHT_KEY (u32_be height)"

definition pindex_tip_height :: "'t sled \<Rightarrow> 't pindex \<Rightarrow> u32" where
  "pindex_tip_height S ix =
     (case sled_get S (ix_meta ix) TIP_HEIGHT_KEY of
        Inr (Some v) \<Rightarrow> (if length v = 4 then from_be v else 0)
      | _ \<Rightarrow> 0)"

definition store_tx ::
  "'t sled \<Rightarrow> bitcoin_lib \<Rightarrow> transaction \<Rightarrow> 't pindex \<Rightarrow> (error + unit) \<times> 't pindex" where
  "store_tx S B tx =
     tree_insert S ix_txs ix_txs_update (arr32 (compute_txid B tx)) (serialize_tx B tx)"

definition load_tx ::
  "'t sled \<Rightarrow> bitcoin_lib \<Rightarrow> txid \<Rightarrow> 't pindex \<Rightarrow> error + transaction option" where
  "load_tx S B t ix =
     bindR (map_err SledError (sled_get S (ix_txs ix) (arr32 t))) (\<lambda>r.
       case r of None \<Rightarrow> Inr None
       | Some raw \<Rightarrow> bindR (map_err DecodeTx (deserialize_tx B raw)) (\<lambda>tx. Inr (Some tx)))"

definition delete_tx :: "'t sled \<Rightarrow> txid \<Rightarrow> 't pindex \<Rightarrow> (error + unit) \<times> 't pindex" where
  "delete_tx S t = tree_remove S ix_txs ix_txs_update (arr32 t)"

definition load_pending_txids :: "'t sled \<Rightarrow> 't pindex \<Rightarrow> error + txid list" where
  "load_pending_txids S ix =
     bindR (map_err SledError (sled_get S (ix_meta ix) PENDING_TXIDS_KEY)) (\<lambda>r.
       case r of None \<Rightarrow> Inr [] | Some raw \<Rightarrow> decode_txid_list raw)"

definition store_pending_txid ::
  "'t sled \<Rightarrow> txid \<Rightarrow> 't pindex \<Rightarrow> (error + unit) \<times> 't pindex" where
  "store_pending_txid S t =
     bindE (readE (load_pending_txids S)) (\<lambda>txids.
       tree_insert S ix_meta ix_meta_update PENDING_TXIDS_KEY
         (encode_txid_list (if t \<in> set txids then txids else txids @ [t])))"

definition delete_pending_txid ::
  "'t sled \<Rightarrow> txid \<Rightarrow> 't pindex \<Rightarrow> (error + unit) \<times> 't pindex" where
  "delete_pending_txid S t =
     bindE (readE (load_pending_txids S)) (\<lambda>txids.
       tree_insert S ix_meta ix_meta_update PENDING_TXIDS_KEY
         (encode_txid_list (filter (\<lambda>e. e \<noteq> t) txids)))"

definition store_output ::
  "'t sled \<Rightarrow> outpoint \<Rightarrow> script_hash \<Rightarrow> u64 \<Rightarrow> u32 \<Rightarrow> 't pindex
     \<Rightarrow> (error + unit) \<times> 't pindex" where
  "store_output S p sh val height =
     bindE (tree_insert S ix_outputs ix_outputs_update (outpoint_key p)
              (encode_output \<lparr>so_script_hash = sh, so_txid = op_txid p, so_vout = op_vout p,
                              so_value = val, so_height = height\<rparr>)) (\<lambda>_.
       tree_insert S ix_utxos ix_utxos_update (utxo_key sh (op_txid p) (op_vout p)) (u64_be val))"

definition load_output ::
  "'t sled \<Rightarrow> outpoint \<Rightarrow> 't pindex \<Rightarrow> error + stored_output option" where
  "load_output S p ix =
     bindR (map_err SledError (sled_get S (ix_outputs ix) (outpoint_key p))) (\<lambda>r.
       case r of None \<Rightarrow> Inr None
       | Some raw \<Rightarrow> bindR (decode_output p raw) (\<lambda>out. Inr (Some out)))"

definition delete_output :: "'t sled \<Rightarrow> outpoint \<Rightarrow> 't pindex \<Rightarrow> (error + unit) \<times> 't pindex" where
  "delete_output S p = tree_remove S ix_outputs ix_outputs_update (outpoint_key p)"

definition delete_utxo ::
  "'t sled \<Rightarrow> script_hash \<Rightarrow> txid \<Rightarrow> u32 \<Rightarrow> 't pindex \<Rightarrow> (error + unit) \<times> 't pindex" where
  "delete_utxo S sh t v = tree_remove S ix_utxos ix_utxos_update (utxo_key sh t v)"

definition store_journal_action ::
  "'t sled \<Rightarrow> u32 \<Rightarrow> u32 \<Rightarrow> journal_action_kind \<Rightarrow> bytes \<Rightarrow> 't pindex
     \<Rightarrow> (error + bytes) \<times> 't pindex" where
  "store_journal_action S height sequence kind payload =
     bindE (tree_insert S ix_journal ix_journal_update (journal_key height sequence)
              (journal_kind_u8 kind # payload)) (\<lambda>_.
       returnE (journal_key height sequence))"

definition delete_journal_key :: "'t sled \<Rightarrow> bytes \<Rightarrow> 't pindex \<Rightarrow> (error + unit) \<times> 't pindex" where
  "delete_journal_key S key = tree_remove S ix_journal ix_journal_update key"

definition load_journal_actions ::
  "'t sled \<Rightarrow> 't pindex \<Rightarrow> error + stored_journal_action list" where
  "load_journal_actions S ix =
     foldR (\<lambda>item out. bindR (map_err SledError item) (\<lambda>(k, v).
              bindR (parse_journal_action k v) (\<lambda>a. Inr (out @ [a]))))
       (sled_iter S (ix_journal ix)) []"

definition balance_for_script :: "'t sled \<Rightarrow> script_hash \<Rightarrow> 't pindex \<Rightarrow> error + u64" where
  "balance_for_script S sh ix =
     foldR (\<lambda>item total. bindR (map_err SledError item) (\<lambda>(_, v).
              if length v = 8 then Inr (saturating_add total (from_be v))
              else Inl InvalidUtxoValue))
       (sled_scan_prefix S (ix_utxos ix) (arr32 sh)) 0"

definition list_unspent_for_script ::
  "'t sled \<Rightarrow> script_hash \<Rightarrow> 't pindex \<Rightarrow> error + stored_unspent list" where
  "list_unspent_for_script S sh ix =
     foldR (\<lambda>item out. bindR (map_err SledError item) (\<lambda>(key, v).
              if length key < 68 then Inl SlicePanic
              else if length v \<noteq> 8 then Inl InvalidUtxoValue
              else
                (let p = \<lparr>op_txid = from_be (bslice 32 32 key),
                          op_vout = from_be (bslice 64 4 key)\<rparr>
                 in bindR (load_output S p ix) (\<lambda>r.
                    bindR (ok_or (MissingOutput p) r) (\<lambda>stored.
                      Inr (out @ [\<lparr>su_txid = op_txid p, su_vout = op_vout p,
                                   su_value = from_be v, su_height = so_height stored\<rparr>]))))))
       (sled_scan_prefix S (ix_utxos ix) (arr32 sh)) []"

definition store_history_entry ::
  "'t sled \<Rightarrow> script_hash \<Rightarrow> u32 \<Rightarrow> txid \<Rightarrow> u32 \<Rightarrow> history_kind \<Rightarrow> 't pindex
     \<Rightarrow> (error + bytes) \<times> 't pindex" where
  "store_history_entry S sh height t sequence kind =
     bindE (tree_insert S ix_history ix_history_update
              (history_key sh height kind t sequence) []) (\<lambda>_.
       returnE (history_key sh height kind t sequence))"

definition delete_history_key :: "'t sled \<Rightarrow> bytes \<Rightarrow> 't pindex \<Rightarrow> (error + unit) \<times> 't pindex" where
  "delete_history_key S key = tree_remove S ix_history ix_history_update key"

definition load_history_entries ::
  "'t sled \<Rightarrow> 't pindex \<Rightarrow> error + stored_history_entry list" where
  "load_history_entries S ix =
     foldR (\<lambda>item out. bindR (map_err SledError item) (\<lambda>(k, _).
              bindR (parse_history_key k) (\<lambda>e. Inr (out @ [e]))))
       (sled_iter S (ix_history ix)) []"

definition confirmed_first :: "u32 \<Rightarrow> u32" where
  "confirmed_first h = (if h = 0 then - 1 else h)"

definition load_history_for_script ::
  "'t sled \<Rightarrow> script_hash \<Rightarrow> 't pindex \<Rightarrow> error + tx_entry list" where
  "load_history_for_script S sh ix =
     bindR
       (foldR (\<lambda>item out. bindR (map_err SledError item) (\<lambda>(k, _).
                bindR (parse_history_key k) (\<lambda>e.
                  Inr (out @ [\<lparr>te_txid = sh_txid e, te_height = sh_height e,
                               te_sequence = sh_sequence e\<rparr>]))))
          (sled_scan_prefix S (ix_history ix) (arr32 sh)) [])
       (\<lambda>out. Inr (sort_key (\<lambda>e. (confirmed_first (te_height e), te_sequence e)) out))"

definition pindex_has_history :: "'t sled \<Rightarrow> script_hash \<Rightarrow> 't pindex \<Rightarrow> bool" where
  "pindex_has_history S sh ix = (sled_scan_prefix S (ix_history ix) (arr32 sh) \<noteq> [])"

section \<open>Encodings\<close>

named_theorems store_ok \<open>effects of the store operations while no I/O error occurs\<close>

lemma length_keys [simp]:
  "length (outpoint_key p) = 36" "length (utxo_key sh t v) = 68" "length (journal_key h s) = 8"
  "length (history_key sh h k t s) = 73" "length (encode_output out) = 44"
  by (simp_all add: outpoint_key_def utxo_key_def journal_key_def history_key_def encode_output_def)

lemma outpoint_key_inject [simp]: "outpoint_key p = outpoint_key q \<longleftrightarrow> p = q"
  by (cases p; cases q) (simp add: outpoint_key_def)

lemma utxo_key_inject [simp]:
  "utxo_key sh t v = utxo_key sh' t' v' \<longleftrightarrow> sh = sh' \<and> t = t' \<and> v = v'"
  by (simp add: utxo_key_def)

lemma journal_key_inject [simp]:
  "journal_key h s = journal_key h' s' \<longleftrightarrow> h = h' \<and> s = s'"
  by (simp add: journal_key_def)

lemma history_kind_u8_inject [simp]: "history_kind_u8 k = history_kind_u8 k' \<longleftrightarrow> k = k'"
  by (cases k; cases k') simp_all

lemma history_key_inject [simp]:
  "history_key sh h k t s = history_key sh' h' k' t' s'
     \<longleftrightarrow> sh = sh' \<and> h = h' \<and> k = k' \<and> t = t' \<and> s = s'"
  by (auto simp: history_key_def)

lemma meta_keys_differ [simp]:
  "PENDING_TXIDS_KEY \<noteq> TIP_HEIGHT_KEY" "TIP_HEIGHT_KEY \<noteq> PENDING_TXIDS_KEY"
proof -
  have "length PENDING_TXIDS_KEY \<noteq> length TIP_HEIGHT_KEY"
    by (simp add: PENDING_TXIDS_KEY_def TIP_HEIGHT_KEY_def ascii_def)
  then show "PENDING_TXIDS_KEY \<noteq> TIP_HEIGHT_KEY" "TIP_HEIGHT_KEY \<noteq> PENDING_TXIDS_KEY"
    by metis+
qed

text \<open>A key lies in the range of a script exactly when it was made for that script.\<close>

lemma utxo_key_prefix [simp]: "starts_with (arr32 sh) (utxo_key sh' t v) \<longleftrightarrow> sh' = sh"
  by (auto simp: utxo_key_def starts_with_append)

lemma history_key_prefix [simp]: "starts_with (arr32 sh) (history_key sh' h k t s) \<longleftrightarrow> sh' = sh"
  by (auto simp: history_key_def starts_with_append)

lemma decode_encode_output:
  "decode_output p (encode_output out) = Inr (out\<lparr>so_txid := op_txid p, so_vout := op_vout p\<rparr>)"
  by (simp add: decode_output_def encode_output_def from_be_be_bytes codec_simps)

lemma decode_output_exact:
  assumes "decode_output p raw = Inr out"
  shows "encode_output out = raw"
proof -
  have len: "length raw = 44" using assms by (auto simp: decode_output_def split: if_splits)
  then have "encode_output out = bslice 0 32 raw @ bslice 32 8 raw @ bslice 40 4 raw"
    using assms by (auto simp: decode_output_def encode_output_def be_bytes_bslice)
  also have "\<dots> = raw"
    using len bslice_append [of 32 8 raw 4] bslice_append [of 0 32 raw 12]
    by (simp add: bslice_all)
  finally show ?thesis .
qed

interpretation output_codec: exact_codec
  "\<lambda>(sh, v, h). encode_output \<lparr>so_script_hash = sh, so_txid = op_txid p, so_vout = op_vout p,
                               so_value = v, so_height = h\<rparr>"
  "\<lambda>raw. map_sum id (\<lambda>out. (so_script_hash out, so_value out, so_height out)) (decode_output p raw)"
  for p
proof (unfold_locales, goal_cases)
  case (1 x)
  then show ?case by (cases x) (simp add: decode_encode_output)
next
  case (2 raw x)
  then obtain out where out: "decode_output p raw = Inr out"
    and x: "x = (so_script_hash out, so_value out, so_height out)"
    by (cases "decode_output p raw") auto
  have "encode_output out = raw" using out by (rule decode_output_exact)
  then show ?case using x by (simp add: encode_output_def)
qed

lemma length_encode_txid_list [simp]: "length (encode_txid_list ts) = 32 * length ts"
  by (induction ts) (auto simp: encode_txid_list_def)

lemma chunks_encode [simp]: "chunks_exact 32 (encode_txid_list ts) = map arr32 ts"
  by (induction ts)
    (auto simp: encode_txid_list_def chunks_exact.simps [of 32 "[]"]
      chunks_exact.simps [of 32 "be_bytes 32 t @ bs" for t bs])

lemma decode_encode_txid_list: "decode_txid_list (encode_txid_list ts) = Inr ts"
proof -
  have "foldR (\<lambda>t acc. Inr (acc @ [t])) ts acc = (Inr (acc @ ts) :: error + txid list)" for acc
    by (induction ts arbitrary: acc) auto
  then show ?thesis
    by (simp add: decode_txid_list_def foldR_map from_be_be_bytes)
qed

lemma chunks_exact_concat:
  "0 < n \<Longrightarrow> length bs mod n = 0 \<Longrightarrow>
     concat (chunks_exact n bs) = bs \<and> (\<forall>c \<in> set (chunks_exact n bs). length c = n)"
proof (induction n bs rule: chunks_exact.induct)
  case (1 n bs)
  show ?case
  proof (cases "length bs < n")
    case True
    with "1.prems" have "bs = []" by simp
    then show ?thesis using "1.prems" by (simp add: chunks_exact.simps [of n "[]"])
  next
    case False
    have guard: "\<not> (n = 0 \<or> length bs < n)" using False "1.prems"(1) by simp
    then have step: "chunks_exact n bs = take n bs # chunks_exact n (drop n bs)"
      by (subst chunks_exact.simps) (simp only: if_False)
    have "length (drop n bs) mod n = 0"
      using "1.prems"(2) False le_mod_geq [of n "length bs"] by (simp only: length_drop not_less)
    note IH = "1.IH" [OF guard "1.prems"(1) this]
    show ?thesis
    proof
      show "concat (chunks_exact n bs) = bs"
        by (simp only: step concat.simps IH [THEN conjunct1] append_take_drop_id)
      have "length (take n bs) = n" using False by simp
      then show "\<forall>c \<in> set (chunks_exact n bs). length c = n"
        using IH [THEN conjunct2] unfolding step by (metis set_ConsD)
    qed
  qed
qed

lemma decode_txid_list_total:
  assumes "length raw mod 32 = 0"
  shows "decode_txid_list raw = Inr (map from_be (chunks_exact 32 raw))"
proof -
  have "foldR (\<lambda>chunk acc. if length chunk = 32 then Inr (acc @ [from_be chunk])
                else Inl InvalidPendingChunk) cs acc = Inr (acc @ map from_be cs)"
    if "\<forall>c \<in> set cs. length c = 32" for cs :: "bytes list" and acc :: "txid list"
    using that by (induction cs arbitrary: acc) auto
  then show ?thesis
    using chunks_exact_concat [of 32 raw] assms by (simp add: decode_txid_list_def)
qed

interpretation txid_list_codec: exact_codec encode_txid_list decode_txid_list
proof (unfold_locales, goal_cases)
  case (1 ts)
  show ?case by (rule decode_encode_txid_list)
next
  case (2 raw ts)
  then have len: "length raw mod 32 = 0"
    by (auto simp: decode_txid_list_def split: if_splits)
  with 2 have ts: "ts = map from_be (chunks_exact 32 raw)"
    by (simp add: decode_txid_list_total)
  have cs: "concat (chunks_exact 32 raw) = raw" "\<forall>c \<in> set (chunks_exact 32 raw). length c = 32"
    using chunks_exact_concat [of 32 raw] len by auto
  have "be_bytes 32 (from_be c :: txid) = c" if "c \<in> set (chunks_exact 32 raw)" for c
    using be_bytes_from_be [of c, where 'a = 256] cs(2) that by simp
  then have "map (\<lambda>c. arr32 (from_be c)) (chunks_exact 32 raw) = chunks_exact 32 raw"
    by (simp add: map_idI)
  then show ?case using cs(1) by (simp add: ts encode_txid_list_def comp_def)
qed

lemma parse_history_key_make:
  "parse_history_key (history_key sh h k t s)
     = Inr \<lparr>sh_script_hash = sh, sh_txid = t, sh_height = h, sh_sequence = s,
            sh_kind = history_kind_u8 k, sh_history_key = history_key sh h k t s\<rparr>"
  by (simp add: parse_history_key_def history_key_def from_be_be_bytes codec_simps nth_append)

lemma parse_journal_action_make:
  "parse_journal_action (journal_key h s) (journal_kind_u8 k # payload)
     = Inr \<lparr>ja_journal_key = journal_key h s, ja_height = h, ja_sequence = s, ja_kind = k,
            ja_payload = payload\<rparr>"
  by (cases k) (simp_all add: parse_journal_action_def journal_key_def from_be_be_bytes codec_simps)

section \<open>Effects\<close>

lemma tree_insert_ok [store_ok]:
  "sled_ok S \<Longrightarrow> tree_insert S g u k v ix = (Inr (), u (\<lambda>_. ins S k v (g ix)) ix)"
  by (simp add: tree_insert_def sled_insert_ok)

lemma tree_remove_ok [store_ok]:
  "sled_ok S \<Longrightarrow> tree_remove S g u k ix = (Inr (), u (\<lambda>_. del S k (g ix)) ix)"
  by (simp add: tree_remove_def sled_remove_ok)

lemma set_tip_height_ok [store_ok]:
  "sled_ok S \<Longrightarrow> set_tip_height S h ix
     = (Inr (), ix\<lparr>ix_meta := ins S TIP_HEIGHT_KEY (u32_be h) (ix_meta ix)\<rparr>)"
  by (simp add: set_tip_height_def store_ok)

lemma store_tx_ok [store_ok]:
  "sled_ok S \<Longrightarrow> store_tx S B tx ix
     = (Inr (), ix\<lparr>ix_txs := ins S (arr32 (compute_txid B tx)) (serialize_tx B tx) (ix_txs ix)\<rparr>)"
  by (simp add: store_tx_def store_ok)

lemma delete_tx_ok [store_ok]:
  "sled_ok S \<Longrightarrow> delete_tx S t ix = (Inr (), ix\<lparr>ix_txs := del S (arr32 t) (ix_txs ix)\<rparr>)"
  by (simp add: delete_tx_def store_ok)

lemma store_output_ok [store_ok]:
  "sled_ok S \<Longrightarrow> store_output S p sh v h ix
     = (Inr (), ix\<lparr>
          ix_outputs := ins S (outpoint_key p)
             (encode_output \<lparr>so_script_hash = sh, so_txid = op_txid p, so_vout = op_vout p,
                             so_value = v, so_height = h\<rparr>) (ix_outputs ix),
          ix_utxos := ins S (utxo_key sh (op_txid p) (op_vout p)) (u64_be v) (ix_utxos ix)\<rparr>)"
  by (simp add: store_output_def store_ok bindE_def)

lemma delete_output_ok [store_ok]:
  "sled_ok S \<Longrightarrow> delete_output S p ix
     = (Inr (), ix\<lparr>ix_outputs := del S (outpoint_key p) (ix_outputs ix)\<rparr>)"
  by (simp add: delete_output_def store_ok)

lemma delete_utxo_ok [store_ok]:
  "sled_ok S \<Longrightarrow> delete_utxo S sh t v ix
     = (Inr (), ix\<lparr>ix_utxos := del S (utxo_key sh t v) (ix_utxos ix)\<rparr>)"
  by (simp add: delete_utxo_def store_ok)

lemma store_journal_action_ok [store_ok]:
  "sled_ok S \<Longrightarrow> store_journal_action S h s k payload ix
     = (Inr (journal_key h s),
        ix\<lparr>ix_journal := ins S (journal_key h s) (journal_kind_u8 k # payload) (ix_journal ix)\<rparr>)"
  by (simp add: store_journal_action_def store_ok bindE_def returnE_def)

lemma delete_journal_key_ok [store_ok]:
  "sled_ok S \<Longrightarrow> delete_journal_key S key ix
     = (Inr (), ix\<lparr>ix_journal := del S key (ix_journal ix)\<rparr>)"
  by (simp add: delete_journal_key_def store_ok)

lemma store_history_entry_ok [store_ok]:
  "sled_ok S \<Longrightarrow> store_history_entry S sh h t s k ix
     = (Inr (history_key sh h k t s),
        ix\<lparr>ix_history := ins S (history_key sh h k t s) [] (ix_history ix)\<rparr>)"
  by (simp add: store_history_entry_def store_ok bindE_def returnE_def)

lemma delete_history_key_ok [store_ok]:
  "sled_ok S \<Longrightarrow> delete_history_key S key ix
     = (Inr (), ix\<lparr>ix_history := del S key (ix_history ix)\<rparr>)"
  by (simp add: delete_history_key_def store_ok)

end
