(* ===== verification/IndexState.thy ===== *)
theory IndexState
  imports Store
begin

text \<open>
  \<open>src/indexer.rs\<close>, \<open>IndexState\<close>: the caches in front of the persistent index and the view of
  pending transactions. A method that mutates returns the changed state beside its
  result; \<open>on_store\<close> lifts a method of the persistent index.
\<close>

section \<open>State\<close>

record mempool_entry =
  me_txid :: txid
  me_height :: i32
  me_fee :: u64

datatype block_action =
    ATx txid bytes
  | AHistory bytes bytes
  | AOutput outpoint bytes
  | ASpend outpoint bytes

record 't index_state =
  history :: "(script_hash \<times> tx_entry list) list"
  by_height :: "(u32 \<times> block_action list) list"
  pending_txs :: "(txid \<times> transaction) list"
  pending_outputs :: "(outpoint \<times> stored_output) list"
  tip_height :: u32
  store :: "'t pindex"

definition on_store ::
  "('t pindex \<Rightarrow> (error + 'a) \<times> 't pindex) \<Rightarrow> 't index_state \<Rightarrow> (error + 'a) \<times> 't index_state" where
  "on_store m = zoomE store (\<lambda>ix st. st\<lparr>store := ix\<rparr>) m"

lemma on_store_ok [monad_simps]:
  "m (store st) = (r, ix) \<Longrightarrow> on_store m st = (r, st\<lparr>store := ix\<rparr>)"
  by (simp add: on_store_def zoomE_def)

section \<open>Script hashes\<close>

definition from_script :: "bitcoin_lib \<Rightarrow> bytes \<Rightarrow> script_hash" where
  "from_script B script = from_be (rev (arr32 (sha256 B script)))"

definition to_hex :: "script_hash \<Rightarrow> string" where
  "to_hex sh = hex_of_bytes (arr32 sh)"

definition output_script :: "bitcoin_lib \<Rightarrow> txout \<Rightarrow> script_hash" where
  "output_script B out = from_script B (script_pubkey out)"

section \<open>Journal payloads\<close>

definition action_journal_key :: "block_action \<Rightarrow> bytes" where
  "action_journal_key a =
     (case a of ATx _ k \<Rightarrow> k | AHistory _ k \<Rightarrow> k | AOutput _ k \<Rightarrow> k | ASpend _ k \<Rightarrow> k)"

definition action_sequence :: "block_action \<Rightarrow> u32" where
  "action_sequence a = from_be (bslice 4 4 (action_journal_key a))"

definition parse_txid :: "bytes \<Rightarrow> error + txid" where
  "parse_txid payload =
     (if length payload = 32 then Inr (from_be payload)
      else Inl (InvalidTxidPayload (length payload)))"

definition parse_outpoint :: "bytes \<Rightarrow> error + outpoint" where
  "parse_outpoint payload =
     (if length payload \<noteq> 36 then Inl (InvalidOutpointPayload (length payload))
      else Inr \<lparr>op_txid = from_be (bslice 0 32 payload), op_vout = from_be (bslice 32 4 payload)\<rparr>)"

definition outpoint_bytes :: "outpoint \<Rightarrow> bytes" where
  "outpoint_bytes p = arr32 (op_txid p) @ u32_be (op_vout p)"

lemma outpoint_bytes_roundtrip [simp]: "parse_outpoint (outpoint_bytes p) = Inr p"
  by (simp add: parse_outpoint_def outpoint_bytes_def from_be_be_bytes codec_simps)

interpretation outpoint_codec: codec outpoint_bytes parse_outpoint
  by unfold_locales (rule outpoint_bytes_roundtrip)

section \<open>Lookups\<close>

text \<open>\<open>tx.output.get(vout as usize)\<close>.\<close>

definition output_at :: "transaction \<Rightarrow> u32 \<Rightarrow> txout option" where
  "output_at tx v = (if unat v < length (tx_output tx) then Some (tx_output tx ! unat v) else None)"

definition pending_output_for_outpoint ::
  "bitcoin_lib \<Rightarrow> outpoint \<Rightarrow> 't index_state \<Rightarrow> stored_output option" where
  "pending_output_for_outpoint B p st =
     (case map_of (pending_outputs st) p of
        Some out \<Rightarrow> Some out
      | None \<Rightarrow>
          (case map_of (pending_txs st) (op_txid p) of
             None \<Rightarrow> None
           | Some tx \<Rightarrow>
               map_option (\<lambda>out. \<lparr>so_script_hash = output_script B out, so_txid = op_txid p,
                                 so_vout = op_vout p, so_value = tx_value out, so_height = 0\<rparr>)
                 (output_at tx (op_vout p))))"

definition script_hash_for_outpoint ::
  "'t sled \<Rightarrow> bitcoin_lib \<Rightarrow> outpoint \<Rightarrow> 't index_state \<Rightarrow> error + script_hash option" where
  "script_hash_for_outpoint S B p st =
     (case pending_output_for_outpoint B p st of
        Some out \<Rightarrow> Inr (Some (so_script_hash out))
      | None \<Rightarrow> bindR (load_output S p (store st)) (\<lambda>r. Inr (map_option so_script_hash r)))"

text \<open>\<open>.ok().flatten()\<close>.\<close>

definition ok_flatten :: "'e + 'a option \<Rightarrow> 'a option" where
  "ok_flatten r = (case r of Inl _ \<Rightarrow> None | Inr o' \<Rightarrow> o')"

section \<open>The pending view\<close>

definition pending_spent_outpoints :: "bitcoin_lib \<Rightarrow> 't index_state \<Rightarrow> outpoint list" where
  "pending_spent_outpoints B st =
     fold (\<lambda>tx. fold (\<lambda>i s. if is_null B (previous_output i) then s
                         else List.insert (previous_output i) s) (tx_input tx))
       (map snd (pending_txs st)) []"

definition add_pending_outputs ::
  "bitcoin_lib \<Rightarrow> outpoint list \<Rightarrow> transaction \<Rightarrow> (outpoint \<times> stored_output) list
     \<Rightarrow> (outpoint \<times> stored_output) list" where
  "add_pending_outputs B spent tx outs =
     fold (\<lambda>(vout, out) m.
        let p = \<lparr>op_txid = compute_txid B tx, op_vout = of_nat vout\<rparr>
        in if p \<in> set spent then m
           else hm_insert p \<lparr>so_script_hash = output_script B out, so_txid = compute_txid B tx,
                            so_vout = of_nat vout, so_value = tx_value out, so_height = 0\<rparr> m)
       (enumerate 0 (tx_output tx)) outs"

definition rebuild_pending_view :: "bitcoin_lib \<Rightarrow> 't index_state \<Rightarrow> 't index_state" where
  "rebuild_pending_view B st =
     st\<lparr>pending_outputs :=
          fold (add_pending_outputs B (pending_spent_outpoints B st)) (map snd (pending_txs st)) []\<rparr>"

section \<open>Walks over the pending transactions\<close>

text \<open>Whether \<open>tx\<close> spends an output of the transaction \<open>t\<close>.\<close>

definition tx_spends :: "bitcoin_lib \<Rightarrow> transaction \<Rightarrow> txid \<Rightarrow> bool" where
  "tx_spends B tx t =
     list_ex (\<lambda>i. \<not> is_null B (previous_output i) \<and> op_txid (previous_output i) = t) (tx_input tx)"

definition touch_inputs ::
  "'t sled \<Rightarrow> bitcoin_lib \<Rightarrow> 't index_state \<Rightarrow> transaction \<Rightarrow> script_hash list \<Rightarrow> script_hash list" where
  "touch_inputs S B st tx =
     fold (\<lambda>i touched.
        if is_null B (previous_output i) then touched
        else case ok_flatten (script_hash_for_outpoint S B (previous_output i) st) of
               None \<Rightarrow> touched
             | Some sh \<Rightarrow> List.insert sh touched) (tx_input tx)"

definition touch_outputs ::
  "bitcoin_lib \<Rightarrow> transaction \<Rightarrow> script_hash list \<Rightarrow> script_hash list" where
  "touch_outputs B tx = fold (\<lambda>out. List.insert (output_script B out)) (tx_output tx)"

definition unseen_children ::
  "bitcoin_lib \<Rightarrow> (txid \<times> transaction) list \<Rightarrow> txid list \<Rightarrow> txid \<Rightarrow> txid list" where
  "unseen_children B pend seen t =
     map (compute_txid B)
       (filter (\<lambda>c. compute_txid B c \<notin> set seen \<and> tx_spends B c t) (map snd pend))"

function affected_loop ::
  "'t sled \<Rightarrow> bitcoin_lib \<Rightarrow> 't index_state \<Rightarrow> transaction \<Rightarrow> txid list \<Rightarrow> txid list
     \<Rightarrow> script_hash list \<Rightarrow> script_hash list" where
  "affected_loop S B st tx [] seen touched = touched"
| "affected_loop S B st tx (t # queue) seen touched =
     (if t \<in> set seen then affected_loop S B st tx queue seen touched
      else
        (case (if t = compute_txid B tx then Some tx else map_of (pending_txs st) t) of
           None \<Rightarrow> affected_loop S B st tx queue (t # seen) touched
         | Some current \<Rightarrow>
             affected_loop S B st tx
               (queue @ unseen_children B (pending_txs st) (t # seen) t) (t # seen)
               (touch_outputs B current (touch_inputs S B st current touched))))"
  by pat_completeness auto

definition pending_affected_scripts_for_tx ::
  "'t sled \<Rightarrow> bitcoin_lib \<Rightarrow> transaction \<Rightarrow> 't index_state \<Rightarrow> script_hash list" where
  "pending_affected_scripts_for_tx S B tx st =
     affected_loop S B st tx [compute_txid B tx] [] []"

definition pending_descendants ::
  "bitcoin_lib \<Rightarrow> (txid \<times> transaction) list \<Rightarrow> txid list \<Rightarrow> txid \<Rightarrow> txid list" where
  "pending_descendants B pend removed t =
     map fst (filter (\<lambda>(c, tx). tx_spends B tx t) (filter (\<lambda>(c, _). c \<notin> set removed) pend))"

function removal_loop ::
  "'t sled \<Rightarrow> bitcoin_lib \<Rightarrow> 't index_state \<Rightarrow> txid list \<Rightarrow> txid list \<Rightarrow> script_hash list
     \<Rightarrow> txid list \<times> script_hash list" where
  "removal_loop S B st [] removed affected = (removed, affected)"
| "removal_loop S B st (t # queue) removed affected =
     (if t \<in> set removed then removal_loop S B st queue removed affected
      else removal_loop S B st
             (queue @ pending_descendants B (pending_txs st) (t # removed) t) (t # removed)
             (case map_of (pending_txs st) t of
                None \<Rightarrow> affected
              | Some tx \<Rightarrow> List.union affected (pending_affected_scripts_for_tx S B tx st)))"
  by pat_completeness auto

definition drop_pending :: "'t sled \<Rightarrow> txid \<Rightarrow> 't index_state \<Rightarrow> (error + unit) \<times> 't index_state" where
  "drop_pending S t =
     bindE (modifyE (\<lambda>st. st\<lparr>pending_txs := hm_remove t (pending_txs st)\<rparr>)) (\<lambda>_.
       ignoreE (on_store (delete_pending_txid S t)))"

definition forget_pending_transaction_chain_internal ::
  "'t sled \<Rightarrow> bitcoin_lib \<Rightarrow> txid \<Rightarrow> 't index_state \<Rightarrow> (error + script_hash list) \<times> 't index_state" where
  "forget_pending_transaction_chain_internal S B t st =
     (case removal_loop S B st [t] [] [] of
        (removed, affected) \<Rightarrow>
          bindE (foldE (\<lambda>c _. drop_pending S c) removed ()) (\<lambda>_.
          bindE (modifyE (rebuild_pending_view B)) (\<lambda>_.
            returnE affected)) st)"

definition forget_pending_transaction_internal ::
  "'t sled \<Rightarrow> bitcoin_lib \<Rightarrow> txid \<Rightarrow> 't index_state \<Rightarrow> (error + unit) \<times> 't index_state" where
  "forget_pending_transaction_internal S B t =
     bindE (drop_pending S t) (\<lambda>_. modifyE (rebuild_pending_view B))"

definition pending_conflicting_txids ::
  "bitcoin_lib \<Rightarrow> transaction \<Rightarrow> 't index_state \<Rightarrow> txid list" where
  "pending_conflicting_txids B tx st =
     (let new_prevouts = filter (\<lambda>p. \<not> is_null B p) (map previous_output (tx_input tx));
          new_prevout_txids = map op_txid new_prevouts
      in map fst
           (filter (\<lambda>(_, c). list_ex (\<lambda>i. previous_output i \<in> set new_prevouts) (tx_input c))
             (filter (\<lambda>(t, _). t \<notin> set new_prevout_txids) (pending_txs st))))"

definition track_pending_transaction_internal ::
  "'t sled \<Rightarrow> bitcoin_lib \<Rightarrow> transaction \<Rightarrow> 't index_state \<Rightarrow> (error + script_hash list) \<times> 't index_state" where
  "track_pending_transaction_internal S B tx st =
     bindE (foldE (\<lambda>conflict affected.
              bindE (forget_pending_transaction_chain_internal S B conflict) (\<lambda>shs.
                returnE (List.union affected shs)))
            (pending_conflicting_txids B tx st) []) (\<lambda>affected.
     bindE (on_store (store_tx S B tx)) (\<lambda>_.
     bindE (on_store (store_pending_txid S (compute_txid B tx))) (\<lambda>_.
     bindE (modifyE (\<lambda>s. rebuild_pending_view B
              (s\<lparr>pending_txs := hm_insert (compute_txid B tx) tx (pending_txs s)\<rparr>))) (\<lambda>_.
     bindE (readE (\<lambda>s. Inr (pending_affected_scripts_for_tx S B tx s))) (\<lambda>shs.
       returnE (List.union affected shs)))))) st"

definition restore_pending_transaction ::
  "'t sled \<Rightarrow> bitcoin_lib \<Rightarrow> txid \<Rightarrow> 't index_state
     \<Rightarrow> (error + script_hash list option) \<times> 't index_state" where
  "restore_pending_transaction S B t =
     bindE (readE (\<lambda>st. load_tx S B t (store st))) (\<lambda>r.
       case r of
         None \<Rightarrow> returnE None
       | Some tx \<Rightarrow> bindE (track_pending_transaction_internal S B tx) (\<lambda>shs. returnE (Some shs)))"

section \<open>Termination of the two walks\<close>

text \<open>
  Each iteration either visits a txid for the first time, out of the finitely many that
  are queued or pending, or shortens the queue.
\<close>

definition walk_order :: "((txid set \<times> nat) \<times> (txid set \<times> nat)) set" where
  "walk_order = finite_psubset <*lex*> less_than"

lemma wf_walk_order: "wf walk_order"
  by (simp add: walk_order_def wf_lex_prod)

lemma walk_order_visit:
  "finite A \<Longrightarrow> B \<subseteq> A \<Longrightarrow> t \<in> A \<Longrightarrow> t \<notin> B \<Longrightarrow> ((B, m), (A, n)) \<in> walk_order"
  by (auto simp: walk_order_def finite_psubset_def)

lemma walk_order_skip: "finite A \<Longrightarrow> B \<subseteq> A \<Longrightarrow> m < n \<Longrightarrow> ((B, m), (A, n)) \<in> walk_order"
  by (auto simp: walk_order_def finite_psubset_def)

termination affected_loop
proof (relation "inv_image walk_order
    (\<lambda>(S, B, st, tx, queue, seen, touched).
       ((set queue \<union> compute_txid B ` snd ` set (pending_txs st)) - set seen, length queue))",
    goal_cases)
  case 1
  then show ?case by (rule wf_inv_image [OF wf_walk_order])
next
  case (2 S B st tx t queue seen touched)
  then show ?case by (auto intro: walk_order_skip)
next
  case (3 S B st tx t queue seen touched)
  then show ?case by (auto intro: walk_order_visit [of _ _ t])
next
  case (4 S B st tx t queue seen touched current)
  then show ?case by (auto simp: unseen_children_def intro!: walk_order_visit [of _ _ t])
qed

termination removal_loop
proof (relation "inv_image walk_order
    (\<lambda>(S, B, st, queue, removed, affected).
       ((set queue \<union> fst ` set (pending_txs st)) - set removed, length queue))",
    goal_cases)
  case 1
  then show ?case by (rule wf_inv_image [OF wf_walk_order])
next
  case (2 S B st t queue removed affected)
  then show ?case by (auto intro: walk_order_skip)
next
  case (3 S B st t queue removed affected)
  then show ?case by (auto simp: pending_descendants_def intro!: walk_order_visit [of _ _ t])
qed

declare affected_loop.simps [simp del] removal_loop.simps [simp del]

end
