(* ===== verification/Blocks.thy ===== *)
theory Blocks
  imports IndexState
begin

text \<open>
  \<open>src/indexer.rs\<close>, \<open>apply_block\<close> and \<open>rollback_height\<close>: indexing a connected block and
  undoing a disconnected one through the per-block journal. The loop bodies of the code
  are separate definitions; the local \<open>sequence\<close> counter is threaded through the loops.
\<close>

section \<open>Connecting a block\<close>

definition push_history :: "script_hash \<Rightarrow> tx_entry \<Rightarrow> 't index_state \<Rightarrow> 't index_state" where
  "push_history sh e st = st\<lparr>history := hm_push sh e (history st)\<rparr>"

definition push_action :: "u32 \<Rightarrow> block_action \<Rightarrow> 't index_state \<Rightarrow> 't index_state" where
  "push_action height a st = st\<lparr>by_height := hm_push height a (by_height st)\<rparr>"

definition apply_input ::
  "'t sled \<Rightarrow> bitcoin_lib \<Rightarrow> u32 \<Rightarrow> txid \<Rightarrow> nat \<times> txin \<Rightarrow> u32 \<Rightarrow> 't index_state
     \<Rightarrow> (error + u32) \<times> 't index_state" where
  "apply_input S B height t x sequence =
     (case x of (input_index, input) \<Rightarrow>
        let prevout = previous_output input in
        if is_null B prevout then returnE sequence
        else bindE (readE (\<lambda>st. load_output S prevout (store st))) (\<lambda>r.
          case r of
            None \<Rightarrow> returnE sequence
          | Some stored_output \<Rightarrow>
              let sh = so_script_hash stored_output;
                  entry = \<lparr>te_txid = t, te_height = height, te_sequence = of_nat input_index\<rparr>
              in
              bindE (modifyE (push_history sh entry)) (\<lambda>_.
              bindE (on_store (store_history_entry S sh height t (of_nat input_index) Spend))
                (\<lambda>history_key.
              bindE (on_store (store_journal_action S height sequence JHistory history_key))
                (\<lambda>journal_key.
              bindE (on_store (store_journal_action S height (sequence + 1) JSpend
                       (outpoint_bytes prevout))) (\<lambda>spend_key.
              bindE (on_store (delete_utxo S sh (so_txid stored_output) (so_vout stored_output)))
                (\<lambda>_.
              bindE (modifyE (push_action height (AHistory history_key journal_key))) (\<lambda>_.
              bindE (modifyE (push_action height (ASpend prevout spend_key))) (\<lambda>_.
                returnE (sequence + 1 + 1)))))))))) "

definition apply_output ::
  "'t sled \<Rightarrow> bitcoin_lib \<Rightarrow> u32 \<Rightarrow> txid \<Rightarrow> nat \<times> txout \<Rightarrow> u32 \<Rightarrow> 't index_state
     \<Rightarrow> (error + u32) \<times> 't index_state" where
  "apply_output S B height t x sequence =
     (case x of (output_index, out) \<Rightarrow>
        let sh = output_script B out;
            entry = \<lparr>te_txid = t, te_height = height, te_sequence = of_nat output_index\<rparr>;
            outpoint = \<lparr>op_txid = t, op_vout = of_nat output_index\<rparr>
        in
        bindE (modifyE (push_history sh entry)) (\<lambda>_.
        bindE (on_store (store_history_entry S sh height t (of_nat output_index) Fund))
          (\<lambda>history_key.
        bindE (on_store (store_journal_action S height sequence JHistory history_key))
          (\<lambda>journal_key.
        bindE (on_store (store_output S outpoint sh (tx_value out) height)) (\<lambda>_.
        bindE (on_store (store_journal_action S height (sequence + 1) JOutput
                 (outpoint_bytes outpoint))) (\<lambda>output_key.
        bindE (modifyE (push_action height (AHistory history_key journal_key))) (\<lambda>_.
        bindE (modifyE (push_action height (AOutput outpoint output_key))) (\<lambda>_.
          returnE (sequence + 1 + 1)))))))))"

definition apply_tx ::
  "'t sled \<Rightarrow> bitcoin_lib \<Rightarrow> u32 \<Rightarrow> transaction \<Rightarrow> u32 \<Rightarrow> 't index_state
     \<Rightarrow> (error + u32) \<times> 't index_state" where
  "apply_tx S B height tx sequence =
     (let t = compute_txid B tx in
      bindE (forget_pending_transaction_internal S B t) (\<lambda>_.
      bindE (on_store (store_tx S B tx)) (\<lambda>_.
      bindE (on_store (store_journal_action S height sequence JTx (arr32 t))) (\<lambda>tx_key.
      bindE (modifyE (push_action height (ATx t tx_key))) (\<lambda>_.
      bindE (foldE (apply_input S B height t) (enumerate 0 (tx_input tx)) (sequence + 1))
        (foldE (apply_output S B height t) (enumerate 0 (tx_output tx))))))))"

definition apply_block ::
  "'t sled \<Rightarrow> bitcoin_lib \<Rightarrow> block \<Rightarrow> u32 \<Rightarrow> 't index_state \<Rightarrow> (error + unit) \<times> 't index_state" where
  "apply_block S B blk height =
     bindE (foldE (apply_tx S B height) (txdata blk) 0) (\<lambda>_.
     bindE (modifyE (\<lambda>st. st\<lparr>tip_height := height\<rparr>)) (\<lambda>_.
       on_store (set_tip_height S height)))"

section \<open>Disconnecting a block\<close>

fun rollback_action :: "'t sled \<Rightarrow> block_action \<Rightarrow> 't pindex \<Rightarrow> (error + unit) \<times> 't pindex" where
  "rollback_action S (ATx t key) =
     bindE (delete_journal_key S key) (\<lambda>_. delete_tx S t)"
| "rollback_action S (AHistory hkey key) =
     bindE (delete_journal_key S key) (\<lambda>_. delete_history_key S hkey)"
| "rollback_action S (AOutput p key) =
     bindE (delete_journal_key S key) (\<lambda>_.
     bindE (readE (load_output S p)) (\<lambda>r.
     bindE (case r of
              None \<Rightarrow> returnE ()
            | Some out \<Rightarrow> delete_utxo S (so_script_hash out) (so_txid out) (so_vout out)) (\<lambda>_.
       delete_output S p)))"
| "rollback_action S (ASpend p key) =
     bindE (delete_journal_key S key) (\<lambda>_.
     bindE (readE (load_output S p)) (\<lambda>r.
       case r of
         None \<Rightarrow> returnE ()
       | Some out \<Rightarrow> store_output S p (so_script_hash out) (so_value out) (so_height out)))"

definition retain_history :: "u32 \<Rightarrow> (script_hash \<times> tx_entry list) list \<Rightarrow> (script_hash \<times> tx_entry list) list" where
  "retain_history height m =
     filter (\<lambda>(_, es). es \<noteq> []) (map (\<lambda>(sh, es). (sh, filter (\<lambda>e. te_height e \<noteq> height) es)) m)"

definition rollback_tip ::
  "'t sled \<Rightarrow> u32 \<Rightarrow> 't index_state \<Rightarrow> (error + unit) \<times> 't index_state" where
  "rollback_tip S height st =
     (if tip_height st = height
      then bindE (modifyE (\<lambda>s. s\<lparr>tip_height := saturating_sub height 1\<rparr>)) (\<lambda>_.
             on_store (set_tip_height S (saturating_sub height 1))) st
      else returnE () st)"

definition rollback_height ::
  "'t sled \<Rightarrow> bitcoin_lib \<Rightarrow> u32 \<Rightarrow> 't index_state \<Rightarrow> (error + unit) \<times> 't index_state" where
  "rollback_height S B height st =
     bindE
       (case map_of (by_height st) height of
          None \<Rightarrow> returnE ()
        | Some actions \<Rightarrow>
            bindE (modifyE (\<lambda>s. s\<lparr>by_height := hm_remove height (by_height s)\<rparr>)) (\<lambda>_.
            bindE (foldE (\<lambda>a _. on_store (rollback_action S a)) (rev actions) ()) (\<lambda>_.
              modifyE (\<lambda>s. rebuild_pending_view B
                (s\<lparr>history := retain_history height (history s)\<rparr>)))))
       (\<lambda>_. rollback_tip S height) st"

section \<open>The journal as a specification\<close>

text \<open>
  What a block does to the index, without the store: the list of journal records it
  writes. A record knows the data it adds, so that its effect and its undoing are
  functions of the contents of the four trees that a rollback restores.
\<close>

datatype journal_record =
    RTx txid
  | RHistory script_hash history_kind txid u32
  | ROutput outpoint script_hash u64
  | RSpend outpoint

record store_view =
  v_history :: "bytes \<rightharpoonup> bytes"
  v_outputs :: "bytes \<rightharpoonup> bytes"
  v_utxos :: "bytes \<rightharpoonup> bytes"
  v_journal :: "bytes \<rightharpoonup> bytes"

definition views :: "'t sled \<Rightarrow> 't pindex \<Rightarrow> store_view" where
  "views S ix = \<lparr>v_history = view S (ix_history ix), v_outputs = view S (ix_outputs ix),
                 v_utxos = view S (ix_utxos ix), v_journal = view S (ix_journal ix)\<rparr>"

definition raw_output :: "outpoint \<Rightarrow> script_hash \<Rightarrow> u64 \<Rightarrow> u32 \<Rightarrow> bytes" where
  "raw_output p sh val height =
     encode_output \<lparr>so_script_hash = sh, so_txid = op_txid p, so_vout = op_vout p,
                    so_value = val, so_height = height\<rparr>"

definition raw_script :: "bytes \<Rightarrow> script_hash" where
  "raw_script raw = from_be (bslice 0 32 raw)"

definition raw_value :: "bytes \<Rightarrow> u64" where
  "raw_value raw = from_be (bslice 32 8 raw)"

definition out_utxo_key :: "outpoint \<Rightarrow> bytes \<Rightarrow> bytes" where
  "out_utxo_key p raw = utxo_key (raw_script raw) (op_txid p) (op_vout p)"

fun record_action :: "u32 \<Rightarrow> u32 \<times> journal_record \<Rightarrow> block_action" where
  "record_action h (s, RTx t) = ATx t (journal_key h s)"
| "record_action h (s, RHistory sh k t i) = AHistory (history_key sh h k t i) (journal_key h s)"
| "record_action h (s, ROutput p sh val) = AOutput p (journal_key h s)"
| "record_action h (s, RSpend p) = ASpend p (journal_key h s)"

fun record_value :: "u32 \<Rightarrow> journal_record \<Rightarrow> bytes" where
  "record_value h (RTx t) = journal_kind_u8 JTx # arr32 t"
| "record_value h (RHistory sh k t i) = journal_kind_u8 JHistory # history_key sh h k t i"
| "record_value h (ROutput p sh val) = journal_kind_u8 JOutput # outpoint_bytes p"
| "record_value h (RSpend p) = journal_kind_u8 JSpend # outpoint_bytes p"

fun record_effect :: "u32 \<Rightarrow> journal_record \<Rightarrow> store_view \<Rightarrow> store_view" where
  "record_effect h (RTx t) v = v"
| "record_effect h (RHistory sh k t i) v =
     v\<lparr>v_history := (v_history v)(history_key sh h k t i \<mapsto> [])\<rparr>"
| "record_effect h (ROutput p sh val) v =
     v\<lparr>v_outputs := (v_outputs v)(outpoint_key p \<mapsto> raw_output p sh val h),
       v_utxos := (v_utxos v)(utxo_key sh (op_txid p) (op_vout p) \<mapsto> u64_be val)\<rparr>"
| "record_effect h (RSpend p) v =
     (case v_outputs v (outpoint_key p) of
        None \<Rightarrow> v
      | Some raw \<Rightarrow> v\<lparr>v_utxos := (v_utxos v)(out_utxo_key p raw := None)\<rparr>)"

definition do_record :: "u32 \<Rightarrow> u32 \<times> journal_record \<Rightarrow> store_view \<Rightarrow> store_view" where
  "do_record h x v =
     (let w = record_effect h (snd x) v
      in w\<lparr>v_journal := (v_journal w)(journal_key h (fst x) \<mapsto> record_value h (snd x))\<rparr>)"

text \<open>The rollback of one action, on the contents.\<close>

definition drop_journal :: "bytes \<Rightarrow> store_view \<Rightarrow> store_view" where
  "drop_journal key v = v\<lparr>v_journal := (v_journal v)(key := None)\<rparr>"

fun undo_effect :: "block_action \<Rightarrow> store_view \<Rightarrow> store_view" where
  "undo_effect (ATx t key) v = v"
| "undo_effect (AHistory hkey key) v = v\<lparr>v_history := (v_history v)(hkey := None)\<rparr>"
| "undo_effect (AOutput p key) v =
     v\<lparr>v_outputs := (v_outputs v)(outpoint_key p := None),
       v_utxos := (case v_outputs v (outpoint_key p) of
                     None \<Rightarrow> v_utxos v
                   | Some raw \<Rightarrow> (v_utxos v)(out_utxo_key p raw := None))\<rparr>"
| "undo_effect (ASpend p key) v =
     (case v_outputs v (outpoint_key p) of
        None \<Rightarrow> v
      | Some raw \<Rightarrow> v\<lparr>v_utxos := (v_utxos v)(out_utxo_key p raw \<mapsto> u64_be (raw_value raw))\<rparr>)"

definition undo_action :: "block_action \<Rightarrow> store_view \<Rightarrow> store_view" where
  "undo_action a v = drop_journal (action_journal_key a) (undo_effect a v)"

text \<open>The records of a block, from the outputs \<open>O'\<close> that are stored when it arrives.\<close>

definition input_records ::
  "bitcoin_lib \<Rightarrow> txid \<Rightarrow> (bytes \<rightharpoonup> bytes) \<Rightarrow> nat \<times> txin \<Rightarrow> journal_record list" where
  "input_records B t O' x =
     (let p = previous_output (snd x) in
      if is_null B p then []
      else case O' (outpoint_key p) of
             None \<Rightarrow> []
           | Some raw \<Rightarrow> [RHistory (raw_script raw) Spend t (of_nat (fst x)), RSpend p])"

definition output_records :: "bitcoin_lib \<Rightarrow> txid \<Rightarrow> nat \<times> txout \<Rightarrow> journal_record list" where
  "output_records B t x =
     [RHistory (output_script B (snd x)) Fund t (of_nat (fst x)),
      ROutput \<lparr>op_txid = t, op_vout = of_nat (fst x)\<rparr> (output_script B (snd x)) (tx_value (snd x))]"

definition tx_records ::
  "bitcoin_lib \<Rightarrow> (bytes \<rightharpoonup> bytes) \<Rightarrow> transaction \<Rightarrow> journal_record list" where
  "tx_records B O' tx =
     (let t = compute_txid B tx
      in RTx t # concat (map (input_records B t O') (enumerate 0 (tx_input tx)))
           @ concat (map (output_records B t) (enumerate 0 (tx_output tx))))"

definition add_outputs ::
  "bitcoin_lib \<Rightarrow> u32 \<Rightarrow> transaction \<Rightarrow> (bytes \<rightharpoonup> bytes) \<Rightarrow> (bytes \<rightharpoonup> bytes)" where
  "add_outputs B h tx O' =
     fold (\<lambda>(i, out) m.
        let p = \<lparr>op_txid = compute_txid B tx, op_vout = of_nat i\<rparr>
        in m(outpoint_key p \<mapsto> raw_output p (output_script B out) (tx_value out) h))
       (enumerate 0 (tx_output tx)) O'"

fun block_records ::
  "bitcoin_lib \<Rightarrow> u32 \<Rightarrow> (bytes \<rightharpoonup> bytes) \<Rightarrow> transaction list \<Rightarrow> journal_record list" where
  "block_records B h O' [] = []"
| "block_records B h O' (tx # txs) =
     tx_records B O' tx @ block_records B h (add_outputs B h tx O') txs"

text \<open>Records are numbered in the order they are written, from a first number on.\<close>

definition numbered :: "u32 \<Rightarrow> journal_record list \<Rightarrow> (u32 \<times> journal_record) list" where
  "numbered s rs = map (\<lambda>(i, r). (s + of_nat i, r)) (enumerate 0 rs)"

definition run_records ::
  "u32 \<Rightarrow> u32 \<Rightarrow> journal_record list \<Rightarrow> store_view \<Rightarrow> store_view" where
  "run_records h s rs v = fold (do_record h) (numbered s rs) v"

definition undo_records ::
  "u32 \<Rightarrow> u32 \<Rightarrow> journal_record list \<Rightarrow> store_view \<Rightarrow> store_view" where
  "undo_records h s rs v = fold undo_action (rev (map (record_action h) (numbered s rs))) v"

end
