(* ===== verification/Rollback.thy ===== *)
theory Rollback
  imports Blocks
begin

text \<open>
  Rolling back a block undoes connecting it. First on the contents of the trees: a run of
  journal records that touches fresh keys only is undone by replaying it in reverse. Then
  the stored operations are shown to implement these runs.
\<close>

section \<open>Runs of records\<close>

fun ok_effect :: "u32 \<Rightarrow> journal_record \<Rightarrow> store_view \<Rightarrow> bool" where
  "ok_effect h (RTx t) v \<longleftrightarrow> True"
| "ok_effect h (RHistory sh k t i) v \<longleftrightarrow> v_history v (history_key sh h k t i) = None"
| "ok_effect h (ROutput p sh val) v \<longleftrightarrow>
     v_outputs v (outpoint_key p) = None \<and> v_utxos v (utxo_key sh (op_txid p) (op_vout p)) = None"
| "ok_effect h (RSpend p) v \<longleftrightarrow>
     (\<exists>raw. v_outputs v (outpoint_key p) = Some raw
          \<and> v_utxos v (out_utxo_key p raw) = Some (u64_be (raw_value raw)))"

definition ok_record :: "u32 \<Rightarrow> u32 \<times> journal_record \<Rightarrow> store_view \<Rightarrow> bool" where
  "ok_record h x v \<longleftrightarrow>
     v_journal v (journal_key h (fst x)) = None \<and> ok_effect h (snd x) v"

abbreviation ok_run :: "u32 \<Rightarrow> (u32 \<times> journal_record) list \<Rightarrow> store_view \<Rightarrow> bool" where
  "ok_run h \<equiv> allowed_run (ok_record h) (do_record h)"

lemma raw_output_fields [simp]:
  "raw_script (raw_output p sh val h) = sh" "raw_value (raw_output p sh val h) = val"
  "length (raw_output p sh val h) = 44"
  by (simp_all add: raw_script_def raw_value_def raw_output_def encode_output_def
      from_be_be_bytes codec_simps)

lemma out_utxo_key_inject [simp]:
  "out_utxo_key p raw = out_utxo_key q raw' \<longleftrightarrow> p = q \<and> raw_script raw = raw_script raw'"
  by (auto simp: out_utxo_key_def)

lemma out_utxo_key_eq [simp]:
  "out_utxo_key p raw = utxo_key sh (op_txid q) (op_vout q) \<longleftrightarrow> p = q \<and> raw_script raw = sh"
  "utxo_key sh (op_txid q) (op_vout q) = out_utxo_key p raw \<longleftrightarrow> p = q \<and> raw_script raw = sh"
  by (auto simp: out_utxo_key_def)

lemma action_journal_key_record [simp]:
  "action_journal_key (record_action h x) = journal_key h (fst x)"
  by (cases "(h, x)" rule: record_action.cases) (simp_all add: action_journal_key_def)

lemma undo_do_record:
  assumes "ok_record h x v"
  shows "undo_action (record_action h x) (do_record h x v) = v"
proof (cases "(h, x)" rule: record_action.cases)
  case (4 h' s p)
  then obtain raw where raw: "v_outputs v (outpoint_key p) = Some raw"
    "v_utxos v (out_utxo_key p raw) = Some (u64_be (raw_value raw))"
    and j: "v_journal v (journal_key h s) = None"
    using assms by (auto simp: ok_record_def)
  show ?thesis
    using 4 raw j
    by (simp add: do_record_def undo_action_def drop_journal_def action_journal_key_def Let_def
        fun_upd_idem)
qed (use assms in \<open>auto simp: do_record_def undo_action_def drop_journal_def ok_record_def
      action_journal_key_def out_utxo_key_def Let_def fun_upd_idem\<close>)

interpretation journal: undo_log "do_record h" "\<lambda>x. undo_action (record_action h x)" "ok_record h" "(=)" for h
  by unfold_locales (simp_all add: undo_do_record)

section \<open>Runs over fresh keys\<close>

fun history_keys :: "u32 \<Rightarrow> journal_record list \<Rightarrow> bytes list" where
  "history_keys h [] = []"
| "history_keys h (RHistory sh k t i # rs) = history_key sh h k t i # history_keys h rs"
| "history_keys h (r # rs) = history_keys h rs"

fun created :: "journal_record list \<Rightarrow> outpoint list" where
  "created [] = []"
| "created (ROutput p sh val # rs) = p # created rs"
| "created (r # rs) = created rs"

fun spent :: "journal_record list \<Rightarrow> outpoint list" where
  "spent [] = []"
| "spent (RSpend p # rs) = p # spent rs"
| "spent (r # rs) = spent rs"

fun spends_stored :: "u32 \<Rightarrow> (bytes \<rightharpoonup> bytes) \<Rightarrow> journal_record list \<Rightarrow> bool" where
  "spends_stored h O' [] \<longleftrightarrow> True"
| "spends_stored h O' (ROutput p sh val # rs) \<longleftrightarrow>
     spends_stored h (O'(outpoint_key p \<mapsto> raw_output p sh val h)) rs"
| "spends_stored h O' (RSpend p # rs) \<longleftrightarrow> O' (outpoint_key p) \<noteq> None \<and> spends_stored h O' rs"
| "spends_stored h O' (r # rs) \<longleftrightarrow> spends_stored h O' rs"

definition unspent_in :: "store_view \<Rightarrow> outpoint \<Rightarrow> bool" where
  "unspent_in v p \<longleftrightarrow>
     (\<forall>raw. v_outputs v (outpoint_key p) = Some raw \<longrightarrow>
        v_utxos v (out_utxo_key p raw) = Some (u64_be (raw_value raw)))"

definition absent_in :: "store_view \<Rightarrow> outpoint \<Rightarrow> bool" where
  "absent_in v p \<longleftrightarrow>
     v_outputs v (outpoint_key p) = None \<and> (\<forall>sh. v_utxos v (utxo_key sh (op_txid p) (op_vout p)) = None)"

definition fresh_run :: "u32 \<Rightarrow> (u32 \<times> journal_record) list \<Rightarrow> store_view \<Rightarrow> bool" where
  "fresh_run h xs v \<longleftrightarrow>
     distinct (map fst xs) \<and> (\<forall>x \<in> set xs. v_journal v (journal_key h (fst x)) = None) \<and>
     distinct (history_keys h (map snd xs)) \<and>
     (\<forall>k \<in> set (history_keys h (map snd xs)). v_history v k = None) \<and>
     distinct (created (map snd xs)) \<and> (\<forall>p \<in> set (created (map snd xs)). absent_in v p) \<and>
     distinct (spent (map snd xs)) \<and> (\<forall>p \<in> set (spent (map snd xs)). unspent_in v p) \<and>
     spends_stored h (v_outputs v) (map snd xs)"

lemma fresh_run_Cons:
  assumes "fresh_run h (x # xs) v"
  shows "ok_record h x v" and "fresh_run h xs (do_record h x v)"
proof -
  have "ok_record h x v \<and> fresh_run h xs (do_record h x v)"
  proof (cases "(h, x)" rule: record_action.cases)
    case (1 h' s t)
    with assms show ?thesis
      by (auto simp: fresh_run_def ok_record_def do_record_def Let_def absent_in_def unspent_in_def)
  next
    case (2 h' s sh k t i)
    with assms show ?thesis
      by (auto simp: fresh_run_def ok_record_def do_record_def Let_def absent_in_def unspent_in_def)
  next
    case (3 h' s p sh val)
    with assms show ?thesis
      by (auto simp: fresh_run_def ok_record_def do_record_def Let_def absent_in_def unspent_in_def
          out_utxo_key_def split: if_splits)
  next
    case (4 h' s p)
    with assms show ?thesis
      by (auto simp: fresh_run_def ok_record_def do_record_def Let_def absent_in_def unspent_in_def)
  qed
  then show "ok_record h x v" and "fresh_run h xs (do_record h x v)" by auto
qed

lemma fresh_run_ok: "fresh_run h xs v \<Longrightarrow> ok_run h xs v"
  by (induction xs arbitrary: v) (auto dest: fresh_run_Cons)

section \<open>The records of a block\<close>

lemma history_keys_append [simp]: "history_keys h (xs @ ys) = history_keys h xs @ history_keys h ys"
  by (induction h xs rule: history_keys.induct) auto

lemma created_append [simp]: "created (xs @ ys) = created xs @ created ys"
  by (induction xs rule: created.induct) auto

lemma spent_append [simp]: "spent (xs @ ys) = spent xs @ spent ys"
  by (induction xs rule: spent.induct) auto

text \<open>The outpoints a transaction spends and creates, as the indexer numbers them.\<close>

definition tx_prevouts :: "bitcoin_lib \<Rightarrow> transaction \<Rightarrow> outpoint list" where
  "tx_prevouts B tx = filter (\<lambda>p. \<not> is_null B p) (map previous_output (tx_input tx))"

definition tx_outpoints :: "bitcoin_lib \<Rightarrow> transaction \<Rightarrow> outpoint list" where
  "tx_outpoints B tx =
     map (\<lambda>i. \<lparr>op_txid = compute_txid B tx, op_vout = of_nat i\<rparr>) [0..<length (tx_output tx)]"

text \<open>
  The blocks the theorem is about: the txids of the block are new and distinct, no
  outpoint is spent twice, a stored output that is spent is unspent, and the counters fit in
  32 bits. Outputs that are not stored may be spent: unknown ones, and those that the block
  itself creates.
\<close>

definition fresh_block :: "bitcoin_lib \<Rightarrow> u32 \<Rightarrow> transaction list \<Rightarrow> store_view \<Rightarrow> bool" where
  "fresh_block B h txs v \<longleftrightarrow>
     (\<forall>s. v_journal v (journal_key h s) = None) \<and>
     (\<forall>sh k t i. v_history v (history_key sh h k t i) = None) \<and>
     distinct (map (compute_txid B) txs) \<and>
     distinct (concat (map (tx_prevouts B) txs)) \<and>
     (\<forall>p \<in> set (concat (map (tx_prevouts B) txs)). unspent_in v p) \<and>
     (\<forall>p \<in> set (concat (map (tx_outpoints B) txs)). absent_in v p) \<and>
     (\<forall>tx \<in> set txs. length (tx_input tx) \<le> 2 ^ 32 \<and> length (tx_output tx) \<le> 2 ^ 32) \<and>
     length (block_records B h (v_outputs v) txs) \<le> 2 ^ 32"

lemma of_nat_u32_eq:
  "i < 2 ^ 32 \<Longrightarrow> j < 2 ^ 32 \<Longrightarrow> (of_nat i :: u32) = of_nat j \<longleftrightarrow> i = j"
  by (simp add: word_of_nat_eq_iff take_bit_nat_eq_self)

lemma numbered_sequence: "map fst (numbered s rs) = map (\<lambda>i. s + of_nat i) [0..<length rs]"
proof -
  have "map fst (numbered s rs) = map (\<lambda>i. s + of_nat i) (map fst (enumerate 0 rs))"
    by (simp only: numbered_def map_map comp_def case_prod_beta fst_conv)
  then show ?thesis by simp
qed

lemma numbered_records [simp]: "map snd (numbered s rs) = rs"
proof -
  have "map snd (numbered s rs) = map snd (enumerate 0 rs)"
    by (simp only: numbered_def map_map comp_def case_prod_beta snd_conv)
  then show ?thesis by simp
qed

lemma distinct_numbered:
  "length rs \<le> 2 ^ 32 \<Longrightarrow> distinct (map fst (numbered s rs))"
  by (auto simp: numbered_sequence distinct_map inj_on_def of_nat_u32_eq)

lemma input_records_cases:
  obtains (none) "input_records B t O' x = []"
  | (spend) sh where "\<not> is_null B (previous_output (snd x))"
      and "input_records B t O' x
             = [RHistory sh Spend t (of_nat (fst x)), RSpend (previous_output (snd x))]"
  by (cases "is_null B (previous_output (snd x))";
      cases "O' (outpoint_key (previous_output (snd x)))")
    (auto simp: input_records_def)

lemma input_records_keys:
  "set (history_keys h (concat (map (input_records B t O') xs)))
     \<subseteq> {history_key sh h Spend t (of_nat i) | sh i. i \<in> fst ` set xs}"
  "created (concat (map (input_records B t O') xs)) = []"
proof (induction xs)
  case (Cons x xs)
  {
    case 1
    show ?case
      by (cases rule: input_records_cases [of B t O' x]) (auto dest!: subsetD [OF Cons(1)])
  next
    case 2
    show ?case using Cons(2) by (cases rule: input_records_cases [of B t O' x]) auto
  }
qed simp_all

lemma output_records_keys:
  "set (history_keys h (concat (map (output_records B t) xs)))
     \<subseteq> {history_key sh h Fund t (of_nat i) | sh i. i \<in> fst ` set xs}"
  "spent (concat (map (output_records B t) xs)) = []"
  "created (concat (map (output_records B t) xs))
     = map (\<lambda>x. \<lparr>op_txid = t, op_vout = of_nat (fst x)\<rparr>) xs"
proof (induction xs)
  case (Cons x xs)
  {
    case 1
    show ?case by (auto simp: output_records_def [of B t x] dest!: subsetD [OF Cons(1)])
  next
    case 2
    show ?case using Cons(2) by (auto simp: output_records_def [of B t x])
  next
    case 3
    show ?case using Cons(3) by (auto simp: output_records_def [of B t x])
  }
qed simp_all

lemma input_records_distinct:
  assumes "distinct (map (of_nat :: nat \<Rightarrow> u32) (map fst xs))"
  shows "distinct (history_keys h (concat (map (input_records B t O') xs)))"
  using assms
proof (induction xs)
  case (Cons x xs)
  have "history_key sh h Spend t (of_nat (fst x))
      \<notin> set (history_keys h (concat (map (input_records B t O') xs)))" for sh
    using Cons.prems input_records_keys(1) [of h B t O' xs] by force
  then show ?case
    using Cons by (cases rule: input_records_cases [of B t O' x]) auto
qed simp

lemma output_records_distinct:
  assumes "distinct (map (of_nat :: nat \<Rightarrow> u32) (map fst xs))"
  shows "distinct (history_keys h (concat (map (output_records B t) xs)))"
  using assms
proof (induction xs)
  case (Cons x xs)
  have "history_key sh h Fund t (of_nat (fst x))
      \<notin> set (history_keys h (concat (map (output_records B t) xs)))" for sh
    using Cons.prems output_records_keys(1) [of h B t xs] by force
  then show ?case
    using Cons by (auto simp: output_records_def [of B t x])
qed simp

lemma distinct_indices:
  "n \<le> 2 ^ 32 \<Longrightarrow> distinct (map (of_nat :: nat \<Rightarrow> u32) [0..<n])"
  by (auto simp: distinct_map inj_on_def of_nat_u32_eq)

lemma spent_input_records:
  "set (spent (concat (map (input_records B t O') xs)))
     \<subseteq> set (filter (\<lambda>p. \<not> is_null B p) (map (previous_output \<circ> snd) xs))"
  "distinct (filter (\<lambda>p. \<not> is_null B p) (map (previous_output \<circ> snd) xs)) \<Longrightarrow>
     distinct (spent (concat (map (input_records B t O') xs)))"
proof (induction xs)
  case (Cons x xs)
  {
    case 1
    show ?case using Cons(1) by (cases rule: input_records_cases [of B t O' x]) auto
  next
    case 2
    then show ?case using Cons
      by (cases rule: input_records_cases [of B t O' x]) (auto split: if_splits)
  }
qed simp_all

lemma tx_records_keys:
  assumes "length (tx_input tx) \<le> 2 ^ 32" and "length (tx_output tx) \<le> 2 ^ 32"
  shows "distinct (history_keys h (tx_records B O' tx))"
    and "set (history_keys h (tx_records B O' tx))
           \<subseteq> {history_key sh h k (compute_txid B tx) i | sh k i. True}"
    and "created (tx_records B O' tx) = tx_outpoints B tx"
    and "set (spent (tx_records B O' tx)) \<subseteq> set (tx_prevouts B tx)"
    and "distinct (tx_prevouts B tx) \<Longrightarrow> distinct (spent (tx_records B O' tx))"
proof -
  let ?t = "compute_txid B tx"
  let ?ins = "enumerate 0 (tx_input tx)" and ?outs = "enumerate 0 (tx_output tx)"
  have "distinct (history_keys h (concat (map (input_records B ?t O') ?ins)))"
    by (rule input_records_distinct) (use assms(1) distinct_indices in simp)
  moreover have "distinct (history_keys h (concat (map (output_records B ?t) ?outs)))"
    by (rule output_records_distinct) (use assms(2) distinct_indices in simp)
  ultimately show "distinct (history_keys h (tx_records B O' tx))"
    using input_records_keys(1) [of h B ?t O' ?ins] output_records_keys(1) [of h B ?t ?outs]
    by (fastforce simp: tx_records_def Let_def)
  show "set (history_keys h (tx_records B O' tx))
      \<subseteq> {history_key sh h k ?t i | sh k i. True}"
    using input_records_keys(1) [of h B ?t O' ?ins] output_records_keys(1) [of h B ?t ?outs]
    by (fastforce simp: tx_records_def Let_def)
  have "map (\<lambda>x. \<lparr>op_txid = ?t, op_vout = of_nat (fst x)\<rparr>) ?outs
      = map (\<lambda>i. \<lparr>op_txid = ?t, op_vout = of_nat i\<rparr>) (map fst ?outs)"
    by (simp only: map_map comp_def)
  then show "created (tx_records B O' tx) = tx_outpoints B tx"
    by (simp add: tx_records_def Let_def input_records_keys(2) output_records_keys(3)
        tx_outpoints_def)
  have prev: "filter (\<lambda>p. \<not> is_null B p) (map (previous_output \<circ> snd) ?ins) = tx_prevouts B tx"
    by (simp add: tx_prevouts_def map_map [symmetric] del: map_map)
  show "set (spent (tx_records B O' tx)) \<subseteq> set (tx_prevouts B tx)"
    using spent_input_records(1) [of B ?t O' ?ins]
    by (simp add: prev tx_records_def Let_def output_records_keys(2))
  show "distinct (tx_prevouts B tx) \<Longrightarrow> distinct (spent (tx_records B O' tx))"
    using spent_input_records(2) [of B ?ins ?t O']
    by (simp add: prev tx_records_def Let_def output_records_keys(2))
qed

lemma block_records_keys:
  assumes "\<forall>tx \<in> set txs. length (tx_input tx) \<le> 2 ^ 32 \<and> length (tx_output tx) \<le> 2 ^ 32"
  shows "set (history_keys h (block_records B h O' txs))
           \<subseteq> {history_key sh h k t i | sh k t i. t \<in> compute_txid B ` set txs}"
    and "created (block_records B h O' txs) = concat (map (tx_outpoints B) txs)"
    and "set (spent (block_records B h O' txs)) \<subseteq> set (concat (map (tx_prevouts B) txs))"
  using assms
proof (induction txs arbitrary: O')
  case (Cons tx txs)
  {
    case 1
    then have len: "length (tx_input tx) \<le> 2 ^ 32" "length (tx_output tx) \<le> 2 ^ 32"
      and lens: "\<forall>tx \<in> set txs. length (tx_input tx) \<le> 2 ^ 32 \<and> length (tx_output tx) \<le> 2 ^ 32"
      by simp_all
    show ?case
      by (auto dest!: subsetD [OF tx_records_keys(2) [OF len]] subsetD [OF Cons.IH(1) [OF lens]])
  next
    case 2
    then show ?case using Cons.IH(2) by (simp add: tx_records_keys(3))
  next
    case 3
    then have len: "length (tx_input tx) \<le> 2 ^ 32" "length (tx_output tx) \<le> 2 ^ 32"
      and lens: "\<forall>tx \<in> set txs. length (tx_input tx) \<le> 2 ^ 32 \<and> length (tx_output tx) \<le> 2 ^ 32"
      by simp_all
    show ?case
      using tx_records_keys(4) [OF len, of B O'] Cons.IH(3) [OF lens, of "add_outputs B h tx O'"]
      by auto
  }
qed simp_all

lemma block_history_keys_distinct:
  assumes "\<forall>tx \<in> set txs. length (tx_input tx) \<le> 2 ^ 32 \<and> length (tx_output tx) \<le> 2 ^ 32"
    and "distinct (map (compute_txid B) txs)"
  shows "distinct (history_keys h (block_records B h O' txs))"
  using assms
proof (induction txs arbitrary: O')
  case (Cons tx txs)
  let ?rest = "history_keys h (block_records B h (add_outputs B h tx O') txs)"
  have len: "length (tx_input tx) \<le> 2 ^ 32" "length (tx_output tx) \<le> 2 ^ 32"
    and lens: "\<forall>tx \<in> set txs. length (tx_input tx) \<le> 2 ^ 32 \<and> length (tx_output tx) \<le> 2 ^ 32"
    using Cons.prems(1) by simp_all
  have "set (history_keys h (tx_records B O' tx)) \<inter> set ?rest = {}"
    using Cons.prems(2)
    by (auto dest!: subsetD [OF tx_records_keys(2) [OF len]] subsetD [OF block_records_keys(1) [OF lens]])
  moreover have "distinct ?rest" using Cons.IH lens Cons.prems(2) by simp
  ultimately show ?case
    using tx_records_keys(1) [OF len] by simp
qed simp

lemma block_spent_distinct:
  assumes "\<forall>tx \<in> set txs. length (tx_input tx) \<le> 2 ^ 32 \<and> length (tx_output tx) \<le> 2 ^ 32"
    and "distinct (concat (map (tx_prevouts B) txs))"
  shows "distinct (spent (block_records B h O' txs))"
  using assms
proof (induction txs arbitrary: O')
  case (Cons tx txs)
  have len: "length (tx_input tx) \<le> 2 ^ 32" "length (tx_output tx) \<le> 2 ^ 32"
    and lens: "\<forall>tx \<in> set txs. length (tx_input tx) \<le> 2 ^ 32 \<and> length (tx_output tx) \<le> 2 ^ 32"
    using Cons.prems(1) by simp_all
  have "set (tx_prevouts B tx) \<inter> set (concat (map (tx_prevouts B) txs)) = {}"
    using Cons.prems(2) by simp
  then have "set (spent (tx_records B O' tx))
      \<inter> set (spent (block_records B h (add_outputs B h tx O') txs)) = {}"
    using tx_records_keys(4) [OF len] block_records_keys(3) [OF lens] by blast
  then show ?case
    using Cons.IH lens Cons.prems(2) tx_records_keys(5) [OF len] by simp
qed simp

lemma block_created_distinct:
  assumes "\<forall>tx \<in> set txs. length (tx_input tx) \<le> 2 ^ 32 \<and> length (tx_output tx) \<le> 2 ^ 32"
    and "distinct (map (compute_txid B) txs)"
  shows "distinct (concat (map (tx_outpoints B) txs))"
  using assms
proof (induction txs)
  case (Cons tx txs)
  have "distinct (tx_outpoints B tx)"
    using Cons.prems(1) by (auto simp: tx_outpoints_def distinct_map inj_on_def of_nat_u32_eq)
  moreover have "set (tx_outpoints B tx) \<inter> set (concat (map (tx_outpoints B) txs)) = {}"
    using Cons.prems(2) by (auto simp: tx_outpoints_def image_iff)
  ultimately show ?case using Cons by simp
qed simp

section \<open>The outputs known while a block is indexed\<close>

fun outputs_after :: "u32 \<Rightarrow> (bytes \<rightharpoonup> bytes) \<Rightarrow> journal_record list \<Rightarrow> (bytes \<rightharpoonup> bytes)" where
  "outputs_after h O' [] = O'"
| "outputs_after h O' (ROutput p sh val # rs) =
     outputs_after h (O'(outpoint_key p \<mapsto> raw_output p sh val h)) rs"
| "outputs_after h O' (r # rs) = outputs_after h O' rs"

lemma outputs_after_append [simp]:
  "outputs_after h O' (xs @ ys) = outputs_after h (outputs_after h O' xs) ys"
  by (induction h O' xs rule: outputs_after.induct) (simp_all del: fun_upd_apply)

lemma spends_stored_append [simp]:
  "spends_stored h O' (xs @ ys) \<longleftrightarrow> spends_stored h O' xs \<and> spends_stored h (outputs_after h O' xs) ys"
  by (induction h O' xs rule: outputs_after.induct) (simp_all del: fun_upd_apply)

lemma input_records_outputs:
  "outputs_after h O' (concat (map (input_records B t O'') xs)) = O'"
  "spends_stored h O' (concat (map (input_records B t O') xs))"
proof (induction xs)
  case (Cons x xs)
  {
    case 1
    show ?case using Cons(1) by (cases rule: input_records_cases [of B t O'' x]) auto
  next
    case 2
    show ?case using Cons(2) by (auto simp: input_records_def [of B t O' x] Let_def split: option.splits)
  }
qed simp_all

lemma output_records_outputs:
  "outputs_after h O' (concat (map (output_records B (compute_txid B tx)) xs))
     = fold (\<lambda>(i, out) m.
          let p = \<lparr>op_txid = compute_txid B tx, op_vout = of_nat i\<rparr>
          in m(outpoint_key p \<mapsto> raw_output p (output_script B out) (tx_value out) h)) xs O'"
  "spends_stored h O' (concat (map (output_records B (compute_txid B tx)) xs))"
  by (induction xs arbitrary: O') (auto simp: output_records_def Let_def)

lemma tx_records_outputs [simp]:
  "outputs_after h O' (tx_records B O' tx) = add_outputs B h tx O'"
  "spends_stored h O' (tx_records B O' tx)"
  by (simp_all add: tx_records_def Let_def input_records_outputs output_records_outputs add_outputs_def)

lemma block_spends_stored: "spends_stored h O' (block_records B h O' txs)"
  by (induction txs arbitrary: O') simp_all

lemma fresh_block_run:
  assumes "fresh_block B h txs v"
  shows "fresh_run h (numbered s (block_records B h (v_outputs v) txs)) v"
proof -
  let ?rs = "block_records B h (v_outputs v) txs"
  have len: "\<forall>tx \<in> set txs. length (tx_input tx) \<le> 2 ^ 32 \<and> length (tx_output tx) \<le> 2 ^ 32"
    using assms by (simp add: fresh_block_def)
  have "\<forall>k \<in> set (history_keys h ?rs). v_history v k = None"
    using assms by (auto simp: fresh_block_def dest!: subsetD [OF block_records_keys(1) [OF len]])
  moreover have "\<forall>p \<in> set (spent ?rs). unspent_in v p"
    using assms block_records_keys(3) [OF len, of B h "v_outputs v"]
    unfolding fresh_block_def by blast
  ultimately show ?thesis
    using assms block_history_keys_distinct [OF len] block_spent_distinct [OF len]
      block_created_distinct [OF len] block_records_keys(2) [OF len, of B h "v_outputs v"]
      distinct_numbered [of ?rs s] block_spends_stored [of h "v_outputs v" B txs]
    by (simp add: fresh_block_def fresh_run_def)
qed

theorem undo_block_records:
  assumes "fresh_block B h txs v"
  shows "undo_records h s (block_records B h (v_outputs v) txs)
           (run_records h s (block_records B h (v_outputs v) txs) v) = v"
  using journal.undo_run [OF fresh_run_ok [OF fresh_block_run [OF assms, of s]]]
  by (simp add: undo_records_def run_records_def rev_map fold_map comp_def)

end
