(* ===== verification/ChainIndex.thy ===== *)
theory ChainIndex
  imports Rollback
begin

text \<open>
  The stored operations implement the runs of journal records: connecting a block performs
  the records of the block, and rolling back its height replays them in reverse. Together
  with the fact about runs this gives that a disconnected block leaves no trace.
\<close>

section \<open>Decoding stored outputs\<close>

definition outputs_wf :: "store_view \<Rightarrow> bool" where
  "outputs_wf v \<longleftrightarrow> (\<forall>k raw. v_outputs v k = Some raw \<longrightarrow> length raw = 44)"

definition raw_stored :: "outpoint \<Rightarrow> bytes \<Rightarrow> stored_output" where
  "raw_stored p raw =
     \<lparr>so_script_hash = raw_script raw, so_txid = op_txid p, so_vout = op_vout p,
      so_value = raw_value raw, so_height = from_be (bslice 40 4 raw)\<rparr>"

lemma decode_raw: "length raw = 44 \<Longrightarrow> decode_output p raw = Inr (raw_stored p raw)"
  by (simp add: decode_output_def raw_stored_def raw_script_def raw_value_def)

lemma encode_raw_stored [simp]: "length raw = 44 \<Longrightarrow> encode_output (raw_stored p raw) = raw"
  using decode_output_exact decode_raw by metis

lemma raw_stored_fields [simp]:
  "so_script_hash (raw_stored p raw) = raw_script raw" "so_txid (raw_stored p raw) = op_txid p"
  "so_vout (raw_stored p raw) = op_vout p" "so_value (raw_stored p raw) = raw_value raw"
  by (simp_all add: raw_stored_def)

lemma encode_restored [simp]:
  "length raw = 44 \<Longrightarrow>
     encode_output \<lparr>so_script_hash = raw_script raw, so_txid = op_txid p, so_vout = op_vout p,
                    so_value = raw_value raw, so_height = so_height (raw_stored p raw)\<rparr> = raw"
  using encode_raw_stored [of raw p] by (simp add: raw_stored_def)

lemma views_simps [simp]:
  "v_history (views S ix) = view S (ix_history ix)"
  "v_outputs (views S ix) = view S (ix_outputs ix)"
  "v_utxos (views S ix) = view S (ix_utxos ix)"
  "v_journal (views S ix) = view S (ix_journal ix)"
  by (simp_all add: views_def)

lemma views_other [simp]:
  "views S (ix\<lparr>ix_meta := m\<rparr>) = views S ix" "views S (ix\<lparr>ix_txs := m\<rparr>) = views S ix"
  by (simp_all add: views_def)

lemma load_output_ok:
  assumes "sled_ok S" and "outputs_wf (views S ix)"
  shows "load_output S p ix
           = Inr (map_option (raw_stored p) (view S (ix_outputs ix) (outpoint_key p)))"
  using assms
  by (auto simp: load_output_def sled_simps outputs_wf_def decode_raw split: option.splits)

section \<open>Rolling back an action\<close>

lemma outputs_wf_undo [simp]: "outputs_wf v \<Longrightarrow> outputs_wf (undo_action a v)"
  by (cases a) (auto simp: outputs_wf_def undo_action_def drop_journal_def split: option.splits)

lemma outputs_wf_do [simp]: "outputs_wf v \<Longrightarrow> outputs_wf (do_record h x v)"
  by (cases "(h, x)" rule: record_action.cases)
    (auto simp: outputs_wf_def do_record_def Let_def split: option.splits if_splits)

lemma outputs_wf_run [simp]: "outputs_wf v \<Longrightarrow> outputs_wf (run_records h s rs v)"
  unfolding run_records_def by (rule fold_invariant [where Q = "\<lambda>_. True"]) simp_all

fun undone_txs :: "block_action \<Rightarrow> (bytes \<rightharpoonup> bytes) \<Rightarrow> (bytes \<rightharpoonup> bytes)" where
  "undone_txs (ATx t key) m = m(arr32 t := None)"
| "undone_txs a m = m"

lemma rollback_action_ok:
  assumes S: "sled_ok S" and wf: "outputs_wf (views S ix)"
  shows "\<exists>ix'. rollback_action S a ix = (Inr (), ix')
           \<and> views S ix' = undo_action a (views S ix)
           \<and> view S (ix_txs ix') = undone_txs a (view S (ix_txs ix)) \<and> ix_meta ix' = ix_meta ix"
proof (cases a)
  case (ATx t key)
  with S show ?thesis
    by (simp add: monad_defs store_ok sled_simps views_def undo_action_def drop_journal_def
        action_journal_key_def)
next
  case (AHistory hkey key)
  with S show ?thesis
    by (simp add: monad_defs store_ok sled_simps views_def undo_action_def drop_journal_def
        action_journal_key_def)
next
  case (AOutput p key)
  have "outputs_wf (views S (ix\<lparr>ix_journal := j\<rparr>))" for j
    using wf by (simp add: outputs_wf_def)
  note load = load_output_ok [OF S this]
  show ?thesis
    using AOutput S
    by (auto simp: monad_defs store_ok sled_simps load views_def undo_action_def drop_journal_def
        action_journal_key_def out_utxo_key_def split: option.splits)
next
  case (ASpend p key)
  have "outputs_wf (views S (ix\<lparr>ix_journal := j\<rparr>))" for j
    using wf by (simp add: outputs_wf_def)
  note load = load_output_ok [OF S this]
  show ?thesis
    using ASpend S wf
    by (auto simp: monad_defs store_ok sled_simps load views_def undo_action_def drop_journal_def
        action_journal_key_def out_utxo_key_def outputs_wf_def fun_upd_idem split: option.splits)
qed

lemma rollback_actions_ok:
  assumes S: "sled_ok S" and "outputs_wf (views S (store st))"
  shows "\<exists>ix. foldE (\<lambda>a _. on_store (rollback_action S a)) as () st = (Inr (), st\<lparr>store := ix\<rparr>)
           \<and> views S ix = fold undo_action as (views S (store st))
           \<and> view S (ix_txs ix) = fold undone_txs as (view S (ix_txs (store st)))
           \<and> ix_meta ix = ix_meta (store st)"
  using assms(2)
proof (induction as arbitrary: st)
  case Nil
  show ?case by (intro exI [of _ "store st"]) (simp add: returnE_def)
next
  case (Cons a as)
  obtain ix where ix: "rollback_action S a (store st) = (Inr (), ix)"
    "views S ix = undo_action a (views S (store st))"
    "view S (ix_txs ix) = undone_txs a (view S (ix_txs (store st)))"
    "ix_meta ix = ix_meta (store st)"
    using rollback_action_ok [OF S Cons.prems] by blast
  then have "outputs_wf (views S (store (st\<lparr>store := ix\<rparr>)))"
    using Cons.prems by simp
  from Cons.IH [OF this] ix show ?case
    by (simp add: bindE_ok on_store_ok)
qed

section \<open>Indexing a block\<close>

fun history_push :: "u32 \<Rightarrow> journal_record \<Rightarrow> (script_hash \<times> tx_entry list) list
    \<Rightarrow> (script_hash \<times> tx_entry list) list" where
  "history_push h (RHistory sh k t i) m =
     hm_push sh \<lparr>te_txid = t, te_height = h, te_sequence = i\<rparr> m"
| "history_push h r m = m"

text \<open>
  \<open>st'\<close> is \<open>st\<close> after the records \<open>rs\<close>, numbered from \<open>s\<close>, have been written: in the
  trees, in the journal cache and in the history cache.
\<close>

definition indexed ::
  "'t sled \<Rightarrow> u32 \<Rightarrow> u32 \<Rightarrow> journal_record list \<Rightarrow> 't index_state \<Rightarrow> 't index_state \<Rightarrow> bool" where
  "indexed S h s rs st st' \<longleftrightarrow>
     views S (store st') = run_records h s rs (views S (store st)) \<and>
     by_height st' = fold (hm_push h) (map (record_action h) (numbered s rs)) (by_height st) \<and>
     history st' = fold (history_push h) rs (history st) \<and>
     tip_height st' = tip_height st"

lemma numbered_Nil [simp]: "numbered s [] = []"
  by (simp add: numbered_def)

lemma numbered_Cons [simp]: "numbered s (r # rs) = (s, r) # numbered (s + 1) rs"
proof -
  have "enumerate (Suc 0) rs = map (\<lambda>(i, r). (Suc i, r)) (enumerate 0 rs)"
    by (rule nth_equalityI) (simp_all add: nth_enumerate_eq)
  then show ?thesis
    by (simp add: numbered_def comp_def case_prod_beta algebra_simps)
qed

lemma numbered_append: "numbered s (xs @ ys) = numbered s xs @ numbered (s + of_nat (length xs)) ys"
  by (induction xs arbitrary: s) (simp_all add: algebra_simps)

lemma run_records_append:
  "run_records h s (xs @ ys) v = run_records h (s + of_nat (length xs)) ys (run_records h s xs v)"
  by (simp add: run_records_def numbered_append)

lemma indexed_Nil: "indexed S h s [] st st"
  by (simp add: indexed_def run_records_def)

lemma indexed_append:
  assumes "indexed S h s xs st st'" and "indexed S h (s + of_nat (length xs)) ys st' st''"
  shows "indexed S h s (xs @ ys) st st''"
  using assms by (simp add: indexed_def run_records_append numbered_append)

lemma indexed_outputs_wf:
  "indexed S h s rs st st' \<Longrightarrow> outputs_wf (views S (store st)) \<Longrightarrow> outputs_wf (views S (store st'))"
  by (simp add: indexed_def)

lemma run_records_outputs:
  "v_outputs (run_records h s rs v) = outputs_after h (v_outputs v) rs"
proof (induction rs arbitrary: s v)
  case Nil
  then show ?case by (simp add: run_records_def)
next
  case (Cons r rs)
  have "run_records h s (r # rs) v = run_records h (s + 1) rs (do_record h (s, r) v)"
    by (simp add: run_records_def)
  then show ?case
    using Cons.IH
    by (cases r) (auto simp: do_record_def Let_def simp del: fun_upd_apply split: option.splits)
qed

lemma indexed_outputs:
  "indexed S h s rs st st' \<Longrightarrow>
     view S (ix_outputs (store st')) = outputs_after h (view S (ix_outputs (store st))) rs"
  using run_records_outputs [of h s rs "views S (store st)"] by (metis indexed_def views_simps(2))

text \<open>What indexing inputs and outputs leaves alone.\<close>

definition same_rest :: "'t index_state \<Rightarrow> 't index_state \<Rightarrow> bool" where
  "same_rest st st' \<longleftrightarrow>
     pending_txs st' = pending_txs st \<and> pending_outputs st' = pending_outputs st \<and>
     ix_txs (store st') = ix_txs (store st) \<and> ix_meta (store st') = ix_meta (store st)"

lemma same_rest_trans: "same_rest st st' \<Longrightarrow> same_rest st' st'' \<Longrightarrow> same_rest st st''"
  by (simp add: same_rest_def)

lemma same_rest_refl: "same_rest st st"
  by (simp add: same_rest_def)

lemma history_entry_key [simp]:
  "\<lparr>te_txid = t, te_height = h, te_sequence = i\<rparr>
     = \<lparr>te_txid = t', te_height = h', te_sequence = i'\<rparr> \<longleftrightarrow> t = t' \<and> h = h' \<and> i = i'"
  by simp

lemma apply_input_ok:
  assumes S: "sled_ok S" and wf: "outputs_wf (views S (store st))"
  shows "\<exists>st'. apply_input S B h t x s st
             = (Inr (s + of_nat (length (input_records B t (view S (ix_outputs (store st))) x))), st')
           \<and> indexed S h s (input_records B t (view S (ix_outputs (store st))) x) st st'
           \<and> same_rest st st'"
proof (cases "is_null B (previous_output (snd x))
    \<or> view S (ix_outputs (store st)) (outpoint_key (previous_output (snd x))) = None")
  case True
  then show ?thesis
    by (auto simp: apply_input_def input_records_def Let_def case_prod_beta monad_defs
        load_output_ok [OF S wf] indexed_Nil same_rest_refl)
next
  case False
  then obtain raw where "\<not> is_null B (previous_output (snd x))"
    and "view S (ix_outputs (store st)) (outpoint_key (previous_output (snd x))) = Some raw"
    by auto
  then show ?thesis
    using S
    by (auto simp: apply_input_def input_records_def Let_def case_prod_beta monad_defs
        load_output_ok [OF S wf] store_ok sled_simps on_store_def indexed_def same_rest_def
        push_history_def push_action_def views_def run_records_def do_record_def
        out_utxo_key_def outpoint_bytes_def algebra_simps)
qed

lemma apply_output_ok:
  assumes S: "sled_ok S"
  shows "\<exists>st'. apply_output S B h t x s st = (Inr (s + of_nat (length (output_records B t x))), st')
           \<and> indexed S h s (output_records B t x) st st' \<and> same_rest st st'"
  using S
  by (auto simp: apply_output_def output_records_def Let_def case_prod_beta monad_defs
      store_ok sled_simps on_store_def indexed_def same_rest_def
      push_history_def push_action_def views_def run_records_def do_record_def
      raw_output_def outpoint_bytes_def algebra_simps)

lemma apply_inputs_ok:
  assumes S: "sled_ok S" and "outputs_wf (views S (store st))"
    and "view S (ix_outputs (store st)) = O'"
  shows "\<exists>st'. foldE (apply_input S B h t) xs s st
             = (Inr (s + of_nat (length (concat (map (input_records B t O') xs)))), st')
           \<and> indexed S h s (concat (map (input_records B t O') xs)) st st' \<and> same_rest st st'"
  using assms(2,3)
proof (induction xs arbitrary: s st)
  case Nil
  show ?case by (simp add: returnE_def indexed_Nil same_rest_refl)
next
  case (Cons x xs)
  let ?rs = "input_records B t O' x"
  obtain st1 where st1: "apply_input S B h t x s st = (Inr (s + of_nat (length ?rs)), st1)"
    "indexed S h s ?rs st st1" "same_rest st st1"
    using apply_input_ok [OF S Cons.prems(1)] Cons.prems(2) by metis
  have "outputs_after h O' ?rs = O'"
    using input_records_outputs(1) [of h O' B t O' "[x]"] by simp
  then have "view S (ix_outputs (store st1)) = O'"
    using indexed_outputs [OF st1(2)] Cons.prems(2) by simp
  moreover have "outputs_wf (views S (store st1))"
    using indexed_outputs_wf st1(2) Cons.prems(1) by blast
  ultimately obtain st2 where
    "foldE (apply_input S B h t) xs (s + of_nat (length ?rs)) st1
       = (Inr (s + of_nat (length ?rs) + of_nat (length (concat (map (input_records B t O') xs)))), st2)"
    "indexed S h (s + of_nat (length ?rs)) (concat (map (input_records B t O') xs)) st1 st2"
    "same_rest st1 st2"
    using Cons.IH by blast
  then show ?case
    using st1 indexed_append same_rest_trans
    by (fastforce simp: bindE_ok add.assoc)
qed

lemma apply_outputs_ok:
  assumes S: "sled_ok S"
  shows "\<exists>st'. foldE (apply_output S B h t) xs s st
             = (Inr (s + of_nat (length (concat (map (output_records B t) xs)))), st')
           \<and> indexed S h s (concat (map (output_records B t) xs)) st st' \<and> same_rest st st'"
proof (induction xs arbitrary: s st)
  case Nil
  show ?case by (simp add: returnE_def indexed_Nil same_rest_refl)
next
  case (Cons x xs)
  let ?rs = "output_records B t x"
  obtain st1 where st1: "apply_output S B h t x s st = (Inr (s + of_nat (length ?rs)), st1)"
    "indexed S h s ?rs st st1" "same_rest st st1"
    using apply_output_ok [OF S] by metis
  obtain st2 where
    "foldE (apply_output S B h t) xs (s + of_nat (length ?rs)) st1
       = (Inr (s + of_nat (length ?rs) + of_nat (length (concat (map (output_records B t) xs)))), st2)"
    "indexed S h (s + of_nat (length ?rs)) (concat (map (output_records B t) xs)) st1 st2"
    "same_rest st1 st2"
    using Cons.IH by blast
  then show ?case
    using st1 indexed_append same_rest_trans
    by (fastforce simp: bindE_ok add.assoc)
qed

section \<open>Forgetting a pending transaction\<close>

definition pending_view_ok :: "bitcoin_lib \<Rightarrow> 't index_state \<Rightarrow> bool" where
  "pending_view_ok B st \<longleftrightarrow> pending_outputs st = pending_outputs (rebuild_pending_view B st)"

lemma rebuild_fields [simp]:
  "history (rebuild_pending_view B st) = history st"
  "by_height (rebuild_pending_view B st) = by_height st"
  "pending_txs (rebuild_pending_view B st) = pending_txs st"
  "tip_height (rebuild_pending_view B st) = tip_height st"
  "store (rebuild_pending_view B st) = store st"
  by (simp_all add: rebuild_pending_view_def)

lemma pending_spent_outpoints_cong:
  "pending_txs st = pending_txs st' \<Longrightarrow> pending_spent_outpoints B st = pending_spent_outpoints B st'"
  by (simp add: pending_spent_outpoints_def)

lemma pending_view_ok_rebuild [simp]: "pending_view_ok B (rebuild_pending_view B st)"
  unfolding pending_view_ok_def rebuild_pending_view_def
  by (simp add: pending_spent_outpoints_def)

lemma pending_view_ok_cong:
  "pending_txs st = pending_txs st' \<Longrightarrow> pending_outputs st = pending_outputs st' \<Longrightarrow>
     pending_view_ok B st \<longleftrightarrow> pending_view_ok B st'"
  unfolding pending_view_ok_def rebuild_pending_view_def
  by (simp add: pending_spent_outpoints_def)

text \<open>The trees that pending transactions never touch.\<close>

definition same_chain :: "'t pindex \<Rightarrow> 't pindex \<Rightarrow> bool" where
  "same_chain ix ix' \<longleftrightarrow>
     ix_history ix' = ix_history ix \<and> ix_outputs ix' = ix_outputs ix \<and>
     ix_utxos ix' = ix_utxos ix \<and> ix_journal ix' = ix_journal ix"

lemma same_chain_views: "same_chain ix ix' \<Longrightarrow> views S ix' = views S ix"
  by (simp add: same_chain_def views_def)

lemma delete_pending_txid_frame:
  "same_chain ix (snd (delete_pending_txid S t ix)) \<and> ix_txs (snd (delete_pending_txid S t ix)) = ix_txs ix"
  by (auto simp: delete_pending_txid_def monad_defs tree_insert_def same_chain_def
      split: sum.splits prod.splits)

lemma drop_pending_ok:
  "\<exists>ix. drop_pending S t st = (Inr (), st\<lparr>pending_txs := hm_remove t (pending_txs st), store := ix\<rparr>)
     \<and> same_chain (store st) ix \<and> ix_txs ix = ix_txs (store st)"
  using delete_pending_txid_frame [of "store st" S t]
  by (auto simp: drop_pending_def monad_defs on_store_def split: prod.splits)

lemma forget_pending_ok:
  "\<exists>ix. forget_pending_transaction_internal S B t st
       = (Inr (), rebuild_pending_view B
            (st\<lparr>pending_txs := hm_remove t (pending_txs st), store := ix\<rparr>))
     \<and> same_chain (store st) ix \<and> ix_txs ix = ix_txs (store st)"
  using drop_pending_ok [of S t st]
  by (auto simp: forget_pending_transaction_internal_def monad_defs)

section \<open>Connecting and disconnecting\<close>

lemma indexed_same_chain:
  assumes "indexed S h s rs st st'" and "same_chain (store st0) (store st)"
    and "by_height st = by_height st0" "history st = history st0" "tip_height st = tip_height st0"
  shows "indexed S h s rs st0 st'"
  using assms same_chain_views [OF assms(2)] by (simp add: indexed_def)

text \<open>The transactions of the index beside the records: what is pending, what is stored.\<close>

definition tx_settled :: "'t sled \<Rightarrow> bitcoin_lib \<Rightarrow> transaction list \<Rightarrow> 't index_state \<Rightarrow> 't index_state \<Rightarrow> bool" where
  "tx_settled S B txs st st' \<longleftrightarrow>
     pending_txs st' = fold (\<lambda>tx. hm_remove (compute_txid B tx)) txs (pending_txs st) \<and>
     (pending_view_ok B st \<or> txs \<noteq> [] \<longrightarrow> pending_view_ok B st') \<and>
     view S (ix_txs (store st'))
       = fold (\<lambda>tx m. m(arr32 (compute_txid B tx) \<mapsto> serialize_tx B tx)) txs (view S (ix_txs (store st)))"

lemma apply_tx_ok:
  assumes S: "sled_ok S" and wf: "outputs_wf (views S (store st))"
  shows "\<exists>st'. apply_tx S B h tx s st
             = (Inr (s + of_nat (length (tx_records B (view S (ix_outputs (store st))) tx))), st')
           \<and> indexed S h s (tx_records B (view S (ix_outputs (store st))) tx) st st'
           \<and> tx_settled S B [tx] st st'"
proof -
  let ?t = "compute_txid B tx" and ?O = "view S (ix_outputs (store st))"
  let ?ins = "concat (map (input_records B ?t ?O) (enumerate 0 (tx_input tx)))"
  let ?outs = "concat (map (output_records B ?t) (enumerate 0 (tx_output tx)))"
  obtain ix where ix: "forget_pending_transaction_internal S B ?t st
       = (Inr (), rebuild_pending_view B
            (st\<lparr>pending_txs := hm_remove ?t (pending_txs st), store := ix\<rparr>))"
    "same_chain (store st) ix" "ix_txs ix = ix_txs (store st)"
    using forget_pending_ok by blast
  let ?st1 = "rebuild_pending_view B
      (st\<lparr>pending_txs := hm_remove ?t (pending_txs st), store := ix\<rparr>)"
  let ?st2 = "push_action h (ATx ?t (journal_key h s)) (?st1\<lparr>store := ix\<lparr>
      ix_txs := ins S (arr32 ?t) (serialize_tx B tx) (ix_txs ix),
      ix_journal := ins S (journal_key h s) (journal_kind_u8 JTx # arr32 ?t) (ix_journal ix)\<rparr>\<rparr>)"
  have head: "indexed S h s [RTx ?t] st ?st2"
    using S ix(2) by (simp add: indexed_def run_records_def do_record_def views_def sled_simps
        push_action_def same_chain_def Let_def)
  have wf2: "outputs_wf (views S (store ?st2))"
    using indexed_outputs_wf [OF head wf] .
  have "view S (ix_outputs (store ?st2)) = ?O"
    using ix(2) by (simp add: push_action_def same_chain_def)
  then obtain st3 where st3:
    "foldE (apply_input S B h ?t) (enumerate 0 (tx_input tx)) (s + 1) ?st2
       = (Inr (s + 1 + of_nat (length ?ins)), st3)"
    "indexed S h (s + 1) ?ins ?st2 st3" "same_rest ?st2 st3"
    using apply_inputs_ok [OF S wf2] by blast
  obtain st4 where st4:
    "foldE (apply_output S B h ?t) (enumerate 0 (tx_output tx)) (s + 1 + of_nat (length ?ins)) st3
       = (Inr (s + 1 + of_nat (length ?ins) + of_nat (length ?outs)), st4)"
    "indexed S h (s + 1 + of_nat (length ?ins)) ?outs st3 st4" "same_rest st3 st4"
    using apply_outputs_ok [OF S] by blast
  have run: "apply_tx S B h tx s st
      = (Inr (s + of_nat (length (tx_records B ?O tx))), st4)"
    using S ix(1) st3(1) st4(1)
    by (simp add: apply_tx_def Let_def bindE_def modifyE_def on_store_def zoomE_def store_ok
        push_action_def tx_records_def add.assoc)
  have "indexed S h s ([RTx ?t] @ ?ins @ ?outs) st st4"
    using indexed_append [OF head] indexed_append [OF st3(2)] st4(2) by (simp add: add.assoc)
  then have records: "indexed S h s (tx_records B ?O tx) st st4"
    by (simp add: tx_records_def Let_def)
  have rest: "same_rest ?st2 st4" using st3(3) st4(3) by (rule same_rest_trans)
  have "pending_view_ok B ?st2"
    by (subst pending_view_ok_cong [of _ ?st1]) (simp_all add: push_action_def)
  then have "pending_view_ok B st4"
    using rest by (subst pending_view_ok_cong [of _ ?st2]) (simp_all add: same_rest_def)
  then have "tx_settled S B [tx] st st4"
    using rest S ix(3) by (simp add: tx_settled_def same_rest_def push_action_def sled_simps)
  with run records show ?thesis by blast
qed

lemma tx_settled_append:
  "tx_settled S B [tx] st st' \<Longrightarrow> tx_settled S B txs st' st'' \<Longrightarrow> tx_settled S B (tx # txs) st st''"
  by (auto simp: tx_settled_def)

lemma apply_txs_ok:
  assumes S: "sled_ok S" and "outputs_wf (views S (store st))"
  shows "\<exists>st'. foldE (apply_tx S B h) txs s st
             = (Inr (s + of_nat (length (block_records B h (view S (ix_outputs (store st))) txs))), st')
           \<and> indexed S h s (block_records B h (view S (ix_outputs (store st))) txs) st st'
           \<and> tx_settled S B txs st st'"
  using assms(2)
proof (induction txs arbitrary: s st)
  case Nil
  show ?case by (simp add: returnE_def indexed_Nil tx_settled_def)
next
  case (Cons tx txs)
  let ?rs = "tx_records B (view S (ix_outputs (store st))) tx"
  obtain st1 where st1: "apply_tx S B h tx s st = (Inr (s + of_nat (length ?rs)), st1)"
    "indexed S h s ?rs st st1" "tx_settled S B [tx] st st1"
    using apply_tx_ok [OF S Cons.prems] by blast
  have outs: "view S (ix_outputs (store st1)) = add_outputs B h tx (view S (ix_outputs (store st)))"
    using indexed_outputs [OF st1(2)] by simp
  obtain st2 where st2:
    "foldE (apply_tx S B h) txs (s + of_nat (length ?rs)) st1
       = (Inr (s + of_nat (length ?rs)
            + of_nat (length (block_records B h (view S (ix_outputs (store st1))) txs))), st2)"
    "indexed S h (s + of_nat (length ?rs))
       (block_records B h (view S (ix_outputs (store st1))) txs) st1 st2"
    "tx_settled S B txs st1 st2"
    using Cons.IH [OF indexed_outputs_wf [OF st1(2) Cons.prems]] by blast
  show ?case
    using st1(1) st2(1) indexed_append [OF st1(2) st2(2)] tx_settled_append [OF st1(3) st2(3)]
    by (intro exI [of _ st2]) (simp add: bindE_ok outs add.assoc)
qed

lemma tip_written:
  assumes "sled_ok S"
  shows "pindex_tip_height S (ix\<lparr>ix_meta := ins S TIP_HEIGHT_KEY (u32_be h) m\<rparr>) = h"
  using assms by (simp add: pindex_tip_height_def sled_simps from_be_be_bytes)

lemma apply_block_ok:
  assumes S: "sled_ok S" and wf: "outputs_wf (views S (store st))"
  shows "\<exists>st'. apply_block S B blk h st = (Inr (), st')
           \<and> views S (store st')
               = run_records h 0 (block_records B h (view S (ix_outputs (store st))) (txdata blk))
                   (views S (store st))
           \<and> by_height st' = fold (hm_push h)
               (map (record_action h)
                 (numbered 0 (block_records B h (view S (ix_outputs (store st))) (txdata blk))))
               (by_height st)
           \<and> history st' = fold (history_push h)
               (block_records B h (view S (ix_outputs (store st))) (txdata blk)) (history st)
           \<and> tip_height st' = h \<and> pindex_tip_height S (store st') = h
           \<and> tx_settled S B (txdata blk) st st'"
proof -
  let ?rs = "block_records B h (view S (ix_outputs (store st))) (txdata blk)"
  obtain st1 where st1: "foldE (apply_tx S B h) (txdata blk) 0 st
      = (Inr (0 + of_nat (length ?rs)), st1)"
    "indexed S h 0 ?rs st st1" "tx_settled S B (txdata blk) st st1"
    using apply_txs_ok [OF S wf] by blast
  let ?ix = "(store st1)\<lparr>ix_meta := ins S TIP_HEIGHT_KEY (u32_be h) (ix_meta (store st1))\<rparr>"
  let ?st2 = "st1\<lparr>tip_height := h, store := ?ix\<rparr>"
  have "apply_block S B blk h st = (Inr (), ?st2)"
    using st1(1) S
    by (simp add: apply_block_def bindE_def modifyE_def on_store_def zoomE_def store_ok)
  moreover have "tx_settled S B (txdata blk) st ?st2"
    using st1(3) pending_view_ok_cong [of ?st2 st1 B] by (simp add: tx_settled_def)
  ultimately show ?thesis
    using st1(2) S by (intro exI [of _ ?st2]) (simp add: indexed_def tip_written)
qed

lemma retain_history_push [simp]:
  "te_height e = h \<Longrightarrow> retain_history h (hm_push sh e m) = retain_history h m"
  unfolding retain_history_def hm_push_def
  by (induction m) (auto split: if_splits)

lemma retain_history_pushes: "retain_history h (fold (history_push h) rs m) = retain_history h m"
proof (induction rs arbitrary: m)
  case (Cons r rs)
  then show ?case by (cases r) simp_all
qed simp

lemma retain_history_id:
  "\<forall>(sh, es) \<in> set m. es \<noteq> [] \<and> (\<forall>e \<in> set es. te_height e \<noteq> h) \<Longrightarrow> retain_history h m = m"
  unfolding retain_history_def
  by (induction m) (auto simp: filter_id_conv)

lemma by_height_pushes:
  "map_of (fold (hm_push h) as m) h
     = (case map_of m h of
          None \<Rightarrow> (if as = [] then None else Some as)
        | Some bs \<Rightarrow> Some (bs @ as))"
  by (induction as arbitrary: m) (auto split: option.splits)

lemma by_height_removed: "hm_remove h (fold (hm_push h) as m) = hm_remove h m"
  by (induction as arbitrary: m) (simp_all add: hm_remove_def hm_push_def delete_update_same)

lemma hm_remove_id: "map_of m h = None \<Longrightarrow> hm_remove h m = m"
  by (simp add: hm_remove_def map_of_eq_None_iff delete_id)

lemma rollback_tip_ok:
  assumes "sled_ok S"
  shows "\<exists>ix. rollback_tip S h st
           = (Inr (), st\<lparr>tip_height := (if tip_height st = h then saturating_sub h 1 else tip_height st),
                         store := ix\<rparr>)
         \<and> views S ix = views S (store st) \<and> ix_txs ix = ix_txs (store st)
         \<and> pindex_tip_height S ix
             = (if tip_height st = h then saturating_sub h 1 else pindex_tip_height S (store st))
         \<and> load_pending_txids S ix = load_pending_txids S (store st)"
proof (cases "tip_height st = h")
  case True
  let ?ix = "(store st)\<lparr>ix_meta := ins S TIP_HEIGHT_KEY (u32_be (saturating_sub h 1))
      (ix_meta (store st))\<rparr>"
  from True assms show ?thesis
    by (intro exI [of _ ?ix])
      (simp add: rollback_tip_def monad_defs on_store_def store_ok tip_written load_pending_txids_def
        sled_simps)
next
  case False
  then show ?thesis
    by (intro exI [of _ "store st"]) (simp add: rollback_tip_def monad_defs)
qed

lemma rollback_height_ok:
  assumes S: "sled_ok S" and wf: "outputs_wf (views S (store st))"
    and acts: "map_of (by_height st) h = Some as"
  shows "\<exists>st'. rollback_height S B h st = (Inr (), st')
           \<and> views S (store st') = fold undo_action (rev as) (views S (store st))
           \<and> by_height st' = hm_remove h (by_height st)
           \<and> history st' = retain_history h (history st)
           \<and> pending_txs st' = pending_txs st \<and> pending_view_ok B st'
           \<and> view S (ix_txs (store st')) = fold undone_txs (rev as) (view S (ix_txs (store st)))
           \<and> tip_height st' = (if tip_height st = h then saturating_sub h 1 else tip_height st)
           \<and> pindex_tip_height S (store st')
               = (if tip_height st = h then saturating_sub h 1 else pindex_tip_height S (store st))
           \<and> load_pending_txids S (store st') = load_pending_txids S (store st)"
proof -
  let ?st0 = "st\<lparr>by_height := hm_remove h (by_height st)\<rparr>"
  have "outputs_wf (views S (store ?st0))" using wf by simp
  then obtain ix where ix: "foldE (\<lambda>a _. on_store (rollback_action S a)) (rev as) () ?st0
      = (Inr (), ?st0\<lparr>store := ix\<rparr>)"
    "views S ix = fold undo_action (rev as) (views S (store st))"
    "view S (ix_txs ix) = fold undone_txs (rev as) (view S (ix_txs (store st)))"
    "ix_meta ix = ix_meta (store st)"
    using rollback_actions_ok [OF S, of ?st0 "rev as"] by auto
  let ?st1 = "rebuild_pending_view B (?st0\<lparr>store := ix, history := retain_history h (history st)\<rparr>)"
  obtain ix' where ix': "rollback_tip S h ?st1
      = (Inr (), ?st1\<lparr>tip_height := (if tip_height ?st1 = h then saturating_sub h 1 else tip_height ?st1),
                      store := ix'\<rparr>)"
    "views S ix' = views S (store ?st1)" "ix_txs ix' = ix_txs (store ?st1)"
    "pindex_tip_height S ix' = (if tip_height ?st1 = h then saturating_sub h 1
       else pindex_tip_height S (store ?st1))"
    "load_pending_txids S ix' = load_pending_txids S (store ?st1)"
    using rollback_tip_ok [OF S, of h ?st1] by blast
  have meta: "pindex_tip_height S ix = pindex_tip_height S (store st)"
    "load_pending_txids S ix = load_pending_txids S (store st)"
    using ix(4) by (simp_all add: pindex_tip_height_def load_pending_txids_def)
  let ?st2 = "?st1\<lparr>tip_height := (if tip_height ?st1 = h then saturating_sub h 1 else tip_height ?st1),
                   store := ix'\<rparr>"
  have "rollback_height S B h st = (Inr (), ?st2)"
    using acts ix(1) ix'(1) by (simp add: rollback_height_def bindE_def modifyE_def)
  moreover have "pending_view_ok B ?st2"
    by (subst pending_view_ok_cong [of _ ?st1]) simp_all
  ultimately show ?thesis
    using ix(2,3) ix'(2-5) meta by (intro exI [of _ ?st2]) simp
qed

section \<open>A disconnected block leaves no trace\<close>

text \<open>The caches agree that nothing is indexed at a height.\<close>

definition height_unused :: "u32 \<Rightarrow> 't index_state \<Rightarrow> bool" where
  "height_unused h st \<longleftrightarrow>
     map_of (by_height st) h = None \<and>
     (\<forall>(sh, es) \<in> set (history st). es \<noteq> [] \<and> (\<forall>e \<in> set es. te_height e \<noteq> h))"

text \<open>What a rollback has to restore: the trees but that of the raw transactions, and the caches.\<close>

definition same_index :: "'t sled \<Rightarrow> 't index_state \<Rightarrow> 't index_state \<Rightarrow> bool" where
  "same_index S st st' \<longleftrightarrow> views S (store st) = views S (store st')
     \<and> history st = history st' \<and> by_height st = by_height st'"

lemma same_index_refl [simp]: "same_index S st st"
  by (simp add: same_index_def)

lemma disconnect_connected:
  assumes S: "sled_ok S" and wf: "outputs_wf (views S (store st))"
    and fresh: "fresh_block B h (txdata blk) (views S (store st))" and unused: "height_unused h st"
    and st1: "apply_block S B blk h st = (Inr (), st1)"
    and same: "same_index S st2 st1"
  shows "\<exists>st3. rollback_height S B h st2 = (Inr (), st3) \<and> same_index S st3 st"
proof -
  let ?rs = "block_records B h (view S (ix_outputs (store st))) (txdata blk)"
  let ?as = "map (record_action h) (numbered 0 ?rs)"
  have st2: "views S (store st2) = run_records h 0 ?rs (views S (store st))"
    "by_height st2 = fold (hm_push h) ?as (by_height st)"
    "history st2 = fold (history_push h) ?rs (history st)"
    using apply_block_ok [OF S wf, of B blk h] st1 same by (auto simp: same_index_def)
  have hist: "retain_history h (history st2) = history st"
    using unused st2(3) by (simp add: retain_history_pushes retain_history_id height_unused_def)
  have free: "map_of (by_height st) h = None" using unused by (simp add: height_unused_def)
  show ?thesis
  proof (cases "?as = []")
    case True
    then have none: "?rs = []" by (metis map_is_Nil_conv numbered_records)
    obtain ix where "rollback_tip S h st2 = (Inr (), st2\<lparr>tip_height :=
        (if tip_height st2 = h then saturating_sub h 1 else tip_height st2), store := ix\<rparr>)"
      "views S ix = views S (store st2)"
      using rollback_tip_ok [OF S, of h st2] by blast
    then show ?thesis
      using free st2 unfolding none
      by (simp add: rollback_height_def bindE_def returnE_def same_index_def run_records_def)
  next
    case False
    then have "map_of (by_height st2) h = Some ?as"
      using free by (simp add: st2(2) by_height_pushes)
    moreover have "outputs_wf (views S (store st2))" using wf st2(1) by simp
    ultimately obtain st3 where st3: "rollback_height S B h st2 = (Inr (), st3)"
      "views S (store st3) = fold undo_action (rev ?as) (views S (store st2))"
      "by_height st3 = hm_remove h (by_height st2)" "history st3 = retain_history h (history st2)"
      using rollback_height_ok [OF S, of st2 h ?as B] by blast
    have "views S (store st3) = views S (store st)"
      using undo_block_records [OF fresh, of 0] by (simp add: st3(2) st2(1) undo_records_def)
    moreover have "by_height st3 = by_height st"
      by (simp add: st3(3) st2(2) by_height_removed hm_remove_id free)
    ultimately show ?thesis using st3(1,4) hist by (simp add: same_index_def)
  qed
qed

end
