(* ===== verification/Queries.thy ===== *)
theory Queries
  imports IndexState
begin

text \<open>
  \<open>src/indexer.rs\<close>: the read-only queries over the confirmed index and the pending view:
  history, mempool entries, balances, unspent outputs and the fee histogram.
\<close>

definition pending_tx_touches_script ::
  "'t sled \<Rightarrow> bitcoin_lib \<Rightarrow> transaction \<Rightarrow> script_hash \<Rightarrow> 't index_state \<Rightarrow> bool" where
  "pending_tx_touches_script S B tx sh st \<longleftrightarrow>
     list_ex (\<lambda>i. \<not> is_null B (previous_output i)
        \<and> ok_flatten (script_hash_for_outpoint S B (previous_output i) st) = Some sh) (tx_input tx)
     \<or> list_ex (\<lambda>out. output_script B out = sh) (tx_output tx)"

definition pending_history_for_script ::
  "'t sled \<Rightarrow> bitcoin_lib \<Rightarrow> script_hash \<Rightarrow> 't index_state \<Rightarrow> tx_entry list" where
  "pending_history_for_script S B sh st =
     map (\<lambda>tx. \<lparr>te_txid = compute_txid B tx, te_height = 0, te_sequence = 0\<rparr>)
       (filter (\<lambda>tx. pending_tx_touches_script S B tx sh st) (map snd (pending_txs st)))"

text \<open>
  The input loop of \<open>pending_mempool_for_script\<close>: the accumulator holds \<open>input_value\<close>,
  \<open>has_unconfirmed_input\<close> and \<open>seen_spends\<close>.
\<close>

definition mempool_input ::
  "'t sled \<Rightarrow> bitcoin_lib \<Rightarrow> 't index_state \<Rightarrow> txin \<Rightarrow> u64 \<times> bool \<times> outpoint list
     \<Rightarrow> error + u64 \<times> bool \<times> outpoint list" where
  "mempool_input S B st i acc =
     (case acc of (input_value, unconfirmed, seen) \<Rightarrow>
        let prevout = previous_output i in
        if is_null B prevout \<or> prevout \<in> set seen then Inr acc
        else bindR (load_output S prevout (store st)) (\<lambda>r.
          case r of
            Some out \<Rightarrow> Inr (saturating_add input_value (so_value out), unconfirmed, prevout # seen)
          | None \<Rightarrow>
              (case pending_output_for_outpoint B prevout st of
                 Some out \<Rightarrow> Inr (saturating_add input_value (so_value out), True, prevout # seen)
               | None \<Rightarrow> Inr (input_value, True, prevout # seen))))"

definition total_output_value :: "transaction \<Rightarrow> u64" where
  "total_output_value tx =
     fold (\<lambda>out acc. saturating_add acc (tx_value out)) (tx_output tx) 0"

definition pending_mempool_for_script ::
  "'t sled \<Rightarrow> bitcoin_lib \<Rightarrow> script_hash \<Rightarrow> 't index_state \<Rightarrow> error + mempool_entry list" where
  "pending_mempool_for_script S B sh st =
     bindR
       (foldR (\<lambda>tx out.
          if \<not> pending_tx_touches_script S B tx sh st then Inr out
          else bindR (foldR (mempool_input S B st) (tx_input tx) (0, False, []))
                 (\<lambda>(input_value, unconfirmed, _).
                    Inr (out @ [\<lparr>me_txid = compute_txid B tx,
                                 me_height = (if unconfirmed then - 1 else 0),
                                 me_fee = saturating_sub input_value (total_output_value tx)\<rparr>])))
          (map snd (pending_txs st)) [])
       (\<lambda>out. Inr (sort_key (\<lambda>e. txid_to_string B (me_txid e)) out))"

text \<open>\<open>delta\<close> is an \<open>i64\<close>: 64 bits read as two's complement, with wrapping updates.\<close>

definition delta_input ::
  "'t sled \<Rightarrow> bitcoin_lib \<Rightarrow> script_hash \<Rightarrow> 't index_state \<Rightarrow> txin \<Rightarrow> i64 \<times> outpoint list
     \<Rightarrow> error + i64 \<times> outpoint list" where
  "delta_input S B sh st i acc =
     (case acc of (delta, seen) \<Rightarrow>
        let prevout = previous_output i in
        if is_null B prevout \<or> prevout \<in> set seen then Inr acc
        else bindR (script_hash_for_outpoint S B prevout st) (\<lambda>r.
          if r = Some sh
          then bindR (load_output S prevout (store st)) (\<lambda>stored.
            let val = (case (case stored of None \<Rightarrow> pending_output_for_outpoint B prevout st
                             | Some out \<Rightarrow> Some out) of
                         None \<Rightarrow> 0 | Some out \<Rightarrow> so_value out)
            in Inr (delta - val, prevout # seen))
          else Inr (delta, prevout # seen)))"

definition unconfirmed_balance_delta_for_script ::
  "'t sled \<Rightarrow> bitcoin_lib \<Rightarrow> script_hash \<Rightarrow> 't index_state \<Rightarrow> error + i64" where
  "unconfirmed_balance_delta_for_script S B sh st =
     bindR (foldR (\<lambda>tx. foldR (delta_input S B sh st) (tx_input tx))
              (map snd (pending_txs st)) (0, [])) (\<lambda>(delta, _).
       Inr (fold (\<lambda>out d. if so_script_hash out = sh then d + so_value out else d)
              (map snd (pending_outputs st)) delta))"

definition get_history ::
  "'t sled \<Rightarrow> bitcoin_lib \<Rightarrow> script_hash \<Rightarrow> 't index_state \<Rightarrow> tx_entry list" where
  "get_history S B sh st =
     sort_key (\<lambda>e. (confirmed_first (te_height e), te_sequence e, txid_to_string B (te_txid e)))
       ((case map_of (history st) sh of None \<Rightarrow> [] | Some es \<Rightarrow> es)
          @ pending_history_for_script S B sh st)"

definition has_history :: "script_hash \<Rightarrow> 't index_state \<Rightarrow> bool" where
  "has_history sh st = (map_of (history st) sh \<noteq> None)"

definition get_transaction ::
  "'t sled \<Rightarrow> bitcoin_lib \<Rightarrow> txid \<Rightarrow> 't index_state \<Rightarrow> error + transaction option" where
  "get_transaction S B t st = load_tx S B t (store st)"

definition store_transaction ::
  "'t sled \<Rightarrow> bitcoin_lib \<Rightarrow> transaction \<Rightarrow> 't index_state \<Rightarrow> (error + unit) \<times> 't index_state" where
  "store_transaction S B tx = on_store (store_tx S B tx)"

definition get_balance :: "'t sled \<Rightarrow> script_hash \<Rightarrow> 't index_state \<Rightarrow> error + u64" where
  "get_balance S sh st = balance_for_script S sh (store st)"

definition get_unconfirmed_balance_delta ::
  "'t sled \<Rightarrow> bitcoin_lib \<Rightarrow> script_hash \<Rightarrow> 't index_state \<Rightarrow> error + i64" where
  "get_unconfirmed_balance_delta = unconfirmed_balance_delta_for_script"

definition mempool ::
  "'t sled \<Rightarrow> bitcoin_lib \<Rightarrow> script_hash \<Rightarrow> 't index_state \<Rightarrow> error + mempool_entry list" where
  "mempool = pending_mempool_for_script"

text \<open>
  The input loop of \<open>fee_histogram\<close> stops at the first unknown previous output, with
  \<open>fee_known\<close> false. A \<open>BTreeMap\<close> is a list of entries in increasing key order.
\<close>

fun histogram_inputs ::
  "'t sled \<Rightarrow> bitcoin_lib \<Rightarrow> 't index_state \<Rightarrow> txin list \<Rightarrow> u64 \<Rightarrow> outpoint list
     \<Rightarrow> error + u64 option" where
  "histogram_inputs S B st [] input_value seen = Inr (Some input_value)"
| "histogram_inputs S B st (i # is) input_value seen =
     (let prevout = previous_output i in
      if is_null B prevout \<or> prevout \<in> set seen then histogram_inputs S B st is input_value seen
      else bindR (load_output S prevout (store st)) (\<lambda>r.
        case r of
          Some out \<Rightarrow>
            histogram_inputs S B st is (saturating_add input_value (so_value out)) (prevout # seen)
        | None \<Rightarrow>
            (case pending_output_for_outpoint B prevout st of
               Some out \<Rightarrow>
                 histogram_inputs S B st is (saturating_add input_value (so_value out)) (prevout # seen)
             | None \<Rightarrow> Inr None)))"

fun btree_add :: "u64 \<Rightarrow> u64 \<Rightarrow> (u64 \<times> u64) list \<Rightarrow> (u64 \<times> u64) list" where
  "btree_add k v [] = [(k, 0 + v)]"
| "btree_add k v ((k', v') # m) =
     (if k < k' then (k, 0 + v) # (k', v') # m
      else if k = k' then (k', v' + v) # m
      else (k', v') # btree_add k v m)"

definition histogram_tx ::
  "'t sled \<Rightarrow> bitcoin_lib \<Rightarrow> 't index_state \<Rightarrow> transaction \<Rightarrow> (u64 \<times> u64) list
     \<Rightarrow> error + (u64 \<times> u64) list" where
  "histogram_tx S B st tx buckets =
     bindR (histogram_inputs S B st (tx_input tx) 0 []) (\<lambda>r.
       case r of
         None \<Rightarrow> Inr buckets
       | Some input_value \<Rightarrow>
           let fee_sats = saturating_sub input_value (total_output_value tx);
               vsize = (tx_weight B tx + 3) div 4;
               fee_rate = fee_sats div (max vsize 1)
           in if fee_sats = 0 then Inr buckets
              else if fee_rate = 0 then Inr buckets
              else Inr (btree_add fee_rate vsize buckets))"

definition fee_histogram ::
  "'t sled \<Rightarrow> bitcoin_lib \<Rightarrow> 't index_state \<Rightarrow> error + (u64 \<times> u64) list" where
  "fee_histogram S B st =
     bindR (foldR (histogram_tx S B st) (map snd (pending_txs st)) []) (\<lambda>buckets.
       Inr (sort_desc fst buckets))"

definition pending_unspent_for_script ::
  "script_hash \<Rightarrow> 't index_state \<Rightarrow> stored_unspent list" where
  "pending_unspent_for_script sh st =
     map (\<lambda>out. \<lparr>su_txid = so_txid out, su_vout = so_vout out, su_value = so_value out,
                 su_height = so_height out\<rparr>)
       (filter (\<lambda>out. so_script_hash out = sh) (map snd (pending_outputs st)))"

definition confirmed_unspent ::
  "'t sled \<Rightarrow> script_hash \<Rightarrow> 't index_state \<Rightarrow> error + stored_unspent list" where
  "confirmed_unspent S sh st = list_unspent_for_script S sh (store st)"

definition list_unspent ::
  "'t sled \<Rightarrow> bitcoin_lib \<Rightarrow> script_hash \<Rightarrow> 't index_state \<Rightarrow> error + stored_unspent list" where
  "list_unspent S B sh st =
     bindR (confirmed_unspent S sh st) (\<lambda>confirmed.
       Inr (dedup_by_key (\<lambda>e. (su_txid e, su_vout e))
         (sort_key (\<lambda>e. (su_height e, txid_to_string B (su_txid e), su_vout e))
           (filter (\<lambda>e. \<lparr>op_txid = su_txid e, op_vout = su_vout e\<rparr>
                        \<notin> set (pending_spent_outpoints B st)) confirmed
            @ pending_unspent_for_script sh st))))"

end
