(* ===== verification/Metrics.thy ===== *)
theory Metrics
  imports Prelude
begin

text \<open>
  \<open>src/metrics.rs\<close>: five shared 64-bit counters. \<open>fetch_add\<close> and \<open>fetch_sub\<close> wrap around.
\<close>

record metrics =
  m_blocks_indexed :: u64
  m_blocks_rolled_back :: u64
  m_electrum_connections :: u64
  m_electrum_requests :: u64
  m_transactions_broadcast :: u64

definition new_metrics :: metrics where
  "new_metrics = \<lparr>m_blocks_indexed = 0, m_blocks_rolled_back = 0, m_electrum_connections = 0,
                  m_electrum_requests = 0, m_transactions_broadcast = 0\<rparr>"

definition inc_blocks_indexed :: "metrics \<Rightarrow> metrics" where
  "inc_blocks_indexed m = m\<lparr>m_blocks_indexed := m_blocks_indexed m + 1\<rparr>"

definition inc_blocks_rolled_back :: "metrics \<Rightarrow> metrics" where
  "inc_blocks_rolled_back m = m\<lparr>m_blocks_rolled_back := m_blocks_rolled_back m + 1\<rparr>"

definition inc_electrum_connections :: "metrics \<Rightarrow> metrics" where
  "inc_electrum_connections m = m\<lparr>m_electrum_connections := m_electrum_connections m + 1\<rparr>"

definition dec_electrum_connections :: "metrics \<Rightarrow> metrics" where
  "dec_electrum_connections m = m\<lparr>m_electrum_connections := m_electrum_connections m - 1\<rparr>"

definition inc_electrum_requests :: "metrics \<Rightarrow> metrics" where
  "inc_electrum_requests m = m\<lparr>m_electrum_requests := m_electrum_requests m + 1\<rparr>"

definition inc_transactions_broadcast :: "metrics \<Rightarrow> metrics" where
  "inc_transactions_broadcast m = m\<lparr>m_transactions_broadcast := m_transactions_broadcast m + 1\<rparr>"

lemmas metric_defs =
  new_metrics_def inc_blocks_indexed_def inc_blocks_rolled_back_def inc_electrum_connections_def
  dec_electrum_connections_def inc_electrum_requests_def inc_transactions_broadcast_def

lemma connections_balance [simp]:
  "dec_electrum_connections (inc_electrum_connections m) = m"
  "m_electrum_connections (inc_electrum_requests m) = m_electrum_connections m"
  by (simp_all add: metric_defs)

end
