(* ===== verification/Indexer.thy ===== *)
theory Indexer
  imports ChainIndex Queries Metrics
begin

text \<open>
  \<open>src/indexer.rs\<close>: opening the index, the public operations of \<open>Indexer\<close> and its event
  loop. The state is behind a read-write lock, so each public operation is one atomic step.
\<close>

section \<open>Startup\<close>

definition load_history_from_store ::
  "'t sled \<Rightarrow> 't index_state \<Rightarrow> (error + unit) \<times> 't index_state" where
  "load_history_from_store S =
     bindE (readE (\<lambda>st. load_history_entries S (store st))) (\<lambda>entries.
       modifyE (\<lambda>st. fold (\<lambda>e. push_history (sh_script_hash e)
           \<lparr>te_txid = sh_txid e, te_height = sh_height e, te_sequence = sh_sequence e\<rparr>) entries st))"

definition load_action :: "stored_journal_action \<Rightarrow> error + block_action" where
  "load_action a =
     (case ja_kind a of
        JTx \<Rightarrow> bindR (parse_txid (ja_payload a)) (\<lambda>t. Inr (ATx t (ja_journal_key a)))
      | JHistory \<Rightarrow> Inr (AHistory (ja_payload a) (ja_journal_key a))
      | JOutput \<Rightarrow> bindR (parse_outpoint (ja_payload a)) (\<lambda>p. Inr (AOutput p (ja_journal_key a)))
      | JSpend \<Rightarrow> bindR (parse_outpoint (ja_payload a)) (\<lambda>p. Inr (ASpend p (ja_journal_key a))))"

definition confirmed_by :: "block_action \<Rightarrow> txid list" where
  "confirmed_by a = (case a of ATx t _ \<Rightarrow> [t] | _ \<Rightarrow> [])"

definition load_journal_from_store ::
  "'t sled \<Rightarrow> 't index_state \<Rightarrow> (error + txid list) \<times> 't index_state" where
  "load_journal_from_store S =
     bindE (readE (\<lambda>st. load_journal_actions S (store st))) (\<lambda>stored.
     bindE (foldE (\<lambda>a confirmed.
              bindE (readE (\<lambda>_. load_action a)) (\<lambda>entry.
              bindE (modifyE (push_action (ja_height a) entry)) (\<lambda>_.
                returnE (List.union confirmed (confirmed_by entry))))) stored []) (\<lambda>confirmed.
     bindE (modifyE (\<lambda>st. st\<lparr>by_height :=
              map (\<lambda>(h, as). (h, sort_key action_sequence as)) (by_height st)\<rparr>)) (\<lambda>_.
       returnE confirmed)))"

definition load_pending_from_store ::
  "'t sled \<Rightarrow> bitcoin_lib \<Rightarrow> txid list \<Rightarrow> 't index_state \<Rightarrow> (error + unit) \<times> 't index_state" where
  "load_pending_from_store S B confirmed =
     bindE (readE (\<lambda>st. load_pending_txids S (store st))) (\<lambda>txids.
       foldE (\<lambda>t _.
         if t \<in> set confirmed then returnE ()
         else bindE (readE (\<lambda>st. load_tx S B t (store st))) (\<lambda>r.
           case r of
             None \<Rightarrow> returnE ()
           | Some tx \<Rightarrow> modifyE (\<lambda>st. st\<lparr>pending_txs := hm_insert t tx (pending_txs st)\<rparr>)))
         txids ())"

text \<open>\<open>IndexState::new\<close>, from the opened store on; the result of \<open>open_index\<close> is its argument.\<close>

definition empty_state :: "'t sled \<Rightarrow> 't pindex \<Rightarrow> 't index_state" where
  "empty_state S ix =
     \<lparr>history = [], by_height = [], pending_txs = [], pending_outputs = [],
      tip_height = pindex_tip_height S ix, store = ix\<rparr>"

definition new_index_state ::
  "'t sled \<Rightarrow> bitcoin_lib \<Rightarrow> error + 't pindex \<Rightarrow> error + 't index_state" where
  "new_index_state S B opened =
     bindR opened (\<lambda>ix.
       case bindE (load_history_from_store S) (\<lambda>_.
            bindE (load_journal_from_store S) (\<lambda>confirmed.
            bindE (load_pending_from_store S B confirmed) (\<lambda>_.
              modifyE (rebuild_pending_view B)))) (empty_state S ix) of
         (Inl e, _) \<Rightarrow> Inl e
       | (Inr _, st) \<Rightarrow> Inr st)"

section \<open>Public operations on pending transactions\<close>

definition forget_pending_transaction ::
  "'t sled \<Rightarrow> bitcoin_lib \<Rightarrow> txid \<Rightarrow> 't index_state
     \<Rightarrow> (error + script_hash list option) \<times> 't index_state" where
  "forget_pending_transaction S B t st =
     (case map_of (pending_txs st) t of
        None \<Rightarrow> (Inr None, st)
      | Some tx \<Rightarrow>
          bindE (modifyE (\<lambda>s. s\<lparr>pending_txs := hm_remove t (pending_txs s)\<rparr>)) (\<lambda>_.
          bindE (readE (\<lambda>s. Inr (pending_affected_scripts_for_tx S B tx s))) (\<lambda>affected.
          bindE (ignoreE (on_store (delete_pending_txid S t))) (\<lambda>_.
          bindE (modifyE (rebuild_pending_view B)) (\<lambda>_.
            returnE (Some affected))))) st)"

definition forget_pending_transaction_chain ::
  "'t sled \<Rightarrow> bitcoin_lib \<Rightarrow> txid \<Rightarrow> 't index_state
     \<Rightarrow> (error + script_hash list option) \<times> 't index_state" where
  "forget_pending_transaction_chain S B t st =
     (if map_of (pending_txs st) t = None then (Inr None, st)
      else bindE (forget_pending_transaction_chain_internal S B t) (\<lambda>affected.
             returnE (Some affected)) st)"

section \<open>The event loop\<close>

datatype block_event =
    Connected block u32
  | Disconnected block_hash u32
  | Synced u32 block_hash

text \<open>
  One iteration of the indexer thread, with the shared counters. A failed
  block is logged and the loop goes on.
\<close>

record 't indexer =
  state :: "'t index_state"
  ixr_metrics :: metrics

definition handle_event ::
  "'t sled \<Rightarrow> bitcoin_lib \<Rightarrow> block_event \<Rightarrow> 't indexer \<Rightarrow> 't indexer" where
  "handle_event S B ev ind =
     (case ev of
        Connected blk height \<Rightarrow>
          (case apply_block S B blk height (state ind) of
             (Inr _, st) \<Rightarrow> ind\<lparr>state := st, ixr_metrics := inc_blocks_indexed (ixr_metrics ind)\<rparr>
           | (Inl _, st) \<Rightarrow> ind\<lparr>state := st\<rparr>)
      | Disconnected hash height \<Rightarrow>
          (case rollback_height S B height (state ind) of
             (Inr _, st) \<Rightarrow> ind\<lparr>state := st, ixr_metrics := inc_blocks_rolled_back (ixr_metrics ind)\<rparr>
           | (Inl _, st) \<Rightarrow> ind\<lparr>state := st\<rparr>)
      | Synced height tip \<Rightarrow> ind)"

definition run_events ::
  "'t sled \<Rightarrow> bitcoin_lib \<Rightarrow> block_event list \<Rightarrow> 't indexer \<Rightarrow> 't indexer" where
  "run_events S B evs ind = fold (handle_event S B) evs ind"

end
