(* ===== verification/Channels.thy ===== *)
theory Channels
  imports Prelude
begin

text \<open>
  The subscriber lists of \<open>src/electrum_server.rs\<close> (\<open>PendingChangeBroadcaster\<close>) and
  \<open>src/nakamoto_source.rs\<close> (\<open>Subscribers\<close>): a vector of senders of unbounded channels. The
  state of a channel stands with its sender; the receiver knows the channel by its number.
\<close>

section \<open>Channels and subscriber lists\<close>

record 'm channel =
  ch_id :: nat
  ch_open :: bool
  ch_queue :: "'m list"

record 'm subscribers =
  next_id :: nat
  senders :: "'m channel list"

definition new_subscribers :: "'m subscribers" where
  "new_subscribers = \<lparr>next_id = 0, senders = []\<rparr>"

definition subscribe :: "'m subscribers \<Rightarrow> nat \<times> 'm subscribers" where
  "subscribe subs =
     (next_id subs,
      \<lparr>next_id = Suc (next_id subs),
       senders = senders subs @ [\<lparr>ch_id = next_id subs, ch_open = True, ch_queue = []\<rparr>]\<rparr>)"

text \<open>\<open>send\<close> fails when the receiver is gone, and \<open>retain\<close> then drops the sender.\<close>

definition send :: "'m \<Rightarrow> 'm channel \<Rightarrow> 'm channel option" where
  "send m c = (if ch_open c then Some (c\<lparr>ch_queue := ch_queue c @ [m]\<rparr>) else None)"

definition broadcast :: "'m \<Rightarrow> 'm subscribers \<Rightarrow> 'm subscribers" where
  "broadcast m subs = subs\<lparr>senders := List.map_filter (send m) (senders subs)\<rparr>"

text \<open>The receiving side: taking the next message, and dropping the receiver.\<close>

definition upd_channel :: "nat \<Rightarrow> ('m channel \<Rightarrow> 'm channel) \<Rightarrow> 'm subscribers \<Rightarrow> 'm subscribers" where
  "upd_channel i f subs =
     subs\<lparr>senders := map (\<lambda>c. if ch_id c = i then f c else c) (senders subs)\<rparr>"

definition channel_of :: "nat \<Rightarrow> 'm subscribers \<Rightarrow> 'm channel option" where
  "channel_of i subs = List.find (\<lambda>c. ch_id c = i) (senders subs)"

definition recv :: "nat \<Rightarrow> 'm subscribers \<Rightarrow> 'm option \<times> 'm subscribers" where
  "recv i subs =
     (case channel_of i subs of
        Some c \<Rightarrow>
          (case ch_queue c of
             [] \<Rightarrow> (None, subs)
           | m # ms \<Rightarrow> (Some m, upd_channel i (ch_queue_update (\<lambda>_. ms)) subs))
      | None \<Rightarrow> (None, subs))"

definition drop_receiver :: "nat \<Rightarrow> 'm subscribers \<Rightarrow> 'm subscribers" where
  "drop_receiver i = upd_channel i (ch_open_update (\<lambda>_. False))"

section \<open>Delivery\<close>

text \<open>
  What happens to a subscriber list, with the messages that were broadcast and, for the
  receiver \<open>i\<close> under observation, the messages it took.
\<close>

inductive chan_step ::
  "nat \<Rightarrow> 'm subscribers \<times> 'm list \<times> 'm list \<Rightarrow> 'm subscribers \<times> 'm list \<times> 'm list \<Rightarrow> bool"
  for i :: nat where
  step_subscribe: "chan_step i (subs, sent, got) (snd (subscribe subs), sent, got)"
| step_broadcast: "chan_step i (subs, sent, got) (broadcast m subs, sent @ [m], got)"
| step_recv: "recv i subs = (Some m, subs') \<Longrightarrow> chan_step i (subs, sent, got) (subs', sent, got @ [m])"
| step_other: "j \<noteq> i \<Longrightarrow> chan_step i (subs, sent, got) (snd (recv j subs), sent, got)"
| step_drop: "j \<noteq> i \<Longrightarrow> chan_step i (subs, sent, got) (drop_receiver j subs, sent, got)"

definition subscribers_ok :: "'m subscribers \<Rightarrow> bool" where
  "subscribers_ok subs \<longleftrightarrow>
     distinct (map ch_id (senders subs)) \<and> (\<forall>c \<in> set (senders subs). ch_id c < next_id subs)"

text \<open>A live receiver has taken, or will find in its queue, exactly what was broadcast.\<close>

definition delivered :: "nat \<Rightarrow> 'm subscribers \<times> 'm list \<times> 'm list \<Rightarrow> bool" where
  "delivered i s \<longleftrightarrow>
     (case s of (subs, sent, got) \<Rightarrow>
        subscribers_ok subs \<and>
        (\<exists>c. channel_of i subs = Some c \<and> ch_open c \<and> sent = got @ ch_queue c))"

lemma map_filter_Cons [simp]:
  "List.map_filter f [] = []"
  "List.map_filter f (x # xs)
     = (case f x of None \<Rightarrow> List.map_filter f xs | Some y \<Rightarrow> y # List.map_filter f xs)"
  by (simp_all add: List.map_filter_simps)

lemma send_id [simp]: "send m c = Some d \<Longrightarrow> ch_id d = ch_id c"
  by (auto simp: send_def split: if_splits)

lemma ids_broadcast: "set (map ch_id (List.map_filter (send m) cs)) \<subseteq> set (map ch_id cs)"
  by (induction cs) (auto split: option.splits)

lemma subscribers_ok_new [simp]: "subscribers_ok new_subscribers"
  by (simp add: subscribers_ok_def new_subscribers_def)

lemma subscribers_ok_subscribe [simp]:
  "subscribers_ok subs \<Longrightarrow> subscribers_ok (snd (subscribe subs))"
  by (force simp: subscribers_ok_def subscribe_def)

lemma subscribers_ok_broadcast [simp]:
  assumes "subscribers_ok subs"
  shows "subscribers_ok (broadcast m subs)"
proof -
  have "distinct (map ch_id (List.map_filter (send m) cs))" if "distinct (map ch_id cs)" for cs
    using that
  proof (induction cs)
    case (Cons c cs)
    then show ?case
      using ids_broadcast [of m cs] by (auto split: option.splits)
  qed simp
  moreover have "\<forall>d \<in> set (List.map_filter (send m) (senders subs)). ch_id d < next_id subs"
    using ids_broadcast [of m "senders subs"] assms by (fastforce simp: subscribers_ok_def)
  ultimately show ?thesis
    using assms by (simp add: subscribers_ok_def broadcast_def)
qed

lemma subscribers_ok_ids:
  "subscribers_ok subs \<longleftrightarrow>
     distinct (map ch_id (senders subs)) \<and> (\<forall>i \<in> set (map ch_id (senders subs)). i < next_id subs)"
  by (simp add: subscribers_ok_def)

lemma upd_channel_fields:
  assumes "\<And>c. ch_id (f c) = ch_id c"
  shows "map ch_id (senders (upd_channel i f subs)) = map ch_id (senders subs)"
    and "next_id (upd_channel i f subs) = next_id subs"
  using assms by (simp_all add: upd_channel_def)

lemma subscribers_ok_upd [simp]:
  "(\<And>c. ch_id (f c) = ch_id c) \<Longrightarrow> subscribers_ok subs \<Longrightarrow> subscribers_ok (upd_channel i f subs)"
  unfolding subscribers_ok_ids by (simp only: upd_channel_fields) blast

lemma find_map_filter:
  assumes "List.find (\<lambda>c. ch_id c = i) cs = Some c" and "ch_open c"
  shows "List.find (\<lambda>c. ch_id c = i) (List.map_filter (send m) cs)
           = Some (c\<lparr>ch_queue := ch_queue c @ [m]\<rparr>)"
  using assms
proof (induction cs)
  case (Cons a cs)
  show ?case
  proof (cases "ch_id a = i")
    case True
    then have "a = c" using Cons.prems(1) by simp
    moreover have "send m c = Some (c\<lparr>ch_queue := ch_queue c @ [m]\<rparr>)"
      using Cons.prems(2) by (simp add: send_def)
    ultimately show ?thesis using True by simp
  next
    case False
    then show ?thesis using Cons by (simp split: option.splits)
  qed
qed simp

lemma find_upd_other:
  "j \<noteq> i \<Longrightarrow> (\<And>c. ch_id (f c) = ch_id c) \<Longrightarrow>
     List.find (\<lambda>c. ch_id c = i) (map (\<lambda>c. if ch_id c = j then f c else c) cs)
       = List.find (\<lambda>c. ch_id c = i) cs"
  by (induction cs) auto

lemma find_upd_same:
  "(\<And>c. ch_id (f c) = ch_id c) \<Longrightarrow>
     List.find (\<lambda>c. ch_id c = i) (map (\<lambda>c. if ch_id c = i then f c else c) cs)
       = map_option f (List.find (\<lambda>c. ch_id c = i) cs)"
  by (induction cs) auto

lemma channel_of_upd:
  "j \<noteq> i \<Longrightarrow> (\<And>c. ch_id (f c) = ch_id c) \<Longrightarrow> channel_of i (upd_channel j f subs) = channel_of i subs"
  "(\<And>c. ch_id (f c) = ch_id c) \<Longrightarrow>
     channel_of i (upd_channel i f subs) = map_option f (channel_of i subs)"
  by (simp_all add: channel_of_def upd_channel_def find_upd_other find_upd_same)

lemma channel_of_broadcast:
  "channel_of i subs = Some c \<Longrightarrow> ch_open c \<Longrightarrow>
     channel_of i (broadcast m subs) = Some (c\<lparr>ch_queue := ch_queue c @ [m]\<rparr>)"
  by (simp add: channel_of_def broadcast_def find_map_filter)

lemma channel_of_subscribe:
  "channel_of i subs = Some c \<Longrightarrow> channel_of i (snd (subscribe subs)) = Some c"
proof -
  have "List.find P cs = Some c \<Longrightarrow> List.find P (cs @ ds) = Some c" for P cs ds
    by (induction cs) (auto split: if_splits)
  then show "channel_of i subs = Some c \<Longrightarrow> channel_of i (snd (subscribe subs)) = Some c"
    by (simp add: channel_of_def subscribe_def)
qed

lemma channel_of_fresh:
  assumes "subscribers_ok subs"
  shows "channel_of (fst (subscribe subs)) (snd (subscribe subs))
           = Some \<lparr>ch_id = fst (subscribe subs), ch_open = True, ch_queue = []\<rparr>"
proof -
  have "List.find (\<lambda>c. ch_id c = n) (cs @ [d]) = Some d"
    if "\<forall>c \<in> set cs. ch_id c < n" "ch_id d = n" for n cs and d :: "'a channel"
    using that by (induction cs) auto
  then show ?thesis
    using assms by (simp add: channel_of_def subscribe_def subscribers_ok_def)
qed

lemma recv_other:
  assumes "j \<noteq> i"
  shows "channel_of i (snd (recv j subs)) = channel_of i subs"
    and "subscribers_ok subs \<Longrightarrow> subscribers_ok (snd (recv j subs))"
  using assms
  by (simp_all add: recv_def channel_of_upd split: option.splits list.splits)

lemma delivered_step:
  assumes "chan_step i s s'" and "delivered i s"
  shows "delivered i s'"
  using assms
proof (cases rule: chan_step.cases)
  case (step_subscribe subs sent got)
  then show ?thesis using assms(2) by (auto simp: delivered_def channel_of_subscribe)
next
  case (step_broadcast subs sent got m)
  then show ?thesis using assms(2) by (auto simp: delivered_def channel_of_broadcast)
next
  case (step_recv subs m subs' sent got)
  then show ?thesis
    using assms(2)
    by (auto simp: delivered_def recv_def channel_of_upd split: list.splits)
next
  case (step_other j subs sent got)
  then show ?thesis using assms(2) by (simp add: delivered_def recv_other)
next
  case (step_drop j subs sent got)
  then show ?thesis using assms(2) by (simp add: delivered_def drop_receiver_def channel_of_upd)
qed

interpretation channel: machine "chan_step i" "delivered i" for i
  by unfold_locales (rule delivered_step)

end
