(* ===== verification/BlockSource.thy ===== *)
theory BlockSource
  imports Indexer Channels
begin

text \<open>
  \<open>src/block_source.rs\<close> and \<open>src/nakamoto_source.rs\<close>: the source of block events. Two
  background threads translate what the nakamoto client reports into events for the
  subscribers; each iteration of a thread is one step. The client is the record of
  functions \<open>nk_client\<close>, with its own types of blocks, headers and hashes: what they
  serialize to and what the bitcoin crate makes of the bytes belong to the crates.
\<close>

section \<open>The client\<close>

text \<open>
  \<open>nk_tree\<close> is \<open>query_tree\<close> together with the answer on the result channel: the query
  fails, the channel closes without an answer, or the header at the height, if any, arrives.
\<close>

datatype 'a channel_result = QueryFailed string | ChannelClosed | Answer 'a

record ('nkblock, 'nkheader, 'nkhash) nk_client =
  nk_serialize_block :: "'nkblock \<Rightarrow> bytes"
  nk_serialize_header :: "'nkheader \<Rightarrow> bytes"
  nk_hash_bytes :: "'nkhash \<Rightarrow> bytes"
  btc_deserialize_block :: "bytes \<Rightarrow> string + block"
  btc_deserialize_header :: "bytes \<Rightarrow> string + block_header"
  nk_request_block :: "'nkhash \<Rightarrow> string + unit"
  nk_get_tip :: "string + (u64 \<times> 'nkheader)"
  nk_tree :: "u64 \<Rightarrow> 'nkheader option channel_result"

text \<open>Conversions between the two versions of the bitcoin crate, through the wire encoding.\<close>

definition conv_block :: "('b, 'hd, 'h) nk_client \<Rightarrow> 'b \<Rightarrow> string + block" where
  "conv_block nk nk_block =
     map_err (\<lambda>_. ''failed to deserialise nakamoto block into bitcoin 0.30 Block'')
       (btc_deserialize_block nk (nk_serialize_block nk nk_block))"

definition conv_header :: "('b, 'hd, 'h) nk_client \<Rightarrow> 'hd \<Rightarrow> string + block_header" where
  "conv_header nk nk_hdr =
     map_err (\<lambda>_. ''failed to deserialise nakamoto header into bitcoin 0.30 BlockHeader'')
       (btc_deserialize_header nk (nk_serialize_header nk nk_hdr))"

definition conv_hash :: "('b, 'hd, 'h) nk_client \<Rightarrow> 'h \<Rightarrow> string + block_hash" where
  "conv_hash nk nk_hash =
     (if length (nk_hash_bytes nk nk_hash) = 32 then Inr (from_be (nk_hash_bytes nk nk_hash))
      else Inl ''nakamoto BlockHash was not 32 bytes'')"

datatype 'nkhash nk_event =
    BlockConnected 'nkhash u64
  | BlockDisconnected 'nkhash u64
  | NkSynced u64 u64
  | OtherEvent

section \<open>The source and its threads\<close>

text \<open>\<open>requested\<close> records the hashes whose download was queued with the client.\<close>

record 'nkhash block_source =
  bs_subscribers :: "block_event subscribers"
  block_cache :: "(block_hash \<times> block) list"
  requested :: "'nkhash list"

definition new_block_source :: "'nkhash block_source" where
  "new_block_source = \<lparr>bs_subscribers = new_subscribers, block_cache = [], requested = []\<rparr>"

definition broadcast_event :: "block_event \<Rightarrow> 'h block_source \<Rightarrow> 'h block_source" where
  "broadcast_event ev bs = bs\<lparr>bs_subscribers := broadcast ev (bs_subscribers bs)\<rparr>"

text \<open>One message on \<open>blocks_rx\<close>.\<close>

definition on_block ::
  "bitcoin_lib \<Rightarrow> ('b, 'hd, 'h) nk_client \<Rightarrow> 'b \<times> u64 \<Rightarrow> 'h block_source \<Rightarrow> 'h block_source" where
  "on_block B nk msg bs =
     (case conv_block nk (fst msg) of
        Inr blk \<Rightarrow>
          broadcast_event (Connected blk (ucast (snd msg)))
            (bs\<lparr>block_cache := hm_insert (block_hash B (header blk)) blk (block_cache bs)\<rparr>)
      | Inl _ \<Rightarrow> bs)"

text \<open>One message on \<open>events_rx\<close>.\<close>

definition on_event ::
  "bitcoin_lib \<Rightarrow> ('b, 'hd, 'h) nk_client \<Rightarrow> 'h nk_event \<Rightarrow> 'h block_source \<Rightarrow> 'h block_source" where
  "on_event B nk ev bs =
     (case ev of
        BlockConnected h height \<Rightarrow>
          (case nk_request_block nk h of
             Inl _ \<Rightarrow> bs
           | Inr _ \<Rightarrow> bs\<lparr>requested := requested bs @ [h]\<rparr>)
      | BlockDisconnected h height \<Rightarrow>
          (case conv_hash nk h of
             Inr bh \<Rightarrow> broadcast_event (Disconnected bh (ucast height)) bs
           | Inl _ \<Rightarrow> bs)
      | NkSynced height tip \<Rightarrow>
          (case nk_tree nk tip of
             Answer (Some nkh) \<Rightarrow>
               (case conv_header nk nkh of
                  Inr hdr \<Rightarrow> broadcast_event (Synced (ucast tip) (block_hash B hdr)) bs
                | Inl _ \<Rightarrow> bs)
           | _ \<Rightarrow> bs)
      | OtherEvent \<Rightarrow> bs)"

section \<open>The trait\<close>

definition source_subscribe :: "'h block_source \<Rightarrow> nat \<times> 'h block_source" where
  "source_subscribe bs =
     (fst (subscribe (bs_subscribers bs)),
      bs\<lparr>bs_subscribers := snd (subscribe (bs_subscribers bs))\<rparr>)"

definition source_tip :: "bitcoin_lib \<Rightarrow> ('b, 'hd, 'h) nk_client \<Rightarrow> string + (u32 \<times> block_hash)" where
  "source_tip B nk =
     bindR (map_err (\<lambda>_. ''nakamoto get_tip failed'') (nk_get_tip nk)) (\<lambda>(height, nkh).
     bindR (conv_header nk nkh) (\<lambda>hdr. Inr (ucast height, block_hash B hdr)))"

definition source_block_header ::
  "('b, 'hd, 'h) nk_client \<Rightarrow> u32 \<Rightarrow> string + block_header option" where
  "source_block_header nk height =
     (case nk_tree nk (ucast height) of
        QueryFailed e \<Rightarrow> Inl ''nakamoto query_tree failed''
      | ChannelClosed \<Rightarrow> Inl ''query_tree result channel closed''
      | Answer None \<Rightarrow> Inr None
      | Answer (Some nkh) \<Rightarrow> bindR (conv_header nk nkh) (\<lambda>hdr. Inr (Some hdr)))"

definition source_block_by_hash :: "block_hash \<Rightarrow> 'h block_source \<Rightarrow> string + block option" where
  "source_block_by_hash h bs = Inr (map_of (block_cache bs) h)"

section \<open>Interleavings\<close>

text \<open>
  The two threads run independently: a schedule interleaves messages of the two channels.
\<close>

datatype ('b, 'h) nk_message = BlockMsg 'b u64 | EventMsg "'h nk_event"

definition source_step ::
  "bitcoin_lib \<Rightarrow> ('b, 'hd, 'h) nk_client \<Rightarrow> ('b, 'h) nk_message \<Rightarrow> 'h block_source \<Rightarrow> 'h block_source" where
  "source_step B nk m bs =
     (case m of BlockMsg b height \<Rightarrow> on_block B nk (b, height) bs | EventMsg ev \<Rightarrow> on_event B nk ev bs)"

definition run_source ::
  "bitcoin_lib \<Rightarrow> ('b, 'hd, 'h) nk_client \<Rightarrow> ('b, 'h) nk_message list \<Rightarrow> 'h block_source \<Rightarrow> 'h block_source" where
  "run_source B nk ms bs = fold (source_step B nk) ms bs"

text \<open>The event that a message puts on the subscribers' channels.\<close>

definition message_event ::
  "bitcoin_lib \<Rightarrow> ('b, 'hd, 'h) nk_client \<Rightarrow> ('b, 'h) nk_message \<Rightarrow> block_event list" where
  "message_event B nk m =
     (case m of
        BlockMsg b height \<Rightarrow>
          (case conv_block nk b of Inr blk \<Rightarrow> [Connected blk (ucast height)] | Inl _ \<Rightarrow> [])
      | EventMsg (BlockDisconnected h height) \<Rightarrow>
          (case conv_hash nk h of Inr bh \<Rightarrow> [Disconnected bh (ucast height)] | Inl _ \<Rightarrow> [])
      | EventMsg (NkSynced height tip) \<Rightarrow>
          (case nk_tree nk tip of
             Answer (Some nkh) \<Rightarrow>
               (case conv_header nk nkh of
                  Inr hdr \<Rightarrow> [Synced (ucast tip) (block_hash B hdr)] | Inl _ \<Rightarrow> [])
           | _ \<Rightarrow> [])
      | EventMsg _ \<Rightarrow> [])"

definition queue_of :: "nat \<Rightarrow> 'h block_source \<Rightarrow> block_event list option" where
  "queue_of i bs = map_option ch_queue (channel_of i (bs_subscribers bs))"

lemma source_step_subscribers:
  "bs_subscribers (source_step B nk m bs)
     = fold broadcast (message_event B nk m) (bs_subscribers bs)"
  by (auto simp: source_step_def message_event_def on_block_def on_event_def broadcast_event_def
      split: nk_message.splits nk_event.splits sum.splits channel_result.splits option.splits)

lemma broadcasts_queue:
  "channel_of i subs = Some c \<Longrightarrow> ch_open c \<Longrightarrow>
     channel_of i (fold broadcast evs subs) = Some (c\<lparr>ch_queue := ch_queue c @ evs\<rparr>)"
proof (induction evs arbitrary: subs c)
  case (Cons ev evs)
  show ?case
    using Cons.IH [OF channel_of_broadcast [OF Cons.prems]] Cons.prems(2) by simp
qed simp

text \<open>A subscriber sees the events of all messages, in the order of the schedule.\<close>

lemma run_source_channel:
  "channel_of i (bs_subscribers bs) = Some c \<Longrightarrow> ch_open c \<Longrightarrow>
     channel_of i (bs_subscribers (run_source B nk ms bs))
       = Some (c\<lparr>ch_queue := ch_queue c @ concat (map (message_event B nk) ms)\<rparr>)"
proof (induction ms arbitrary: bs c)
  case Nil
  then show ?case by (simp add: run_source_def)
next
  case (Cons m ms)
  let ?bs = "source_step B nk m bs"
  have "channel_of i (bs_subscribers ?bs) = Some (c\<lparr>ch_queue := ch_queue c @ message_event B nk m\<rparr>)"
    using broadcasts_queue [OF Cons.prems] by (simp add: source_step_subscribers)
  from Cons.IH [OF this] Cons.prems(2) show ?case by (simp add: run_source_def)
qed

text \<open>The cache holds blocks under their own hash.\<close>

definition cache_ok :: "bitcoin_lib \<Rightarrow> 'h block_source \<Rightarrow> bool" where
  "cache_ok B bs \<longleftrightarrow>
     (\<forall>h blk. map_of (block_cache bs) h = Some blk \<longrightarrow> block_hash B (header blk) = h)"

lemma broadcast_event_cache [simp]: "block_cache (broadcast_event ev bs) = block_cache bs"
  by (simp add: broadcast_event_def)

lemma cache_ok_step: "cache_ok B bs \<Longrightarrow> cache_ok B (source_step B nk m bs)"
  by (auto simp: cache_ok_def source_step_def on_block_def on_event_def
      split: nk_message.splits nk_event.splits sum.splits channel_result.splits option.splits)

lemma cache_ok_run: "cache_ok B bs \<Longrightarrow> cache_ok B (run_source B nk ms bs)"
  unfolding run_source_def
  by (induction ms arbitrary: bs) (simp_all add: cache_ok_step)

end
