(* ===== verification/Helpers.thy ===== *)
theory Helpers
  imports External
begin

text \<open>
  \<open>src/lib.rs\<close>: networks, hexadecimal parsing and the block-subsidy schedule, and the parts
  of the standard library's string type that the parsers use. A \<open>str\<close> is the list of its
  UTF-8 bytes, so that lengths and ranges are byte lengths and byte ranges.
\<close>

section \<open>Strings\<close>

definition to_ascii_lower :: "char \<Rightarrow> char" where
  "to_ascii_lower c =
     (let n = (of_char c :: nat) in if 65 \<le> n \<and> n \<le> 90 then char_of (n + 32) else c)"

definition eq_ignore_ascii_case :: "string \<Rightarrow> string \<Rightarrow> bool" where
  "eq_ignore_ascii_case s t \<longleftrightarrow> map to_ascii_lower s = map to_ascii_lower t"

text \<open>\<open>str::get(a..b)\<close>: both ends have to lie between characters.\<close>

definition is_char_boundary :: "string \<Rightarrow> nat \<Rightarrow> bool" where
  "is_char_boundary s i \<longleftrightarrow>
     i = 0 \<or> i = length s \<or>
     (i < length s \<and> \<not> (128 \<le> (of_char (s ! i) :: nat) \<and> (of_char (s ! i) :: nat) < 192))"

definition str_get :: "string \<Rightarrow> nat \<Rightarrow> nat \<Rightarrow> string option" where
  "str_get s a b =
     (if a \<le> b \<and> is_char_boundary s a \<and> is_char_boundary s b
      then Some (take (b - a) (drop a s)) else None)"

definition hex_value :: "char \<Rightarrow> nat option" where
  "hex_value c =
     (let n = of_char c in
      if 48 \<le> n \<and> n \<le> 57 then Some (n - 48)
      else if 97 \<le> n \<and> n \<le> 102 then Some (n - 87)
      else if 65 \<le> n \<and> n \<le> 70 then Some (n - 55)
      else None)"

text \<open>\<open>u8::from_str_radix(s, 16)\<close>, which accepts one leading plus sign.\<close>

definition u8_from_hex :: "string \<Rightarrow> string + u8" where
  "u8_from_hex s =
     (if s = [] then Inl ''cannot parse integer from empty string''
      else if s = ''+'' \<or> s = ''-'' then Inl ''invalid digit found in string''
      else bindR
        (foldR (\<lambda>c acc. case hex_value c of
                   None \<Rightarrow> Inl ''invalid digit found in string''
                 | Some d \<Rightarrow>
                     if 16 * acc + d > 255 then Inl ''number too large to fit in target type''
                     else Inr (16 * acc + d))
          (if hd s = CHR ''+'' then tl s else s) 0)
        (\<lambda>n. Inr (of_nat n)))"

section \<open>Arithmetic\<close>

text \<open>
  \<open>+\<close> panics in a build with overflow checks, here the result \<open>None\<close>, and wraps around in a
  build without.
\<close>

definition add :: "bool \<Rightarrow> u64 \<Rightarrow> u64 \<Rightarrow> u64 option" where
  "add overflow_checks left right =
     (if overflow_checks \<and> unat left + unat right \<ge> 2 ^ 64 then None else Some (left + right))"

definition lib_saturating_sub :: "u64 \<Rightarrow> u64 \<Rightarrow> u64" where
  "lib_saturating_sub left right = saturating_sub left right"

section \<open>Networks\<close>

datatype network = Mainnet | Testnet | Signet | Regtest

definition network_from_str :: "string \<Rightarrow> network option" where
  "network_from_str s =
     (if eq_ignore_ascii_case s ''mainnet'' \<or> eq_ignore_ascii_case s ''bitcoin''
         \<or> eq_ignore_ascii_case s ''main''
      then Some Mainnet
      else if eq_ignore_ascii_case s ''testnet'' \<or> eq_ignore_ascii_case s ''test''
      then Some Testnet
      else if eq_ignore_ascii_case s ''signet'' then Some Signet
      else if eq_ignore_ascii_case s ''regtest'' then Some Regtest
      else None)"

definition is_production :: "network \<Rightarrow> bool" where
  "is_production n \<longleftrightarrow> n = Mainnet"

fun default_electrum_port :: "network \<Rightarrow> u16" where
  "default_electrum_port Mainnet = 50001"
| "default_electrum_port Testnet = 60001"
| "default_electrum_port Signet = 60601"
| "default_electrum_port Regtest = 60401"

fun default_p2p_port :: "network \<Rightarrow> u16" where
  "default_p2p_port Mainnet = 8333"
| "default_p2p_port Testnet = 18333"
| "default_p2p_port Signet = 38333"
| "default_p2p_port Regtest = 18444"

section \<open>Electrum helpers\<close>

definition is_valid_script_hex :: "string \<Rightarrow> bool" where
  "is_valid_script_hex s \<longleftrightarrow>
     s \<noteq> [] \<and> length s mod 2 = 0 \<and> list_all (\<lambda>c. hex_value c \<noteq> None) s"

definition electrum_byte :: "string \<Rightarrow> nat \<Rightarrow> bytes \<Rightarrow> unit + bytes" where
  "electrum_byte hex i bs =
     bindR (ok_or () (str_get hex (i * 2) (i * 2 + 2))) (\<lambda>byte_str.
     bindR (map_err (\<lambda>_. ()) (u8_from_hex byte_str)) (\<lambda>b.
       Inr (bs[31 - i := b])))"

definition txid_to_electrum_bytes :: "string \<Rightarrow> u256 option" where
  "txid_to_electrum_bytes hex =
     (if length hex \<noteq> 64 then None
      else (case foldR (electrum_byte hex) [0..<32] (replicate 32 0) of
              Inl _ \<Rightarrow> None | Inr bs \<Rightarrow> Some (from_be bs)))"

section \<open>Heights\<close>

definition is_halving_height :: "u32 \<Rightarrow> bool" where
  "is_halving_height height \<longleftrightarrow> 0 < height \<and> height mod 210000 = 0"

definition block_reward_sats :: "u32 \<Rightarrow> u64" where
  "block_reward_sats height =
     (let halvings = height div 210000 in
      if 64 \<le> halvings then 0 else drop_bit (unat halvings) 5000000000)"

section \<open>Hexadecimal round trips\<close>

lemma hex_value_digit [simp]:
  assumes "d < 16"
  shows "hex_value (hex_digit d) = Some d"
proof -
  have "d = 0 \<or> d = 1 \<or> d = 2 \<or> d = 3 \<or> d = 4 \<or> d = 5 \<or> d = 6 \<or> d = 7 \<or> d = 8 \<or> d = 9
      \<or> d = 10 \<or> d = 11 \<or> d = 12 \<or> d = 13 \<or> d = 14 \<or> d = 15"
    using assms by arith
  then show ?thesis by (elim disjE; simp only:; code_simp)
qed

lemma hex_digit_cases:
  assumes "d < 16"
  shows "hex_digit d \<noteq> CHR ''+''" and "hex_digit d \<noteq> CHR ''-''"
    and "(of_char (hex_digit d) :: nat) < 128"
proof -
  have val: "hex_value (hex_digit d) = Some d" using assms by simp
  have sign: "hex_value (CHR ''+'') \<noteq> Some d" "hex_value (CHR ''-'') \<noteq> Some d"
    by (simp_all add: hex_value_def)
  show "hex_digit d \<noteq> CHR ''+''"
    by (rule notI) (rule notE [OF sign(1)], erule subst, rule val)
  show "hex_digit d \<noteq> CHR ''-''"
    by (rule notI) (rule notE [OF sign(2)], erule subst, rule val)
  show "(of_char (hex_digit d) :: nat) < 128"
    using assms by (auto simp: hex_digit_def)
qed

lemma u8_div_mod [simp]: "unat (b :: u8) div 16 < 16" "16 * (unat b div 16) + unat b mod 16 = unat b"
proof -
  have "unat b < 2 ^ LENGTH(8)" by (rule unsigned_less)
  then show "unat b div 16 < 16" by (simp add: less_mult_imp_div_less)
qed simp

lemma u8_from_hex_byte [simp]: "u8_from_hex (hex_byte b) = Inr b"
proof -
  have "unat b < 2 ^ LENGTH(8)" by (rule unsigned_less)
  then show ?thesis
    using hex_digit_cases [of "unat b div 16"]
    by (simp add: u8_from_hex_def hex_byte_def)
qed

lemma nth_hex_of_bytes:
  "i < length bs \<Longrightarrow> take 2 (drop (2 * i) (hex_of_bytes bs)) = hex_byte (bs ! i)"
proof (induction bs arbitrary: i)
  case (Cons b bs)
  then show ?case
    by (cases i) (simp_all add: hex_of_bytes_def hex_byte_def numeral_2_eq_2)
qed simp

lemma ascii_hex_of_bytes: "c \<in> set (hex_of_bytes bs) \<Longrightarrow> (of_char c :: nat) < 128"
  using hex_digit_cases(3) by (auto simp: hex_of_bytes_def hex_byte_def)

lemma boundary_hex_of_bytes [simp]:
  "is_char_boundary (hex_of_bytes bs) i \<longleftrightarrow> i \<le> 2 * length bs"
  using ascii_hex_of_bytes [of "hex_of_bytes bs ! i" bs]
  by (auto simp: is_char_boundary_def)

lemma str_get_hex [simp]:
  "i < length bs \<Longrightarrow> str_get (hex_of_bytes bs) (i * 2) (i * 2 + 2) = Some (hex_byte (bs ! i))"
  using nth_hex_of_bytes [of i bs] by (simp add: str_get_def mult.commute)

text \<open>A loop that assigns every index of an array exactly once, in either order.\<close>

lemma foldR_fill:
  assumes "\<And>i a. i < n \<Longrightarrow> f i a = Inr (a[p i := g i])" and "length a = n"
    and "bij_betw p {..<n} {..<n}"
  shows "\<exists>r. foldR f [0..<n] a = Inr r \<and> length r = n \<and> (\<forall>i < n. r ! p i = g i)"
proof -
  have "\<exists>r. foldR f [0..<k] a = Inr r \<and> length r = n \<and> (\<forall>i < k. r ! p i = g i)" if "k \<le> n" for k
    using that
  proof (induction k)
    case 0
    then show ?case using assms(2) by simp
  next
    case (Suc k)
    then obtain r where r: "foldR f [0..<k] a = Inr r" "length r = n" "\<forall>i < k. r ! p i = g i"
      by auto
    have app: "foldR f (xs @ ys) b = bindR (foldR f xs b) (foldR f ys)" for xs ys b
      by (induction xs arbitrary: b) (auto simp: bindR_def split: sum.splits)
    have "foldR f [0..<Suc k] a = Inr (r[p k := g k])"
      using Suc.prems r(1) assms(1) [of k r] by (simp add: app)
    moreover have "p k < n"
      using assms(3) Suc.prems by (auto simp: bij_betw_def)
    moreover have "p i \<noteq> p k" if "i < k" for i
      using inj_onD [OF bij_betw_imp_inj_on [OF assms(3)], of i k] Suc.prems that by force
    ultimately show ?case
      using r by (auto simp: less_Suc_eq nth_list_update_neq [OF not_sym])
  qed
  then show ?thesis by blast
qed

section \<open>Fee rates as text\<close>

text \<open>
  The values of an \<open>f64\<close>: \<open>Finite s m e\<close> is \<open>m * 2 powi e\<close>, negative when \<open>s\<close> holds.
  \<open>{:.2}\<close> prints the exact value rounded to two decimals, ties to the even digit.
\<close>

datatype float64 = Finite bool nat int | Infinite bool | NotANumber

definition hundredths :: "nat \<Rightarrow> int \<Rightarrow> nat" where
  "hundredths m e =
     (if 0 \<le> e then 100 * m * 2 ^ nat e
      else let d = 2 ^ nat (- e); q = 100 * m div d; r = 100 * m mod d
           in if d < 2 * r \<or> (2 * r = d \<and> odd q) then Suc q else q)"

definition two_decimals :: "nat \<Rightarrow> string" where
  "two_decimals n = dec (n div 100) @ ''.'' @ dec (n div 10 mod 10) @ dec (n mod 10)"

definition format_fee_rate :: "float64 \<Rightarrow> string" where
  "format_fee_rate x =
     (case x of
        Finite s m e \<Rightarrow> (if s then ''-'' else []) @ two_decimals (hundredths m e)
      | Infinite s \<Rightarrow> (if s then ''-inf'' else ''inf'')
      | NotANumber \<Rightarrow> ''NaN'') @ '' sat/vB''"

text \<open>The number printed is one of the nearest: at most half a hundredth away.\<close>

lemma hundredths_exact: "0 \<le> e \<Longrightarrow> hundredths m e = 100 * (m * 2 ^ nat e)"
  by (simp add: hundredths_def)

lemma hundredths_nearest:
  assumes "e < 0"
  shows "2 * (100 * m) \<le> (2 * hundredths m e + 1) * 2 ^ nat (- e)"
    and "2 * hundredths m e * 2 ^ nat (- e) \<le> 2 * (100 * m) + 2 ^ nat (- e)"
proof -
  define d M where "d = (2 :: nat) ^ nat (- e)" and "M = 100 * m"
  define q r where "q = M div d" and "r = M mod d"
  have n: "M = q * d + r" by (simp only: q_def r_def div_mult_mod_eq)
  have r: "r < d" by (simp add: d_def r_def)
  have h: "hundredths m e = (if d < 2 * r \<or> (2 * r = d \<and> odd q) then Suc q else q)"
    using assms by (simp add: hundredths_def M_def d_def q_def r_def Let_def)
  have "2 * M \<le> (2 * hundredths m e + 1) * d \<and> 2 * hundredths m e * d \<le> 2 * M + d"
    using r unfolding h n by (auto simp: algebra_simps)
  then show "2 * (100 * m) \<le> (2 * hundredths m e + 1) * 2 ^ nat (- e)"
    "2 * hundredths m e * 2 ^ nat (- e) \<le> 2 * (100 * m) + 2 ^ nat (- e)"
    by (simp_all only: M_def d_def)
qed

lemma fee_rate_texts:
  "format_fee_rate (Finite False 21 (- 1)) = ''10.50 sat/vB''"
  "format_fee_rate (Finite False 1 (- 3)) = ''0.12 sat/vB''"
  "format_fee_rate (Finite False 3 (- 3)) = ''0.38 sat/vB''"
  by (simp_all add: format_fee_rate_def hundredths_def two_decimals_def Let_def dec.simps char_of_def bit_0)

end
