(* ===== verification/Json.thy ===== *)
theory Json
  imports Helpers
begin

text \<open>
  JSON values as the \<open>serde_json\<close> crate presents them, with the accessors that the
  request handlers use, and the two operations on 64-bit floats that the server performs.
  Parsing and printing belong to the crate and are arguments of the model.
\<close>

section \<open>Floats\<close>

text \<open>
  A positive \<open>f64\<close> is \<open>m * 2 powi e\<close> with \<open>m < 2 ^ 53\<close>. Conversion from \<open>u64\<close> and
  multiplication round to the nearest such number, ties to even. The products formed by
  the server lie far inside the exponent range, so neither overflow nor subnormals arise.
\<close>

datatype f64 = F64 nat int

fun bit_len :: "nat \<Rightarrow> nat" where
  "bit_len m = (if m = 0 then 0 else Suc (bit_len (m div 2)))"

declare bit_len.simps [simp del]

definition f64_round :: "nat \<Rightarrow> int \<Rightarrow> f64" where
  "f64_round m e =
     (let k = bit_len m - 53; q = m div 2 ^ k; r = m mod 2 ^ k; up = r * 2
      in if up > 2 ^ k \<or> (up = 2 ^ k \<and> k > 0 \<and> odd q) then F64 (Suc q) (e + int k)
         else F64 q (e + int k))"

definition f64_of_u64 :: "u64 \<Rightarrow> f64" where
  "f64_of_u64 w = f64_round (unat w) 0"

fun f64_mul :: "f64 \<Rightarrow> f64 \<Rightarrow> f64" where
  "f64_mul (F64 m e) (F64 n f) = f64_round (m * n) (e + f)"

text \<open>The literal \<open>0.00001f64\<close>.\<close>

definition f64_1e_5 :: f64 where
  "f64_1e_5 = F64 5902958103587057 (- 69)"

section \<open>Values\<close>

datatype json =
    JNull
  | JBool bool
  | JInt int
  | JFloat f64
  | JString string
  | JArray "json list"
  | JObject "(string \<times> json) list"

definition jnat :: "'a::len word \<Rightarrow> json" where
  "jnat w = JInt (uint w)"

text \<open>\<open>Value::get\<close> with a number and with a string, \<open>as_str\<close> and \<open>as_u64\<close>.\<close>

fun json_index :: "nat \<Rightarrow> json \<Rightarrow> json option" where
  "json_index i (JArray vs) = (if i < length vs then Some (vs ! i) else None)"
| "json_index i _ = None"

fun json_field :: "string \<Rightarrow> json \<Rightarrow> json option" where
  "json_field k (JObject fs) = map_of fs k"
| "json_field k _ = None"

fun as_str :: "json \<Rightarrow> string option" where
  "as_str (JString s) = Some s"
| "as_str _ = None"

fun as_u64 :: "json \<Rightarrow> u64 option" where
  "as_u64 (JInt i) = (if 0 \<le> i \<and> i < 2 ^ 64 then Some (of_int i) else None)"
| "as_u64 _ = None"

lemma as_u64_jnat [simp]: "as_u64 (jnat (w :: u64)) = Some w"
  using uint_lt2p [of w] by (simp add: jnat_def)

definition str_param :: "nat \<Rightarrow> json \<Rightarrow> string option" where
  "str_param i params = Option.bind (json_index i params) as_str"

definition u64_param :: "nat \<Rightarrow> json \<Rightarrow> u64 option" where
  "u64_param i params = Option.bind (json_index i params) as_u64"

end
