(* ===== verification/Electrum.thy ===== *)
theory Electrum
  imports BlockSource Json
begin

text \<open>
  \<open>src/electrum_server.rs\<close>, the request side: transaction-status events, the fee-rate cell,
  the JSON-RPC methods and their dispatch. A handler is a function of the parameters and
  of the state it uses; one that mutates returns the changed state beside its result.
\<close>

section \<open>Shared state\<close>

text \<open>
  What the client threads share: the indexer with the metrics, the fee rate (zero until an
  estimate arrives) and the subscribers to pending changes.
\<close>

record 't server =
  sv_indexer :: "'t indexer"
  sv_fee_rate :: u64
  sv_changes :: "script_hash list subscribers"

record server_env =
  env_bitcoin :: bitcoin_lib
  env_header :: "u32 \<Rightarrow> string + block_header option"
  env_broadcast :: "(transaction \<Rightarrow> string + unit) option"
  env_parse :: "string \<Rightarrow> string + json"
  env_print :: "json \<Rightarrow> string"

definition sv_state :: "'t server \<Rightarrow> 't index_state" where
  "sv_state sv = state (sv_indexer sv)"

definition upd_state :: "'t index_state \<Rightarrow> 't server \<Rightarrow> 't server" where
  "upd_state st sv = sv\<lparr>sv_indexer := (sv_indexer sv)\<lparr>state := st\<rparr>\<rparr>"

definition upd_metrics :: "(metrics \<Rightarrow> metrics) \<Rightarrow> 't server \<Rightarrow> 't server" where
  "upd_metrics f sv =
     sv\<lparr>sv_indexer := (sv_indexer sv)\<lparr>ixr_metrics := f (ixr_metrics (sv_indexer sv))\<rparr>\<rparr>"

text \<open>The text of an error, with its context, as \<open>{e:#}\<close> prints it.\<close>

fun show_error :: "bitcoin_lib \<Rightarrow> error \<Rightarrow> string" where
  "show_error B (SledError e) = e"
| "show_error B (OpenFailed e) = ''failed to open persistent index db: '' @ e"
| "show_error B ExpectPanic = ''sled open failed without error''"
| "show_error B (DecodeTx e) = ''failed to decode stored tx: '' @ e"
| "show_error B InvalidUtxoValue = ''invalid utxo value: could not convert slice to array''"
| "show_error B (MissingOutput p) =
     ''missing output for unspent '' @ txid_to_string B (op_txid p) @ '':'' @ dec (unat (op_vout p))"
| "show_error B (InvalidOutputLength n) = ''invalid output encoding length: '' @ dec n"
| "show_error B (InvalidHistoryKeyLength n) = ''invalid history key length: '' @ dec n"
| "show_error B (InvalidJournalKeyLength n) = ''invalid journal key length: '' @ dec n"
| "show_error B InvalidJournalValueLength = ''invalid journal value length: 0''"
| "show_error B (InvalidJournalKind k) = ''invalid journal action kind: '' @ dec (unat k)"
| "show_error B (InvalidPendingListLength n) = ''invalid pending txid list length: '' @ dec n"
| "show_error B InvalidPendingChunk = ''invalid pending txid chunk''"
| "show_error B (InvalidTxidPayload n) = ''invalid txid payload length: '' @ dec n"
| "show_error B (InvalidOutpointPayload n) = ''invalid outpoint payload length: '' @ dec n"
| "show_error B SlicePanic = ''range end index out of range for slice''"

section \<open>Transaction status events\<close>

datatype tx_status_kind = Reverted | Confirmed | Stale | Acknowledged | Other

definition classify_tx_status :: "string \<Rightarrow> tx_status_kind" where
  "classify_tx_status status =
     (if status = ''transaction has been reverted'' then Reverted
      else if starts_with ''transaction was included in block '' status then Confirmed
      else if starts_with ''transaction was replaced by '' status then Stale
      else if starts_with ''transaction was acknowledged by peer '' status then Acknowledged
      else Other)"

text \<open>An operation of the index state, run on the server.\<close>

definition on_state ::
  "('t index_state \<Rightarrow> (error + 'a) \<times> 't index_state) \<Rightarrow> 't server \<Rightarrow> (error + 'a) \<times> 't server" where
  "on_state m = zoomE sv_state upd_state m"

definition broadcast_changes :: "script_hash list \<Rightarrow> 't server \<Rightarrow> 't server" where
  "broadcast_changes affected sv = sv\<lparr>sv_changes := broadcast affected (sv_changes sv)\<rparr>"

definition apply_tx_status_kind ::
  "'t sled \<Rightarrow> bitcoin_lib \<Rightarrow> txid \<Rightarrow> tx_status_kind \<Rightarrow> 't server \<Rightarrow> (error + unit) \<times> 't server" where
  "apply_tx_status_kind S B t kind =
     bindE
       (case kind of
          Reverted \<Rightarrow> on_state (restore_pending_transaction S B t)
        | Confirmed \<Rightarrow> on_state (forget_pending_transaction S B t)
        | Stale \<Rightarrow> on_state (forget_pending_transaction_chain S B t)
        | _ \<Rightarrow> returnE None)
       (\<lambda>affected. case affected of
          None \<Rightarrow> returnE ()
        | Some shs \<Rightarrow> modifyE (broadcast_changes shs))"

definition apply_tx_status_change ::
  "'t sled \<Rightarrow> bitcoin_lib \<Rightarrow> string \<Rightarrow> string \<Rightarrow> 't server \<Rightarrow> (string + unit) \<times> 't server" where
  "apply_tx_status_change S B txid_str status sv =
     (case txid_from_str B txid_str of
        Inl e \<Rightarrow> (Inl (''invalid txid in tx status event: '' @ e), sv)
      | Inr t \<Rightarrow>
          (case apply_tx_status_kind S B t (classify_tx_status status) sv of
             (r, sv') \<Rightarrow> (map_err (show_error B) r, sv')))"

section \<open>Fee rate\<close>

definition update_sat_per_vb :: "u64 \<Rightarrow> 't server \<Rightarrow> 't server" where
  "update_sat_per_vb rate sv = sv\<lparr>sv_fee_rate := rate\<rparr>"

definition current_sat_per_vb :: "'t server \<Rightarrow> u64 option" where
  "current_sat_per_vb sv = (if sv_fee_rate sv = 0 then None else Some (sv_fee_rate sv))"

section \<open>Broadcasting through the client\<close>

definition broadcast_transaction ::
  "bitcoin_lib \<Rightarrow> (bytes \<Rightarrow> string + 'nktx) \<Rightarrow> ('nktx \<Rightarrow> string + 'r) \<Rightarrow> transaction \<Rightarrow> string + unit" where
  "broadcast_transaction B nk_deserialize submit tx =
     bindR (map_err (\<lambda>e. ''transaction conversion failed: '' @ e) (nk_deserialize (serialize_tx B tx)))
       (\<lambda>nk_tx. bindR (submit nk_tx) (\<lambda>_. Inr ()))"

definition PROTOCOL_VERSION :: string where
  "PROTOCOL_VERSION = ''1.4''"

definition SERVER_VERSION :: string where
  "SERVER_VERSION = ''nakamoto-electrs/0.0.10''"

definition BANNER :: string where
  "BANNER = ''nakamoto-electrs: nakamoto SPV + Electrum bridge''"

section \<open>Client state and statuses\<close>

record client_state =
  subscribed_scripthashes :: "script_hash list"
  headers_subscribed :: bool
  status_by_scripthash :: "(script_hash \<times> string option) list"
  header_subscription :: "(u32 \<times> string) option"

definition new_client_state :: client_state where
  "new_client_state = \<lparr>subscribed_scripthashes = [], headers_subscribed = False,
                       status_by_scripthash = [], header_subscription = None\<rparr>"

definition status_item :: "string \<Rightarrow> string \<Rightarrow> string" where
  "status_item t height = t @ '':'' @ height @ '':''"

definition compute_status_hash ::
  "bitcoin_lib \<Rightarrow> tx_entry list \<Rightarrow> mempool_entry list \<Rightarrow> string option" where
  "compute_status_hash B hist mem =
     (if hist = [] \<and> mem = [] then None
      else Some (sha256_to_string B (sha256 B (ascii
        (concat (map (\<lambda>e. status_item (txid_to_string B (te_txid e)) (dec (unat (te_height e)))) hist)
         @ concat (map (\<lambda>e. status_item (txid_to_string B (me_txid e))
                               (dec_int (sint (me_height e)))) mem))))))"

definition script_status ::
  "'t sled \<Rightarrow> bitcoin_lib \<Rightarrow> script_hash \<Rightarrow> 't index_state \<Rightarrow> error + string option" where
  "script_status S B sh st =
     bindR (mempool S B sh st) (\<lambda>mem. Inr (compute_status_hash B (get_history S B sh st) mem))"

definition current_header_status ::
  "server_env \<Rightarrow> 't index_state \<Rightarrow> string + (u32 \<times> string) option" where
  "current_header_status E st =
     bindR (env_header E (tip_height st)) (\<lambda>r.
       Inr (map_option (\<lambda>hdr. (tip_height st, serialize_header_hex (env_bitcoin E) hdr)) r))"

section \<open>Parameters\<close>

definition scripthash_byte :: "string \<Rightarrow> nat \<Rightarrow> bytes \<Rightarrow> string + bytes" where
  "scripthash_byte hex_str i bs =
     bindR (ok_or ''script_hash too short'' (str_get hex_str (i * 2) (i * 2 + 2))) (\<lambda>byte_str.
     bindR (map_err (\<lambda>e. ''invalid hex byte: '' @ e) (u8_from_hex byte_str)) (\<lambda>b.
       Inr (bs[i := b])))"

definition parse_scripthash :: "json \<Rightarrow> string + script_hash" where
  "parse_scripthash params =
     bindR (ok_or ''missing script_hash parameter'' (str_param 0 params)) (\<lambda>hex_str.
       if length hex_str \<noteq> 64
       then Inl (''script_hash must be 64 hex chars, got '' @ dec (length hex_str))
       else bindR (foldR (scripthash_byte hex_str) [0..<32] (replicate 32 0)) (\<lambda>bs.
         Inr (from_be bs)))"

section \<open>Methods\<close>

definition handle_server_version :: "json \<Rightarrow> string + json" where
  "handle_server_version params = Inr (JArray [JString SERVER_VERSION, JString PROTOCOL_VERSION])"

definition header_json :: "(u32 \<times> string) option \<Rightarrow> json" where
  "header_json current =
     (case current of
        Some (height, hex) \<Rightarrow> JObject [(''height'', jnat height), (''hex'', JString hex)]
      | None \<Rightarrow> JObject [(''height'', JInt 0), (''hex'', JString [])])"

definition handle_headers_subscribe ::
  "server_env \<Rightarrow> 't index_state \<Rightarrow> client_state \<Rightarrow> (string + json) \<times> client_state" where
  "handle_headers_subscribe E st =
     bindE (modifyE (\<lambda>c. c\<lparr>headers_subscribed := True\<rparr>)) (\<lambda>_.
     bindE (readE (\<lambda>_. map_err (\<lambda>e. ''block_header error: '' @ e) (current_header_status E st)))
       (\<lambda>current.
     bindE (modifyE (\<lambda>c. c\<lparr>header_subscription := current\<rparr>)) (\<lambda>_.
       returnE (header_json current))))"

definition handle_scripthash_get_history ::
  "'t sled \<Rightarrow> bitcoin_lib \<Rightarrow> json \<Rightarrow> 't index_state \<Rightarrow> string + json" where
  "handle_scripthash_get_history S B params st =
     bindR (parse_scripthash params) (\<lambda>sh.
       Inr (JArray (map (\<lambda>e. JObject [(''tx_hash'', JString (txid_to_string B (te_txid e))),
                                     (''height'', jnat (te_height e))])
              (get_history S B sh st))))"

definition handle_scripthash_get_balance ::
  "'t sled \<Rightarrow> bitcoin_lib \<Rightarrow> json \<Rightarrow> 't index_state \<Rightarrow> string + json" where
  "handle_scripthash_get_balance S B params st =
     bindR (parse_scripthash params) (\<lambda>sh.
     bindR (map_err (\<lambda>e. ''balance lookup failed: '' @ show_error B e) (get_balance S sh st))
       (\<lambda>confirmed.
     bindR (map_err (\<lambda>e. ''balance lookup failed: '' @ show_error B e)
              (get_unconfirmed_balance_delta S B sh st)) (\<lambda>unconfirmed.
       Inr (JObject [(''confirmed'', jnat confirmed), (''unconfirmed'', JInt (sint unconfirmed))]))))"

definition handle_scripthash_get_mempool ::
  "'t sled \<Rightarrow> bitcoin_lib \<Rightarrow> json \<Rightarrow> 't index_state \<Rightarrow> string + json" where
  "handle_scripthash_get_mempool S B params st =
     bindR (parse_scripthash params) (\<lambda>sh.
     bindR (map_err (\<lambda>e. ''mempool lookup failed: '' @ show_error B e) (mempool S B sh st))
       (\<lambda>es.
       Inr (JArray (map (\<lambda>e. JObject [(''tx_hash'', JString (txid_to_string B (me_txid e))),
                                     (''height'', JInt (sint (me_height e))),
                                     (''fee'', jnat (me_fee e))]) es))))"

definition handle_scripthash_listunspent ::
  "'t sled \<Rightarrow> bitcoin_lib \<Rightarrow> json \<Rightarrow> 't index_state \<Rightarrow> string + json" where
  "handle_scripthash_listunspent S B params st =
     bindR (parse_scripthash params) (\<lambda>sh.
     bindR (map_err (\<lambda>e. ''listunspent failed: '' @ show_error B e) (list_unspent S B sh st))
       (\<lambda>es.
       Inr (JArray (map (\<lambda>e. JObject [(''tx_hash'', JString (txid_to_string B (su_txid e))),
                                     (''tx_pos'', jnat (su_vout e)),
                                     (''height'', jnat (su_height e)),
                                     (''value'', jnat (su_value e))]) es))))"

definition json_of_status :: "string option \<Rightarrow> json" where
  "json_of_status status = (case status of Some s \<Rightarrow> JString s | None \<Rightarrow> JNull)"

definition handle_scripthash_subscribe ::
  "'t sled \<Rightarrow> bitcoin_lib \<Rightarrow> json \<Rightarrow> 't index_state \<Rightarrow> client_state \<Rightarrow> (string + json) \<times> client_state" where
  "handle_scripthash_subscribe S B params st =
     bindE (readE (\<lambda>_. parse_scripthash params)) (\<lambda>sh.
     bindE (modifyE (\<lambda>c. if sh \<in> set (subscribed_scripthashes c) then c
                         else c\<lparr>subscribed_scripthashes := subscribed_scripthashes c @ [sh]\<rparr>)) (\<lambda>_.
     bindE (readE (\<lambda>_. map_err (\<lambda>e. ''status lookup failed: '' @ show_error B e)
                         (script_status S B sh st))) (\<lambda>status.
     bindE (modifyE (\<lambda>c. c\<lparr>status_by_scripthash := hm_insert sh status (status_by_scripthash c)\<rparr>))
       (\<lambda>_. returnE (json_of_status status)))))"

definition handle_transaction_get ::
  "'t sled \<Rightarrow> bitcoin_lib \<Rightarrow> json \<Rightarrow> 't index_state \<Rightarrow> string + json" where
  "handle_transaction_get S B params st =
     bindR (ok_or ''missing txid parameter'' (str_param 0 params)) (\<lambda>txid_str.
     bindR (map_err (\<lambda>e. ''invalid txid: '' @ e) (txid_from_str B txid_str)) (\<lambda>t.
       case get_transaction S B t st of
         Inr (Some tx) \<Rightarrow> Inr (JString (serialize_tx_hex B tx))
       | Inr None \<Rightarrow> Inl (''transaction '' @ txid_str @ '' not in local cache'')
       | Inl e \<Rightarrow> Inl (''transaction lookup failed: '' @ show_error B e)))"

definition string_err :: "('e \<Rightarrow> string) \<Rightarrow> ('s \<Rightarrow> ('e + 'a) \<times> 's) \<Rightarrow> 's \<Rightarrow> (string + 'a) \<times> 's" where
  "string_err f m = (\<lambda>s. case m s of (r, s') \<Rightarrow> (map_err f r, s'))"

definition handle_transaction_broadcast ::
  "'t sled \<Rightarrow> server_env \<Rightarrow> json \<Rightarrow> 't server \<Rightarrow> (string + json) \<times> 't server" where
  "handle_transaction_broadcast S E params =
     (let B = env_bitcoin E in
      bindE (readE (\<lambda>_. ok_or ''missing raw transaction hex'' (str_param 0 params))) (\<lambda>raw_hex.
      bindE (readE (\<lambda>_. map_err (\<lambda>e. ''invalid hex: '' @ e) (hex_decode B raw_hex))) (\<lambda>raw_bytes.
      bindE (readE (\<lambda>_. map_err (\<lambda>e. ''invalid transaction: '' @ e) (deserialize_tx B raw_bytes)))
        (\<lambda>tx.
      bindE (modifyE (upd_metrics inc_transactions_broadcast)) (\<lambda>_.
        case env_broadcast E of
          Some send_tx \<Rightarrow>
            bindE (readE (\<lambda>_. map_err (\<lambda>e. ''broadcast failed: '' @ e) (send_tx tx))) (\<lambda>_.
            bindE (string_err (\<lambda>e. ''failed to cache broadcast transaction: '' @ show_error B e)
                     (on_state (track_pending_transaction_internal S B tx))) (\<lambda>affected.
            bindE (modifyE (broadcast_changes affected)) (\<lambda>_.
              returnE (JString (txid_to_string B (compute_txid B tx))))))
        | None \<Rightarrow> throwE ''transaction broadcast is only available in bridge mode'')))))"

definition handle_estimatefee :: "json \<Rightarrow> 't server \<Rightarrow> string + json" where
  "handle_estimatefee params sv =
     (case current_sat_per_vb sv of
        Some sat_per_vb \<Rightarrow> Inr (JFloat (f64_mul (f64_of_u64 sat_per_vb) f64_1e_5))
      | None \<Rightarrow> Inr (JInt (- 1)))"

definition handle_block_header :: "server_env \<Rightarrow> json \<Rightarrow> string + json" where
  "handle_block_header E params =
     bindR (ok_or ''missing height parameter'' (u64_param 0 params)) (\<lambda>height64.
       let height = (ucast height64 :: u32) in
       case env_header E height of
         Inr (Some hdr) \<Rightarrow> Inr (JString (serialize_header_hex (env_bitcoin E) hdr))
       | Inr None \<Rightarrow> Inl (''no header at height '' @ dec (unat height))
       | Inl e \<Rightarrow> Inl (''block_header error: '' @ e))"

text \<open>The loop of \<open>handle_block_headers\<close>, with the text and the counter it builds.\<close>

fun headers_loop :: "server_env \<Rightarrow> u32 list \<Rightarrow> string \<Rightarrow> u32 \<Rightarrow> string + string \<times> u32" where
  "headers_loop E [] headers_hex returned = Inr (headers_hex, returned)"
| "headers_loop E (h # hs) headers_hex returned =
     (case env_header E h of
        Inr (Some hdr) \<Rightarrow>
          headers_loop E hs (headers_hex @ serialize_header_hex (env_bitcoin E) hdr) (returned + 1)
      | Inr None \<Rightarrow> Inr (headers_hex, returned)
      | Inl e \<Rightarrow> Inl (''block_header('' @ dec (unat h) @ '') error: '' @ e))"

definition u32_range :: "u32 \<Rightarrow> u32 \<Rightarrow> u32 list" where
  "u32_range a b = map of_nat [unat a ..< unat b]"

definition handle_block_headers :: "server_env \<Rightarrow> json \<Rightarrow> string + json" where
  "handle_block_headers E params =
     bindR (ok_or ''missing start_height'' (u64_param 0 params)) (\<lambda>start64.
     bindR (ok_or ''missing count'' (u64_param 1 params)) (\<lambda>count64.
       let start = (ucast start64 :: u32); count = (ucast count64 :: u32) in
       bindR (headers_loop E (u32_range start (saturating_add start count)) [] 0)
         (\<lambda>(headers_hex, returned).
            Inr (JObject [(''count'', jnat returned), (''hex'', JString headers_hex),
                          (''max'', JInt 2016)]))))"

definition handle_relayfee :: "string + json" where
  "handle_relayfee = Inr (JFloat f64_1e_5)"

definition handle_fee_histogram ::
  "'t sled \<Rightarrow> bitcoin_lib \<Rightarrow> 't index_state \<Rightarrow> string + json" where
  "handle_fee_histogram S B st =
     bindR (map_err (\<lambda>e. ''fee histogram failed: '' @ show_error B e) (fee_histogram S B st))
       (\<lambda>rows. Inr (JArray (map (\<lambda>(rate, vsize). JArray [jnat rate, jnat vsize]) rows)))"

section \<open>Dispatch\<close>

text \<open>A request runs on the client's state and the shared state together.\<close>

type_synonym 't session = "client_state \<times> 't server"

definition on_client ::
  "('t index_state \<Rightarrow> client_state \<Rightarrow> (string + json) \<times> client_state) \<Rightarrow> 't session
     \<Rightarrow> (string + json) \<times> 't session" where
  "on_client m = (\<lambda>(c, sv). case m (sv_state sv) c of (r, c') \<Rightarrow> (r, (c', sv)))"

definition on_server ::
  "('t server \<Rightarrow> (string + json) \<times> 't server) \<Rightarrow> 't session \<Rightarrow> (string + json) \<times> 't session" where
  "on_server m = (\<lambda>(c, sv). case m sv of (r, sv') \<Rightarrow> (r, (c, sv')))"

definition query :: "('t index_state \<Rightarrow> string + json) \<Rightarrow> 't session \<Rightarrow> (string + json) \<times> 't session" where
  "query q = readE (\<lambda>(c, sv). q (sv_state sv))"

definition run_method ::
  "'t sled \<Rightarrow> server_env \<Rightarrow> string \<Rightarrow> json \<Rightarrow> 't session \<Rightarrow> (string + json) \<times> 't session" where
  "run_method S E m params =
     (let B = env_bitcoin E in
      if m = ''server.version'' then readE (\<lambda>_. handle_server_version params)
      else if m = ''server.ping'' then returnE JNull
      else if m = ''server.banner'' then returnE (JString BANNER)
      else if m = ''blockchain.headers.subscribe'' then on_client (handle_headers_subscribe E)
      else if m = ''blockchain.scripthash.get_history''
        then query (handle_scripthash_get_history S B params)
      else if m = ''blockchain.scripthash.get_balance''
        then query (handle_scripthash_get_balance S B params)
      else if m = ''blockchain.scripthash.get_mempool''
        then query (handle_scripthash_get_mempool S B params)
      else if m = ''blockchain.scripthash.listunspent''
        then query (handle_scripthash_listunspent S B params)
      else if m = ''blockchain.scripthash.subscribe''
        then on_client (handle_scripthash_subscribe S B params)
      else if m = ''blockchain.transaction.get'' then query (handle_transaction_get S B params)
      else if m = ''blockchain.transaction.broadcast''
        then on_server (handle_transaction_broadcast S E params)
      else if m = ''blockchain.estimatefee'' then readE (\<lambda>(c, sv). handle_estimatefee params sv)
      else if m = ''blockchain.block.header'' then readE (\<lambda>_. handle_block_header E params)
      else if m = ''blockchain.block.headers'' then readE (\<lambda>_. handle_block_headers E params)
      else if m = ''blockchain.relayfee'' then readE (\<lambda>_. handle_relayfee)
      else if m = ''mempool.get_fee_histogram'' then query (handle_fee_histogram S B)
      else throwE (''unknown method '' @ [CHR 0x27] @ m @ [CHR 0x27]))"

definition rpc_result :: "json \<Rightarrow> json \<Rightarrow> json" where
  "rpc_result i v = JObject [(''jsonrpc'', JString ''2.0''), (''id'', i), (''result'', v)]"

definition rpc_error :: "json \<Rightarrow> int \<Rightarrow> string \<Rightarrow> json" where
  "rpc_error i code msg =
     JObject [(''jsonrpc'', JString ''2.0''), (''id'', i),
              (''error'', JObject [(''code'', JInt code), (''message'', JString msg)])]"

definition field_or_null :: "string \<Rightarrow> json \<Rightarrow> json" where
  "field_or_null k req = (case json_field k req of None \<Rightarrow> JNull | Some v \<Rightarrow> v)"

definition request_method :: "json \<Rightarrow> string" where
  "request_method req =
     (case Option.bind (json_field ''method'' req) as_str of None \<Rightarrow> [] | Some m \<Rightarrow> m)"

definition dispatch_request ::
  "'t sled \<Rightarrow> server_env \<Rightarrow> string \<Rightarrow> 't session \<Rightarrow> json \<times> 't session" where
  "dispatch_request S E raw s =
     (case env_parse E raw of
        Inl e \<Rightarrow> (rpc_error JNull (- 32700) (''parse error: '' @ e), s)
      | Inr req \<Rightarrow>
          (case run_method S E (request_method req) (field_or_null ''params'' req) s of
             (Inr v, s') \<Rightarrow> (rpc_result (field_or_null ''id'' req) v, s')
           | (Inl msg, s') \<Rightarrow> (rpc_error (field_or_null ''id'' req) (- 32601) msg, s')))"

section \<open>Script hashes as parameters\<close>

lemma from_be_arr32 [simp]: "from_be (arr32 (w :: u256)) = w"
  by (rule from_be_be_bytes) simp

lemma parse_to_hex: "parse_scripthash (JArray (JString (to_hex sh) # rest)) = Inr sh"
proof -
  have "scripthash_byte (to_hex sh) i bs = Inr (bs[i := arr32 sh ! i])" if "i < 32" for i bs
    using that by (simp add: scripthash_byte_def to_hex_def del: add_2_eq_Suc')
  from foldR_fill [where p = id and n = 32 and a = "replicate 32 0", OF this] obtain r where r:
    "foldR (scripthash_byte (to_hex sh)) [0..<32] (replicate 32 0) = Inr r" "length r = 32"
    "\<forall>i < 32. r ! i = arr32 sh ! i"
    by (auto simp: bij_betw_def)
  have "r = arr32 sh" using r(2,3) by (intro nth_equalityI) auto
  then show ?thesis
    using r(1) by (simp add: parse_scripthash_def str_param_def to_hex_def)
qed

end
