(* ===== verification/ElectrumClient.thy ===== *)
theory ElectrumClient
  imports Electrum
begin

text \<open>
  \<open>src/electrum_server.rs\<close>, the connection side: the reader loop and the notification
  loop of a client, the accept loop, and the step relation in which clients, the indexer
  thread and the transaction-status thread share the server.
\<close>

section \<open>Connections\<close>

text \<open>A connection keeps what was written to it; writing fails once the peer is gone.\<close>

record conn =
  conn_alive :: bool
  conn_out :: "string list"

definition write_json :: "server_env \<Rightarrow> json \<Rightarrow> conn \<Rightarrow> (string + unit) \<times> conn" where
  "write_json E v cn =
     (if conn_alive cn then (Inr (), cn\<lparr>conn_out := conn_out cn @ [env_print E v @ [CHR 0x0A]]\<rparr>)
      else (Inl ''broken pipe'', cn))"

section \<open>The notification loop\<close>

text \<open>Polling the indexer until it has processed the event or the deadline has passed.\<close>

definition indexer_ready :: "u32 \<Rightarrow> block_event \<Rightarrow> bool" where
  "indexer_ready tip ev =
     (case ev of
        Connected blk height \<Rightarrow> height \<le> tip
      | Disconnected h height \<Rightarrow> tip < height
      | Synced height h \<Rightarrow> True)"

text \<open>
  \<open>tip i\<close> is the tip seen by poll \<open>i\<close> and \<open>late i\<close> whether the deadline has passed by then.
  The result is the number of polls.
\<close>

partial_function (option) wait_for_indexer_tip ::
  "(nat \<Rightarrow> u32) \<Rightarrow> (nat \<Rightarrow> bool) \<Rightarrow> block_event \<Rightarrow> nat \<Rightarrow> nat option" where
  "wait_for_indexer_tip tip late ev i =
     (if indexer_ready (tip i) ev \<or> late i then Some i
      else wait_for_indexer_tip tip late ev (Suc i))"

text \<open>The loop over the subscriptions, with the list of changes it collects.\<close>

definition refresh_status ::
  "'t sled \<Rightarrow> bitcoin_lib \<Rightarrow> 't index_state \<Rightarrow> script_hash
     \<Rightarrow> client_state \<times> (script_hash \<times> string option) list
     \<Rightarrow> client_state \<times> (script_hash \<times> string option) list" where
  "refresh_status S B st sh x =
     (case x of (c, changed) \<Rightarrow>
       (case script_status S B sh st of
          Inl e \<Rightarrow> (c, changed)
        | Inr status \<Rightarrow>
            let known = (case map_of (status_by_scripthash c) sh of
                           None \<Rightarrow> hm_insert sh None (status_by_scripthash c)
                         | Some _ \<Rightarrow> status_by_scripthash c)
            in if map_of known sh \<noteq> Some status
               then (c\<lparr>status_by_scripthash := hm_insert sh status known\<rparr>, changed @ [(sh, status)])
               else (c\<lparr>status_by_scripthash := known\<rparr>, changed)))"

definition refresh_statuses ::
  "'t sled \<Rightarrow> bitcoin_lib \<Rightarrow> (script_hash \<Rightarrow> bool) \<Rightarrow> 't index_state \<Rightarrow> client_state
     \<Rightarrow> client_state \<times> (script_hash \<times> string option) list" where
  "refresh_statuses S B affected st c =
     fold (refresh_status S B st) (filter affected (subscribed_scripthashes c)) (c, [])"

definition notification :: "string \<Rightarrow> json list \<Rightarrow> json" where
  "notification m params =
     JObject [(''jsonrpc'', JString ''2.0''), (''method'', JString m), (''params'', JArray params)]"

definition header_notification :: "(u32 \<times> string) option \<Rightarrow> json" where
  "header_notification current = notification ''blockchain.headers.subscribe'' [header_json current]"

definition status_notification :: "script_hash \<times> string option \<Rightarrow> json" where
  "status_notification x =
     notification ''blockchain.scripthash.subscribe''
       [JString (to_hex (fst x)), json_of_status (snd x)]"

text \<open>A failed write leaves the loop over the changes, not the notification loop.\<close>

fun write_statuses :: "server_env \<Rightarrow> (script_hash \<times> string option) list \<Rightarrow> conn \<Rightarrow> conn" where
  "write_statuses E [] cn = cn"
| "write_statuses E (x # xs) cn =
     (case write_json E (status_notification x) cn of
        (Inr _, cn') \<Rightarrow> write_statuses E xs cn'
      | (Inl _, cn') \<Rightarrow> cn')"

definition event_headers :: "server_env \<Rightarrow> 't index_state \<Rightarrow> block_event \<Rightarrow> (u32 \<times> string) option" where
  "event_headers E st ev =
     (case ev of
        Connected blk height \<Rightarrow> Some (height, serialize_header_hex (env_bitcoin E) (header blk))
      | _ \<Rightarrow> ok_flatten (current_header_status E st))"

definition update_header :: "(u32 \<times> string) option \<Rightarrow> client_state \<Rightarrow> bool \<times> client_state" where
  "update_header current c =
     (if headers_subscribed c \<and> header_subscription c \<noteq> current
      then (True, c\<lparr>header_subscription := current\<rparr>) else (False, c))"

text \<open>One message of each of the two channels; the flag tells whether the loop goes on.\<close>

definition notify_block ::
  "'t sled \<Rightarrow> server_env \<Rightarrow> 't index_state \<Rightarrow> block_event \<Rightarrow> client_state \<times> conn
     \<Rightarrow> bool \<times> client_state \<times> conn" where
  "notify_block S E st ev x =
     (case x of (c, cn) \<Rightarrow>
        (case ev of
           Synced height h \<Rightarrow> (True, c, cn)
         | _ \<Rightarrow>
             let current = event_headers E st ev;
                 (c1, changed) = refresh_statuses S (env_bitcoin E) (\<lambda>_. True) st c;
                 (send_header, c2) = update_header current c1
             in if send_header
                then (case write_json E (header_notification current) cn of
                        (Inr _, cn') \<Rightarrow> (True, c2, write_statuses E changed cn')
                      | (Inl _, cn') \<Rightarrow> (False, c2, cn'))
                else (True, c2, write_statuses E changed cn)))"

definition notify_pending ::
  "'t sled \<Rightarrow> server_env \<Rightarrow> 't index_state \<Rightarrow> script_hash list \<Rightarrow> client_state \<times> conn
     \<Rightarrow> bool \<times> client_state \<times> conn" where
  "notify_pending S E st affected x =
     (case x of (c, cn) \<Rightarrow>
        if affected = [] then (True, c, cn)
        else let (c1, changed) = refresh_statuses S (env_bitcoin E) (\<lambda>sh. sh \<in> set affected) st c
             in (True, c1, write_statuses E changed cn))"

section \<open>The reader loop\<close>

definition handle_line ::
  "'t sled \<Rightarrow> server_env \<Rightarrow> string \<Rightarrow> 't session \<times> conn \<Rightarrow> (string + unit) \<times> 't session \<times> conn" where
  "handle_line S E line x =
     (case x of (s, cn) \<Rightarrow>
        if line = [] then (Inr (), s, cn)
        else (case dispatch_request S E line (fst s, upd_metrics inc_electrum_requests (snd s)) of
                (response, s') \<Rightarrow>
                  (case write_json E response cn of (r, cn') \<Rightarrow> (r, s', cn'))))"

fun serve_lines ::
  "'t sled \<Rightarrow> server_env \<Rightarrow> (string + string) list \<Rightarrow> 't session \<times> conn
     \<Rightarrow> (string + unit) \<times> 't session \<times> conn" where
  "serve_lines S E [] x = (Inr (), x)"
| "serve_lines S E (Inl e # ls) x = (Inl (''read line: '' @ e), x)"
| "serve_lines S E (Inr line # ls) x =
     (case handle_line S E line x of
        (Inl e, x') \<Rightarrow> (Inl e, x')
      | (Inr _, x') \<Rightarrow> serve_lines S E ls x')"

section \<open>The server\<close>

text \<open>
  A client with the numbers of its two channels, and the state all threads share.
  \<open>cl_reading\<close> and \<open>cl_notify\<close> tell which of its two threads still run: the reader thread
  does not stop the notification thread when it returns. \<open>net_events\<close> is the subscriber
  list of the block source.
\<close>

record client =
  cl_state :: client_state
  cl_conn :: conn
  cl_events :: nat
  cl_pending :: nat
  cl_reading :: bool
  cl_notify :: bool

record 't net =
  net_server :: "'t server"
  net_events :: "block_event subscribers"
  net_clients :: "(nat \<times> client) list"
  net_next :: nat

definition accept_client :: "'t net \<Rightarrow> 't net" where
  "accept_client n =
     (case (subscribe (net_events n), subscribe (sv_changes (net_server n))) of
        ((ev, events), (pe, changes)) \<Rightarrow>
          n\<lparr>net_server := (upd_metrics inc_electrum_connections (net_server n))\<lparr>sv_changes := changes\<rparr>,
            net_events := events,
            net_clients := (net_next n, \<lparr>cl_state = new_client_state,
                               cl_conn = \<lparr>conn_alive = True, conn_out = []\<rparr>,
                               cl_events = ev, cl_pending = pe, cl_reading = True,
                               cl_notify = True\<rparr>) # net_clients n,
            net_next := Suc (net_next n)\<rparr>)"

definition upd_client :: "nat \<Rightarrow> client \<Rightarrow> 't net \<Rightarrow> 't net" where
  "upd_client i cl n = n\<lparr>net_clients := map (\<lambda>(j, d). (j, if j = i then cl else d)) (net_clients n)\<rparr>"

definition close_client :: "nat \<Rightarrow> 't net \<Rightarrow> 't net" where
  "close_client i n =
     (case map_of (net_clients n) i of
        None \<Rightarrow> n
      | Some cl \<Rightarrow>
          if cl_reading cl
          then (upd_client i (cl\<lparr>cl_reading := False\<rparr>) n)
                 \<lparr>net_server := upd_metrics dec_electrum_connections (net_server n)\<rparr>
          else n)"

definition client_line :: "'t sled \<Rightarrow> server_env \<Rightarrow> nat \<Rightarrow> string \<Rightarrow> 't net \<Rightarrow> 't net" where
  "client_line S E i line n =
     (case map_of (net_clients n) i of
        None \<Rightarrow> n
      | Some cl \<Rightarrow>
          if \<not> cl_reading cl then n
          else (case handle_line S E line ((cl_state cl, net_server n), cl_conn cl) of
             (r, (c, sv), cn) \<Rightarrow>
               let n' = (upd_client i (cl\<lparr>cl_state := c, cl_conn := cn\<rparr>) n)\<lparr>net_server := sv\<rparr>
               in (case r of Inr _ \<Rightarrow> n' | Inl _ \<Rightarrow> close_client i n')))"

text \<open>When the notification thread returns, the receivers of its two channels are dropped.\<close>

definition stop_notify :: "client \<Rightarrow> 't net \<Rightarrow> 't net" where
  "stop_notify cl n =
     n\<lparr>net_events := drop_receiver (cl_events cl) (net_events n),
       net_server := (net_server n)
         \<lparr>sv_changes := drop_receiver (cl_pending cl) (sv_changes (net_server n))\<rparr>\<rparr>"

definition client_block_event :: "'t sled \<Rightarrow> server_env \<Rightarrow> nat \<Rightarrow> 't net \<Rightarrow> 't net" where
  "client_block_event S E i n =
     (case map_of (net_clients n) i of
        Some cl \<Rightarrow>
          (if cl_notify cl then
             (case recv (cl_events cl) (net_events n) of
                (Some ev, events) \<Rightarrow>
                  (case notify_block S E (sv_state (net_server n)) ev (cl_state cl, cl_conn cl) of
                     (go, c, cn) \<Rightarrow>
                       let n' = (upd_client i (cl\<lparr>cl_state := c, cl_conn := cn, cl_notify := go\<rparr>) n)
                                  \<lparr>net_events := events\<rparr>
                       in (if go then n' else stop_notify cl n'))
              | (None, _) \<Rightarrow> n)
           else n)
      | None \<Rightarrow> n)"

definition client_pending_event :: "'t sled \<Rightarrow> server_env \<Rightarrow> nat \<Rightarrow> 't net \<Rightarrow> 't net" where
  "client_pending_event S E i n =
     (case map_of (net_clients n) i of
        Some cl \<Rightarrow>
          (if cl_notify cl then
             (case recv (cl_pending cl) (sv_changes (net_server n)) of
                (Some affected, changes) \<Rightarrow>
                  (case notify_pending S E (sv_state (net_server n)) affected (cl_state cl, cl_conn cl) of
                     (go, c, cn) \<Rightarrow>
                       (upd_client i (cl\<lparr>cl_state := c, cl_conn := cn, cl_notify := go\<rparr>) n)
                         \<lparr>net_server := (net_server n)\<lparr>sv_changes := changes\<rparr>\<rparr>)
              | (None, _) \<Rightarrow> n)
           else n)
      | None \<Rightarrow> n)"

text \<open>
  The threads as a step relation. Each step is the critical section of one thread, with
  the writes that follow it; the peer of a connection may disappear at any time.
\<close>

inductive thread_step :: "'t sled \<Rightarrow> server_env \<Rightarrow> 't net \<Rightarrow> 't net \<Rightarrow> bool" for S E where
  thread_accept: "thread_step S E n (accept_client n)"
| thread_close: "thread_step S E n (close_client i n)"
| thread_line: "thread_step S E n (client_line S E i line n)"
| thread_block: "thread_step S E n (client_block_event S E i n)"
| thread_pending: "thread_step S E n (client_pending_event S E i n)"
| thread_status: "thread_step S E n
    (n\<lparr>net_server := snd (apply_tx_status_change S (env_bitcoin E) txid_str status (net_server n))\<rparr>)"
| thread_fee: "thread_step S E n (n\<lparr>net_server := update_sat_per_vb rate (net_server n)\<rparr>)"
| thread_gone: "map_of (net_clients n) i = Some cl \<Longrightarrow>
    thread_step S E n (upd_client i (cl\<lparr>cl_conn := (cl_conn cl)\<lparr>conn_alive := False\<rparr>\<rparr>) n)"

text \<open>With a source that may send any event, and an indexer that may take any.\<close>

inductive net_step :: "'t sled \<Rightarrow> server_env \<Rightarrow> 't net \<Rightarrow> 't net \<Rightarrow> bool" for S E where
  net_thread: "thread_step S E n n' \<Longrightarrow> net_step S E n n'"
| net_source: "net_step S E n (n\<lparr>net_events := broadcast ev (net_events n)\<rparr>)"
| net_index: "net_step S E n
    (n\<lparr>net_server := (net_server n)\<lparr>sv_indexer :=
         handle_event S (env_bitcoin E) ev (sv_indexer (net_server n))\<rparr>\<rparr>)"

lemmas net_accept = net_thread [OF thread_accept]
lemmas net_close = net_thread [OF thread_close]
lemmas net_line = net_thread [OF thread_line]

definition new_server :: "'t indexer \<Rightarrow> 't server" where
  "new_server ind = \<lparr>sv_indexer = ind, sv_fee_rate = 0, sv_changes = new_subscribers\<rparr>"

definition new_net :: "'t indexer \<Rightarrow> 't net" where
  "new_net ind = \<lparr>net_server = new_server ind, net_events = new_subscribers, net_clients = [],
                  net_next = 0\<rparr>"

text \<open>The accept loop: one outcome of \<open>accept\<close> per iteration until shutdown is requested.\<close>

datatype accept_outcome = Accepted | WouldBlock | Interrupted | AcceptFailed

fun accept_loop :: "(bool \<times> accept_outcome) list \<Rightarrow> 't net \<Rightarrow> 't net" where
  "accept_loop [] n = n"
| "accept_loop ((shutdown, outcome) # os) n =
     (if shutdown then n
      else case outcome of
             Accepted \<Rightarrow> accept_loop os (accept_client n)
           | _ \<Rightarrow> accept_loop os n)"

end
