(* ===== verification/Config.thy ===== *)
theory Config
  imports Helpers
begin

text \<open>
  \<open>src/config.rs\<close>: the command line, already split into options by the \<open>clap\<close> crate, becomes
  the configuration of one of the modes. The environment variable \<open>HOME\<close> is an argument.
\<close>

section \<open>Data\<close>

datatype level = LError | LWarn | LInfo | LDebug | LTrace

text \<open>A socket address of the IPv4 kind: four bytes and a port.\<close>

record socket_addr =
  addr_ip :: bytes
  addr_port :: u16

record config =
  cfg_network :: network
  electrum_listen_addr :: socket_addr
  nakamoto_peers :: "socket_addr list"
  index_dir :: string
  log_level :: level
  max_reorg_depth :: u32

record nakamoto_config =
  nk_network :: network
  nk_peers :: "socket_addr list"
  nk_index_dir :: string
  nk_log_level :: level

datatype network_arg = ArgMainnet | ArgTestnet | ArgSignet | ArgRegtest

datatype level_arg = ArgError | ArgWarn | ArgInfo | ArgDebug | ArgTrace

datatype command = CNakamoto | CElectrs

record cli =
  cli_network :: network_arg
  cli_listen :: "socket_addr option"
  cli_data_dir :: "string option"
  cli_peer :: "socket_addr list"
  cli_log :: level_arg
  cli_max_reorg_depth :: u32
  cli_command :: "command option"

datatype mode = Bridge config | Nakamoto nakamoto_config | Electrs

fun network_of_arg :: "network_arg \<Rightarrow> network" where
  "network_of_arg ArgMainnet = Mainnet"
| "network_of_arg ArgTestnet = Testnet"
| "network_of_arg ArgSignet = Signet"
| "network_of_arg ArgRegtest = Regtest"

fun level_of_arg :: "level_arg \<Rightarrow> level" where
  "level_of_arg ArgError = LError"
| "level_of_arg ArgWarn = LWarn"
| "level_of_arg ArgInfo = LInfo"
| "level_of_arg ArgDebug = LDebug"
| "level_of_arg ArgTrace = LTrace"

section \<open>Defaults\<close>

definition DEFAULT_REORG_DEPTH :: u32 where
  "DEFAULT_REORG_DEPTH = 100"

text \<open>\<open>PathBuf::push\<close> on a Unix system.\<close>

definition path_push :: "string \<Rightarrow> string \<Rightarrow> string" where
  "path_push dir p =
     (if p \<noteq> [] \<and> hd p = CHR ''/'' then p
      else if dir \<noteq> [] \<and> last dir \<noteq> CHR ''/'' then dir @ ''/'' @ p
      else dir @ p)"

definition dirs_or_home :: "string option \<Rightarrow> string" where
  "dirs_or_home home = (case home of Some h \<Rightarrow> h | None \<Rightarrow> ''.'')"

fun network_dir :: "network \<Rightarrow> string" where
  "network_dir Mainnet = ''mainnet''"
| "network_dir Testnet = ''testnet''"
| "network_dir Signet = ''signet''"
| "network_dir Regtest = ''regtest''"

definition default_index_dir :: "string option \<Rightarrow> network \<Rightarrow> string" where
  "default_index_dir home n =
     path_push (path_push (dirs_or_home home) ''.nakamoto-electrs'') (network_dir n)"

text \<open>The address that the text \<open>127.0.0.1:port\<close> denotes.\<close>

definition default_electrum_addr :: "network \<Rightarrow> socket_addr" where
  "default_electrum_addr n = \<lparr>addr_ip = [127, 0, 0, 1], addr_port = default_electrum_port n\<rparr>"

definition config_new :: "string option \<Rightarrow> network \<Rightarrow> config" where
  "config_new home n =
     \<lparr>cfg_network = n, electrum_listen_addr = default_electrum_addr n, nakamoto_peers = [],
      index_dir = default_index_dir home n, log_level = LInfo,
      max_reorg_depth = DEFAULT_REORG_DEPTH\<rparr>"

definition nakamoto_config_new :: "string option \<Rightarrow> network \<Rightarrow> nakamoto_config" where
  "nakamoto_config_new home n =
     \<lparr>nk_network = n, nk_peers = [], nk_index_dir = default_index_dir home n, nk_log_level = LInfo\<rparr>"

section \<open>From options to a mode\<close>

definition into_mode :: "string option \<Rightarrow> cli \<Rightarrow> mode" where
  "into_mode home c =
     (let n = network_of_arg (cli_network c);
          lvl = level_of_arg (cli_log c);
          listen = (case cli_listen c of Some a \<Rightarrow> a | None \<Rightarrow> default_electrum_addr n);
          dir = (case cli_data_dir c of Some d \<Rightarrow> d | None \<Rightarrow> default_index_dir home n);
          bridge = \<lparr>cfg_network = n, electrum_listen_addr = listen, nakamoto_peers = cli_peer c,
                    index_dir = dir, log_level = lvl, max_reorg_depth = cli_max_reorg_depth c\<rparr>;
          nakamoto = \<lparr>nk_network = n, nk_peers = cli_peer c, nk_index_dir = dir,
                      nk_log_level = lvl\<rparr>
      in case cli_command c of
           Some CNakamoto \<Rightarrow> Nakamoto nakamoto
         | Some CElectrs \<Rightarrow> Electrs
         | None \<Rightarrow> Bridge bridge)"

text \<open>\<open>main\<close>, with the entry points of the modes as arguments.\<close>

definition run_main ::
  "(config \<Rightarrow> 'r) \<Rightarrow> (nakamoto_config \<Rightarrow> 'r) \<Rightarrow> 'r \<Rightarrow> string option \<Rightarrow> cli \<Rightarrow> 'r" where
  "run_main run_bridge run_nakamoto run_electrs home c =
     (case into_mode home c of
        Bridge cfg \<Rightarrow> run_bridge cfg
      | Nakamoto cfg \<Rightarrow> run_nakamoto cfg
      | Electrs \<Rightarrow> run_electrs)"

section \<open>Directories of different networks\<close>

lemma path_push_relative:
  assumes "p \<noteq> []" and "hd p \<noteq> CHR ''/''"
  shows "path_push dir p = (if dir \<noteq> [] \<and> last dir \<noteq> CHR ''/'' then dir @ ''/'' else dir) @ p"
  using assms by (simp add: path_push_def)

lemma path_push_inject:
  assumes "p \<noteq> []" and "hd p \<noteq> CHR ''/''" and "q \<noteq> []" and "hd q \<noteq> CHR ''/''"
  shows "path_push dir p = path_push dir q \<longleftrightarrow> p = q"
  using assms by (simp add: path_push_relative)

lemma network_dir_facts [simp]:
  "network_dir n \<noteq> []" "hd (network_dir n) \<noteq> CHR ''/''" "network_dir m = network_dir n \<longleftrightarrow> m = n"
proof -
  show "network_dir n \<noteq> []" "hd (network_dir n) \<noteq> CHR ''/''" by (cases n; simp)+
  show "network_dir m = network_dir n \<longleftrightarrow> m = n" by (cases m; cases n; simp)
qed

end
