(* ===== verification/App.thy ===== *)
theory App
  imports ElectrumClient Config
begin

text \<open>
  \<open>src/app.rs\<close>: starting the nakamoto client over its on-disk cache, the helper threads
  and the two entry points. What the operating system, the client thread and the clock
  contribute to an iteration of a loop is an argument: a list with one element for each
  iteration. A run that is still in the loop when the list ends says so.
  Files change only by removal: what a client writes in a round that ends with a conflict is
  removed before the next round.
\<close>

section \<open>The cache of the client\<close>

text \<open>
  The files below the data directory with their lengths. \<open>remove_dir_all\<close> either removes
  everything below the directory or, where \<open>can_remove\<close> denies it, nothing.
\<close>

type_synonym files = "(string \<times> u64) list"

definition remove_dir_all :: "(string \<Rightarrow> bool) \<Rightarrow> string \<Rightarrow> files \<Rightarrow> files" where
  "remove_dir_all can_remove dir fs =
     (if can_remove dir then filter (\<lambda>(p, _). \<not> starts_with (dir @ ''/'') p) fs else fs)"

definition metadata_len :: "files \<Rightarrow> string \<Rightarrow> u64 option" where
  "metadata_len fs p = map_of fs p"

definition unwrap_or_0 :: "u64 option \<Rightarrow> u64" where
  "unwrap_or_0 x = (case x of None \<Rightarrow> 0 | Some n \<Rightarrow> n)"

text \<open>\<open>nk_name\<close> is the directory name that the client uses for a network.\<close>

definition clear_corrupt_nakamoto_cache ::
  "(string \<Rightarrow> bool) \<Rightarrow> string \<Rightarrow> string \<Rightarrow> string \<Rightarrow> files \<Rightarrow> bool \<times> files" where
  "clear_corrupt_nakamoto_cache can_remove cache_dir legacy_cache_dir nk_name fs =
     (let network_cache_dir = path_push cache_dir nk_name;
          headers_meta = metadata_len fs (path_push network_cache_dir ''headers.db'');
          filters_meta = metadata_len fs (path_push network_cache_dir ''filters.db'');
          headers_exists = (headers_meta \<noteq> None); filters_exists = (filters_meta \<noteq> None)
      in if \<not> headers_exists \<and> \<not> filters_exists then (False, fs)
         else
           (let headers_len = unwrap_or_0 headers_meta; filters_len = unwrap_or_0 filters_meta;
                headers_ok = (headers_exists \<and> 0 < headers_len \<and> headers_len mod 80 = 0);
                filters_ok = (filters_exists \<and> 0 < filters_len \<and> filters_len mod 64 = 0)
            in if headers_ok \<and> filters_ok \<and> headers_len div 80 = filters_len div 64
               then (False, fs)
               else (True, remove_dir_all can_remove legacy_cache_dir
                             (remove_dir_all can_remove cache_dir fs))))"

section \<open>Starting the client\<close>

fun contains :: "string \<Rightarrow> string \<Rightarrow> bool" where
  "contains s [] \<longleftrightarrow> s = []"
| "contains s (c # t) \<longleftrightarrow> starts_with s (c # t) \<or> contains s t"

datatype client_wait = StartupError string | StartupTimeout | StartupDisconnected

text \<open>
  One iteration: the shutdown flag when it begins, the result of creating the client and
  its thread, what arrives on the channel within two seconds, and the flag after that.
\<close>

record startup_round =
  sr_shutdown :: bool
  sr_client :: "string + unit"
  sr_wait :: client_wait
  sr_shutdown_late :: bool

datatype startup_result = ShutDown | Running | Failed string | StillStarting

definition genesis_mismatch :: string where
  "genesis_mismatch = ''stored genesis header doesn'' @ [CHR 0x27] @ ''t match network genesis''"

fun startup_loop ::
  "(string \<Rightarrow> bool) \<Rightarrow> string \<Rightarrow> string \<Rightarrow> string \<Rightarrow> startup_round list \<Rightarrow> files
     \<Rightarrow> startup_result \<times> files" where
  "startup_loop can_remove cache_dir legacy nk_name [] fs = (StillStarting, fs)"
| "startup_loop can_remove cache_dir legacy nk_name (r # rs) fs =
     (if sr_shutdown r then (ShutDown, fs)
      else (case clear_corrupt_nakamoto_cache can_remove cache_dir legacy nk_name fs of
        (True, fs') \<Rightarrow> startup_loop can_remove cache_dir legacy nk_name rs fs'
      | (False, _) \<Rightarrow>
          (case sr_client r of
             Inl e \<Rightarrow> (Failed e, fs)
           | Inr _ \<Rightarrow>
               (case sr_wait r of
                  StartupError err \<Rightarrow>
                    if contains genesis_mismatch err
                    then startup_loop can_remove cache_dir legacy nk_name rs
                           (remove_dir_all can_remove legacy (remove_dir_all can_remove cache_dir fs))
                    else (Failed err, fs)
                | StartupTimeout \<Rightarrow> (if sr_shutdown_late r then ShutDown else Running, fs)
                | StartupDisconnected \<Rightarrow>
                    (Failed ''nakamoto client startup channel disconnected'', fs)))))"

section \<open>The helper threads\<close>

datatype client_event =
    TxStatusChanged string string
  | FeeEstimated u64
  | OtherClientEvent

definition fee_rate_thread :: "client_event list \<Rightarrow> 't server \<Rightarrow> 't server" where
  "fee_rate_thread evs sv =
     fold (\<lambda>ev s. case ev of FeeEstimated median \<Rightarrow> update_sat_per_vb median s | _ \<Rightarrow> s) evs sv"

text \<open>One iteration: the shutdown flag, and the event or the timeout on the channel.\<close>

fun tx_status_thread ::
  "'t sled \<Rightarrow> bitcoin_lib \<Rightarrow> (bool \<times> client_event option) list \<Rightarrow> 't server \<Rightarrow> 't server" where
  "tx_status_thread S B [] sv = sv"
| "tx_status_thread S B ((shutdown, msg) # ms) sv =
     (if shutdown then sv
      else case msg of
             Some (TxStatusChanged t status) \<Rightarrow>
               tx_status_thread S B ms (snd (apply_tx_status_change S B t status sv))
           | _ \<Rightarrow> tx_status_thread S B ms sv)"

datatype peers_outcome = PeersOk | PeersErr string | PeersTimeout | PeersDisconnected

text \<open>
  One iteration: the shutdown flag before and, on a timeout, after the wait. The result
  \<open>Some True\<close> means that startup goes on, \<open>Some False\<close> that the program ends.
\<close>

fun peers_loop :: "(bool \<times> peers_outcome \<times> bool) list \<Rightarrow> bool option" where
  "peers_loop [] = None"
| "peers_loop ((shutdown, out, late) # ws) =
     (if shutdown then Some False
      else case out of
             PeersTimeout \<Rightarrow> if late then Some False else peers_loop ws
           | _ \<Rightarrow> Some True)"

section \<open>Shutdown\<close>

text \<open>
  Polling the flag: \<open>flag i\<close> is its value at poll \<open>i\<close>, and the result the number of polls. The
  watcher thread runs the same loop and then shuts the light client down.
\<close>

partial_function (option) wait_for_shutdown :: "(nat \<Rightarrow> bool) \<Rightarrow> nat \<Rightarrow> nat option" where
  "wait_for_shutdown flag i = (if flag i then Some i else wait_for_shutdown flag (Suc i))"

definition spawn_shutdown_watcher :: "('h \<Rightarrow> 'h) \<Rightarrow> (nat \<Rightarrow> bool) \<Rightarrow> 'h \<Rightarrow> 'h option" where
  "spawn_shutdown_watcher shutdown_client flag handle =
     map_option (\<lambda>_. shutdown_client handle) (wait_for_shutdown flag 0)"

section \<open>Entry points\<close>

record bridge_env =
  be_can_remove :: "string \<Rightarrow> bool"
  be_network_name :: "network \<Rightarrow> string"
  be_rounds :: "startup_round list"
  be_files :: files
  be_peers :: "(bool \<times> peers_outcome \<times> bool) list"
  be_shutdown :: bool
  be_bind :: "socket_addr \<Rightarrow> string + unit"

text \<open>
  \<open>run_bridge\<close> up to the accept loop: \<open>None\<close> for an orderly shutdown on the way, otherwise
  the server as it begins to serve. \<open>opened\<close> is the result of opening the index below a
  directory.
\<close>

definition client_startup ::
  "bridge_env \<Rightarrow> string \<Rightarrow> network \<Rightarrow> startup_result \<times> files" where
  "client_startup E dir n =
     startup_loop (be_can_remove E) (path_push (path_push dir ''nakamoto'') ''.nakamoto'')
       (path_push dir ''.nakamoto'') (be_network_name E n) (be_rounds E) (be_files E)"

text \<open>The last part: the wait for peers, binding the listener and serving.\<close>

definition bridge_server :: "bridge_env \<Rightarrow> config \<Rightarrow> 't index_state \<Rightarrow> string + 't net option" where
  "bridge_server E cfg st =
     (if peers_loop (be_peers E) = Some True \<and> \<not> be_shutdown E
      then bindR (be_bind E (electrum_listen_addr cfg)) (\<lambda>_.
             Inr (Some (new_net \<lparr>state = st, ixr_metrics = new_metrics\<rparr>)))
      else Inr None)"

definition run_bridge ::
  "'t sled \<Rightarrow> bitcoin_lib \<Rightarrow> (string \<Rightarrow> error + 't pindex) \<Rightarrow> bridge_env \<Rightarrow> config
     \<Rightarrow> string + 't net option" where
  "run_bridge S B opened E cfg =
     (case client_startup E (index_dir cfg) (cfg_network cfg) of
        (Failed e, _) \<Rightarrow> Inl e
      | (Running, _) \<Rightarrow>
          bindR (map_err (show_error B)
                   (new_index_state S B (opened (path_push (index_dir cfg) ''index''))))
            (bridge_server E cfg)
      | _ \<Rightarrow> Inr None)"

text \<open>
  \<open>run_nakamoto\<close>, with the flag as its final loop sees it: \<open>None\<close> when it does not return, or
  is still starting at the end of the list of rounds.
\<close>

definition run_nakamoto :: "bridge_env \<Rightarrow> (nat \<Rightarrow> bool) \<Rightarrow> nakamoto_config \<Rightarrow> (string + unit) option" where
  "run_nakamoto E flag cfg =
     (case client_startup E (nk_index_dir cfg) (nk_network cfg) of
        (Failed e, _) \<Rightarrow> Some (Inl e)
      | (Running, _) \<Rightarrow> map_option (\<lambda>_. Inr ()) (wait_for_shutdown flag 0)
      | (ShutDown, _) \<Rightarrow> Some (Inr ())
      | (StillStarting, _) \<Rightarrow> None)"

end
