(* ===== verification/Fixtures.thy ===== *)
theory Fixtures
  imports IndexState
begin

text \<open>
  Small concrete data over the reference instances of the two crates: on these the
  hypotheses of the properties hold. A transaction is identified by its version field.
\<close>

definition ref_out :: "bytes \<Rightarrow> u64 \<Rightarrow> txout" where
  "ref_out script val = \<lparr>tx_value = val, script_pubkey = script\<rparr>"

definition ref_in :: "txid \<Rightarrow> u32 \<Rightarrow> txin" where
  "ref_in t v = \<lparr>previous_output = \<lparr>op_txid = t, op_vout = v\<rparr>, script_sig = [], tx_sequence = 0,
                 witness = []\<rparr>"

definition ref_tx :: "i32 \<Rightarrow> txin list \<Rightarrow> txout list \<Rightarrow> transaction" where
  "ref_tx v xs ys = \<lparr>tx_version = v, lock_time = 0, tx_input = xs, tx_output = ys\<rparr>"

definition ref_header :: "u32 \<Rightarrow> block_header" where
  "ref_header n = \<lparr>header_version = 1, prev_blockhash = 0, merkle_root = 0, header_time = 0,
                   header_bits = 0, header_nonce = n\<rparr>"

definition ref_pindex :: "(bytes \<times> bytes) list pindex" where
  "ref_pindex = \<lparr>ix_history = [], ix_outputs = [], ix_txs = [], ix_utxos = [], ix_journal = [],
                 ix_meta = []\<rparr>"

definition ref_state :: "(bytes \<times> bytes) list index_state" where
  "ref_state = \<lparr>history = [], by_height = [], pending_txs = [], pending_outputs = [],
                tip_height = 0, store = ref_pindex\<rparr>"

text \<open>A confirmed output of 50 units for the script \<open>[1]\<close>, spent by a parent; its child.\<close>

definition ref_parent :: transaction where
  "ref_parent = ref_tx 2 [ref_in 9 0] [ref_out [1] 40]"

definition ref_child :: transaction where
  "ref_child = ref_tx 3 [ref_in 2 0] [ref_out [5] 30]"

definition ref_chain :: "(bytes \<times> bytes) list index_state" where
  "ref_chain = rebuild_pending_view ref_bitcoin
     (ref_state\<lparr>pending_txs := [(2, ref_parent), (3, ref_child)]\<rparr>)"

lemma ref_tx_simps [simp]:
  "tx_input (ref_tx v xs ys) = xs" "tx_output (ref_tx v xs ys) = ys"
  "compute_txid ref_bitcoin (ref_tx v xs ys) = ucast v"
  "previous_output (ref_in t n) = \<lparr>op_txid = t, op_vout = n\<rparr>"
  "tx_version (ref_tx v xs ys) = v"
  "script_pubkey (ref_out s x) = s" "tx_value (ref_out s x) = x"
  by (simp_all add: ref_tx_def ref_in_def ref_out_def)

lemma ref_chain_simps [simp]:
  "pending_txs ref_chain = [(2, ref_parent), (3, ref_child)]" "store ref_chain = ref_pindex"
  by (simp_all add: ref_chain_def rebuild_pending_view_def ref_state_def)

lemma ref_txids [simp]: "tx_version ref_parent = 2" "tx_version ref_child = 3"
  by (simp_all add: ref_parent_def ref_child_def)

end
