(* ===== verification/StoreSpec.thy ===== *)
theory StoreSpec
  imports Fixtures "HOL-Library.Multiset"
begin

text \<open>
  What the persistent index promises: its encodings are exact, opening takes the first
  attempt that succeeds, and the queries over its trees return what the trees hold.
\<close>

section \<open>Encodings\<close>

text \<open>A history key is accepted with the fields of \<open>(sh, h, k, t, s)\<close> exactly when it is
  the key written for them.\<close>

lemma history_key_codec:
  "(\<exists>e. parse_history_key key = Inr e \<and> sh_script_hash e = sh \<and> sh_height e = h
      \<and> sh_kind e = history_kind_u8 k \<and> sh_txid e = t \<and> sh_sequence e = s)
   \<longleftrightarrow> key = history_key sh h k t s"
proof
  assume "\<exists>e. parse_history_key key = Inr e \<and> sh_script_hash e = sh \<and> sh_height e = h
      \<and> sh_kind e = history_kind_u8 k \<and> sh_txid e = t \<and> sh_sequence e = s"
  then obtain e where e: "parse_history_key key = Inr e" "sh_script_hash e = sh" "sh_height e = h"
    "sh_kind e = history_kind_u8 k" "sh_txid e = t" "sh_sequence e = s" by blast
  then have len: "length key = 73" by (auto simp: parse_history_key_def split: if_splits)
  have kind: "bslice 36 (Suc 0) key = [key ! 36]"
    using len by (simp add: bslice_def take_Suc_conv_app_nth Cons_nth_drop_Suc [symmetric])
  have "history_key sh h k t s
      = bslice 0 32 key @ bslice 32 4 key @ bslice 36 1 key @ bslice 37 32 key @ bslice 69 4 key"
    using e len
    by (auto simp: history_key_def parse_history_key_def be_bytes_bslice kind)
  also have "\<dots> = key"
    using len bslice_append [of 37 32 key 4] bslice_append [of 36 1 key 36]
      bslice_append [of 32 4 key 37] bslice_append [of 0 32 key 41]
    by (simp add: bslice_all)
  finally show "key = history_key sh h k t s" by simp
next
  assume "key = history_key sh h k t s"
  then show "\<exists>e. parse_history_key key = Inr e \<and> sh_script_hash e = sh \<and> sh_height e = h
      \<and> sh_kind e = history_kind_u8 k \<and> sh_txid e = t \<and> sh_sequence e = s"
    by (simp add: parse_history_key_make)
qed

text \<open>C32: The bytes of an output decode to \<open>out\<close> exactly when they encode it, under the
  outpoint they are stored for.\<close>

theorem output_codec_exact:
  "decode_output p raw = Inr out
     \<longleftrightarrow> raw = encode_output out \<and> so_txid out = op_txid p \<and> so_vout out = op_vout p"
proof
  assume "decode_output p raw = Inr out"
  then show "raw = encode_output out \<and> so_txid out = op_txid p \<and> so_vout out = op_vout p"
    using decode_output_exact by (fastforce simp: decode_output_def split: if_splits)
next
  assume "raw = encode_output out \<and> so_txid out = op_txid p \<and> so_vout out = op_vout p"
  then show "decode_output p raw = Inr out"
    using decode_encode_output [of p out] by simp
qed

text \<open>The stored list of pending txids decodes to \<open>ts\<close> exactly when it encodes \<open>ts\<close>.\<close>

lemma txid_list_exact: "decode_txid_list raw = Inr ts \<longleftrightarrow> raw = encode_txid_list ts"
  by (rule txid_list_codec.decode_iff)

text \<open>C33: A journal entry is read as the action \<open>a\<close> exactly when it is the entry written for
  the height, sequence number, kind and payload of \<open>a\<close>.\<close>

theorem journal_entry_codec:
  "parse_journal_action key v = Inr a \<longleftrightarrow>
     key = journal_key (ja_height a) (ja_sequence a) \<and> ja_journal_key a = key
     \<and> v = journal_kind_u8 (ja_kind a) # ja_payload a"
proof
  assume a: "parse_journal_action key v = Inr a"
  then have len: "length key = 8" by (auto simp: parse_journal_action_def split: if_splits)
  from a obtain b where v: "v = b # ja_payload a"
    by (auto simp: parse_journal_action_def bindR_def split: if_splits list.splits)
  with a have "b = journal_kind_u8 (ja_kind a)" and fields: "ja_journal_key a = key"
    "ja_height a = from_be (bslice 0 4 key)" "ja_sequence a = from_be (bslice 4 4 key)"
    by (cases a; auto simp: parse_journal_action_def split: if_splits)+
  moreover have "journal_key (ja_height a) (ja_sequence a) = key"
    using len bslice_append [of 0 4 key 4]
    by (simp add: journal_key_def fields be_bytes_bslice bslice_all)
  ultimately show "key = journal_key (ja_height a) (ja_sequence a) \<and> ja_journal_key a = key
     \<and> v = journal_kind_u8 (ja_kind a) # ja_payload a"
    using v by simp
next
  assume "key = journal_key (ja_height a) (ja_sequence a) \<and> ja_journal_key a = key
     \<and> v = journal_kind_u8 (ja_kind a) # ja_payload a"
  then show "parse_journal_action key v = Inr a"
    using parse_journal_action_make [of "ja_height a" "ja_sequence a" "ja_kind a" "ja_payload a"]
    by (cases a) simp
qed

section \<open>Opening\<close>

lemma open_attempts_fail:
  "(\<And>i. i < n \<Longrightarrow> \<exists>e. open_db (a + i) = Inl e) \<Longrightarrow>
     open_attempts open_db open_tree le a (n + m)
       = open_attempts open_db open_tree
           (if n = 0 then le else Some (projl (open_db (a + n - 1)))) (a + n) m"
proof (induction n arbitrary: a le)
  case (Suc n)
  obtain e where e: "open_db a = Inl e" using Suc.prems [of 0] by auto
  have "open_attempts open_db open_tree (Some e) (Suc a) (n + m)
      = open_attempts open_db open_tree
          (if n = 0 then Some e else Some (projl (open_db (Suc a + n - 1)))) (Suc a + n) m"
  proof (rule Suc.IH)
    fix i assume "i < n"
    then show "\<exists>e. open_db (Suc a + i) = Inl e" using Suc.prems [of "Suc i"] by simp
  qed
  with e show ?case by (cases n) simp_all
qed simp

definition trees_open :: "('db \<Rightarrow> string \<Rightarrow> string + 't) \<Rightarrow> 'db \<Rightarrow> 't pindex \<Rightarrow> bool" where
  "trees_open open_tree db ix \<longleftrightarrow>
     open_tree db ''history'' = Inr (ix_history ix) \<and> open_tree db ''outputs'' = Inr (ix_outputs ix) \<and>
     open_tree db ''txs'' = Inr (ix_txs ix) \<and> open_tree db ''utxos'' = Inr (ix_utxos ix) \<and>
     open_tree db ''journal'' = Inr (ix_journal ix) \<and> open_tree db ''meta'' = Inr (ix_meta ix)"

text \<open>C30: Opening the index takes the first of ten attempts that succeeds; when all ten fail
  it reports the error of the last one.\<close>

theorem open_index_attempts:
  assumes "\<forall>i < k. \<exists>e. open_db i = Inl e" and "k \<le> 10"
    and "k < 10 \<longrightarrow> (\<exists>db. open_db k = Inr db \<and> trees_open open_tree db ix)"
  shows "open_index open_db open_tree
    = (if k < 10 then Inr ix else Inl (OpenFailed (projl (open_db 9))))"
proof (cases "k < 10")
  case True
  then obtain db where db: "open_db k = Inr db" "trees_open open_tree db ix" using assms(3) by blast
  have "open_index open_db open_tree = open_attempts open_db open_tree None 0 (k + Suc (9 - k))"
    using True by (simp add: open_index_def)
  also have "\<dots> = open_attempts open_db open_tree
      (if k = 0 then None else Some (projl (open_db (0 + k - 1)))) (0 + k) (Suc (9 - k))"
    by (rule open_attempts_fail) (use assms(1) in auto)
  also have "\<dots> = Inr ix" using db by (simp add: trees_open_def)
  finally show ?thesis using True by simp
next
  case False
  with assms(2) have k: "k = 10" by simp
  have "open_attempts open_db open_tree None 0 (10 + 0)
      = open_attempts open_db open_tree
          (if (10 :: nat) = 0 then None else Some (projl (open_db (0 + 10 - 1)))) (0 + 10) 0"
    by (rule open_attempts_fail) (use assms(1) k in auto)
  then show ?thesis using k by (simp add: open_index_def)
qed

theorem open_index_attempts_witness:
  "open_index (\<lambda>i. if i < 3 then Inl ''locked'' else Inr ()) (\<lambda>_ _. Inr ([] :: (bytes \<times> bytes) list))
     = Inr ref_pindex"
  using open_index_attempts [of 3 "\<lambda>i. if i < 3 then Inl ''locked'' else Inr ()"
      "\<lambda>_ _. Inr ([] :: (bytes \<times> bytes) list)" ref_pindex]
  by (simp add: trees_open_def ref_pindex_def)

section \<open>Unspent outputs and balances\<close>

text \<open>
  Every entry of the unspent tree is the key of a stored output with the output's value:
  the consistency that indexing keeps.
\<close>

definition utxos_wf :: "'t sled \<Rightarrow> 't pindex \<Rightarrow> bool" where
  "utxos_wf S ix \<longleftrightarrow>
     (\<forall>key v. view S (ix_utxos ix) key = Some v \<longrightarrow>
        (\<exists>out. key = utxo_key (so_script_hash out) (so_txid out) (so_vout out)
             \<and> v = u64_be (so_value out)
             \<and> view S (ix_outputs ix) (outpoint_key \<lparr>op_txid = so_txid out, op_vout = so_vout out\<rparr>)
                 = Some (encode_output out)))"

text \<open>The unspent outputs of a script.\<close>

definition unspent_outputs :: "'t sled \<Rightarrow> 't pindex \<Rightarrow> script_hash \<Rightarrow> stored_output set" where
  "unspent_outputs S ix sh =
     {out. so_script_hash out = sh
         \<and> view S (ix_utxos ix) (utxo_key sh (so_txid out) (so_vout out)) \<noteq> None
         \<and> view S (ix_outputs ix) (outpoint_key \<lparr>op_txid = so_txid out, op_vout = so_vout out\<rparr>)
             = Some (encode_output out)}"

definition utxo_entries :: "'t sled \<Rightarrow> 't pindex \<Rightarrow> script_hash \<Rightarrow> (bytes \<times> bytes) list" where
  "utxo_entries S ix sh = filter (\<lambda>e. starts_with (arr32 sh) (fst e)) (entries S (ix_utxos ix))"

lemma encode_output_inject:
  "encode_output a = encode_output b \<Longrightarrow> so_txid a = so_txid b \<Longrightarrow> so_vout a = so_vout b \<Longrightarrow> a = b"
  by (cases a; cases b) (simp add: encode_output_def)

definition entry_of :: "stored_output \<Rightarrow> bytes \<times> bytes" where
  "entry_of out =
     (utxo_key (so_script_hash out) (so_txid out) (so_vout out), u64_be (so_value out))"

lemma utxo_entries_bij:
  assumes S: "sled_ok S" and wf: "utxos_wf S ix"
  shows "bij_betw entry_of (unspent_outputs S ix sh) (set (utxo_entries S ix sh))"
  unfolding bij_betw_def
proof
  show "inj_on entry_of (unspent_outputs S ix sh)"
    by (auto simp: inj_on_def entry_of_def unspent_outputs_def intro: encode_output_inject)
  have "entry_of out \<in> set (utxo_entries S ix sh)" if out: "out \<in> unspent_outputs S ix sh" for out
  proof -
    obtain v where v: "view S (ix_utxos ix) (utxo_key sh (so_txid out) (so_vout out)) = Some v"
      using out by (auto simp: unspent_outputs_def)
    then obtain out' where out': "utxo_key sh (so_txid out) (so_vout out)
        = utxo_key (so_script_hash out') (so_txid out') (so_vout out')" "v = u64_be (so_value out')"
      "view S (ix_outputs ix) (outpoint_key \<lparr>op_txid = so_txid out', op_vout = so_vout out'\<rparr>)
         = Some (encode_output out')"
      using wf unfolding utxos_wf_def by blast
    then have "out = out'"
      using out by (auto simp: unspent_outputs_def intro: encode_output_inject)
    with v out'(2) out S show ?thesis
      by (simp add: utxo_entries_def sled_entries(3) entry_of_def unspent_outputs_def)
  qed
  moreover have "e \<in> entry_of ` unspent_outputs S ix sh" if e: "e \<in> set (utxo_entries S ix sh)" for e
  proof -
    obtain key v where kv: "e = (key, v)" by (cases e)
    then have "view S (ix_utxos ix) key = Some v" "starts_with (arr32 sh) key"
      using e S by (auto simp: utxo_entries_def sled_entries(3))
    moreover from this(1) obtain out where out:
      "key = utxo_key (so_script_hash out) (so_txid out) (so_vout out)" "v = u64_be (so_value out)"
      "view S (ix_outputs ix) (outpoint_key \<lparr>op_txid = so_txid out, op_vout = so_vout out\<rparr>)
         = Some (encode_output out)"
      using wf unfolding utxos_wf_def by blast
    ultimately have "out \<in> unspent_outputs S ix sh" by (auto simp: unspent_outputs_def)
    then show ?thesis using kv out by (auto simp: entry_of_def)
  qed
  ultimately show "entry_of ` unspent_outputs S ix sh = set (utxo_entries S ix sh)" by blast
qed

lemma utxo_entries_distinct: "sled_ok S \<Longrightarrow> distinct (utxo_entries S ix sh)"
  using entries_distinct [of S "ix_utxos ix"]
  by (auto simp: utxo_entries_def distinct_map)

lemma fold_snoc_map: "fold (\<lambda>x ys. ys @ [f x]) xs ys = ys @ map f xs"
  by (induction xs arbitrary: ys) auto

lemma utxo_entry_cases:
  assumes "sled_ok S" and "utxos_wf S ix" and "e \<in> set (utxo_entries S ix sh)"
  obtains out where "out \<in> unspent_outputs S ix sh" and "e = entry_of out"
  using assms(3) bij_betw_imp_surj_on [OF utxo_entries_bij [OF assms(1,2)], of sh] by blast

text \<open>Two outputs of the script hash 5 and one of 6.\<close>

lemma utxos_wf_store_output:
  assumes S: "sled_ok S" and wf: "utxos_wf S ix" and new: "view S (ix_outputs ix) (outpoint_key p) = None"
  shows "utxos_wf S (snd (store_output S p sh val h ix))"
proof -
  have "\<exists>out. key = utxo_key (so_script_hash out) (so_txid out) (so_vout out) \<and> v = u64_be (so_value out)
      \<and> view S (ix_outputs (snd (store_output S p sh val h ix)))
           (outpoint_key \<lparr>op_txid = so_txid out, op_vout = so_vout out\<rparr>) = Some (encode_output out)"
    if key: "view S (ix_utxos (snd (store_output S p sh val h ix))) key = Some v" for key v
  proof (cases "key = utxo_key sh (op_txid p) (op_vout p)")
    case True
    with key S show ?thesis
      by (intro exI [of _ "\<lparr>so_script_hash = sh, so_txid = op_txid p, so_vout = op_vout p,
            so_value = val, so_height = h\<rparr>"]) (simp add: store_ok sled_simps)
  next
    case False
    with key S have "view S (ix_utxos ix) key = Some v" by (simp add: store_ok sled_simps)
    then obtain out where out: "key = utxo_key (so_script_hash out) (so_txid out) (so_vout out)"
      "v = u64_be (so_value out)"
      "view S (ix_outputs ix) (outpoint_key \<lparr>op_txid = so_txid out, op_vout = so_vout out\<rparr>)
         = Some (encode_output out)"
      using wf unfolding utxos_wf_def by blast
    moreover from this(3) new have "p \<noteq> \<lparr>op_txid = so_txid out, op_vout = so_vout out\<rparr>" by auto
    ultimately show ?thesis using S by (intro exI [of _ out]) (simp add: store_ok sled_simps)
  qed
  then show ?thesis by (simp add: utxos_wf_def)
qed

definition ref_store :: "outpoint \<Rightarrow> script_hash \<Rightarrow> u64 \<Rightarrow> (bytes \<times> bytes) list pindex
    \<Rightarrow> (bytes \<times> bytes) list pindex" where
  "ref_store p sh val ix = snd (store_output ref_sled p sh val 1 ix)"

definition ref_utxos :: "(bytes \<times> bytes) list pindex" where
  "ref_utxos = ref_store \<lparr>op_txid = 2, op_vout = 0\<rparr> 5 30
     (ref_store \<lparr>op_txid = 2, op_vout = 1\<rparr> 5 40 (ref_store \<lparr>op_txid = 3, op_vout = 0\<rparr> 6 9 ref_pindex))"

lemma view_ref_nil: "view ref_sled [] k = None"
  by simp

lemma ref_utxos_wf: "utxos_wf ref_sled ref_utxos"
  unfolding ref_utxos_def ref_store_def
  by (intro utxos_wf_store_output ref_sled_ok)
    (simp_all add: utxos_wf_def ref_pindex_def store_ok sled_simps view_ref_nil del: view_ref_sled)

lemma ref_unspent: "unspent_outputs ref_sled ref_utxos 5
   = {\<lparr>so_script_hash = 5, so_txid = 2, so_vout = 0, so_value = 30, so_height = 1\<rparr>,
      \<lparr>so_script_hash = 5, so_txid = 2, so_vout = 1, so_value = 40, so_height = 1\<rparr>}"
  (is "_ = {?a, ?b}")
proof -
  have "out = ?a \<or> out = ?b" if "out \<in> unspent_outputs ref_sled ref_utxos 5" for out
    using that
    by (cases out)
      (auto simp: unspent_outputs_def ref_utxos_def ref_store_def ref_pindex_def store_ok sled_simps
        view_ref_nil encode_output_def simp del: view_ref_sled split: if_splits)
  moreover have "?a \<in> unspent_outputs ref_sled ref_utxos 5" "?b \<in> unspent_outputs ref_sled ref_utxos 5"
    by (simp_all add: unspent_outputs_def ref_utxos_def ref_store_def store_ok sled_simps
        del: view_ref_sled)
  ultimately show ?thesis by blast
qed

lemma balance_total:
  assumes S: "sled_ok S" and wf: "utxos_wf S ix"
  shows "\<exists>total. balance_for_script S sh ix = Inr total
    \<and> unat total = min (2 ^ 64 - 1) (\<Sum>out \<in> unspent_outputs S ix sh. unat (so_value out))"
proof -
  let ?es = "utxo_entries S ix sh"
  have "balance_for_script S sh ix
      = foldR (\<lambda>e total. if length (snd e) = 8 then Inr (saturating_add total (from_be (snd e)))
                        else Inl InvalidUtxoValue) ?es 0"
    using S by (simp add: balance_for_script_def sled_scan_ok foldR_map utxo_entries_def case_prod_beta)
  also have "\<dots> = Inr (fold (\<lambda>e total. saturating_add total (from_be (snd e))) ?es 0)"
    by (rule foldR_all_ok) (auto simp: entry_of_def elim!: utxo_entry_cases [OF S wf])
  finally have run: "balance_for_script S sh ix
      = Inr (fold (\<lambda>e total. saturating_add total (from_be (snd e))) ?es 0)" .
  have "(\<Sum>e\<leftarrow>?es. unat (from_be (snd e) :: u64)) = (\<Sum>e \<in> set ?es. unat (from_be (snd e) :: u64))"
    using utxo_entries_distinct [OF S] by (simp add: sum_list_distinct_conv_sum_set)
  also have "\<dots> = (\<Sum>out \<in> unspent_outputs S ix sh. unat (from_be (snd (entry_of out)) :: u64))"
    by (rule sum.reindex_bij_betw [OF utxo_entries_bij [OF S wf], symmetric])
  finally show ?thesis
    using run by (simp add: unat_fold_saturating_add entry_of_def from_be_be_bytes)
qed

text \<open>The balance of a script is the sum of the values of its unspent outputs, capped at
  the largest 64-bit number.\<close>

lemma balance_is_sum:
  assumes "sled_ok S" and "utxos_wf S ix"
  shows "\<exists>total. balance_for_script S sh ix = Inr total
    \<and> unat total = min (2 ^ 64 - 1) (\<Sum>out \<in> unspent_outputs S ix sh. unat (so_value out))"
  by (rule balance_total [OF assms])

lemma unspent_list_total:
  assumes S: "sled_ok S" and wf: "utxos_wf S ix"
  shows "\<exists>us. list_unspent_for_script S sh ix = Inr us \<and> distinct us
    \<and> set us = (\<lambda>out. \<lparr>su_txid = so_txid out, su_vout = so_vout out, su_value = so_value out,
                       su_height = so_height out\<rparr>) ` unspent_outputs S ix sh"
proof -
  let ?es = "utxo_entries S ix sh"
  let ?mk = "\<lambda>out. \<lparr>su_txid = so_txid out, su_vout = so_vout out, su_value = so_value out,
                    su_height = so_height out\<rparr>"
  let ?out = "the_inv_into (unspent_outputs S ix sh) entry_of"
  note bij = utxo_entries_bij [OF S wf, of sh]
  have run: "list_unspent_for_script S sh ix = foldR (\<lambda>e out. 
              if length (fst e) < 68 then Inl SlicePanic
              else if length (snd e) \<noteq> 8 then Inl InvalidUtxoValue
              else
                (let p = \<lparr>op_txid = from_be (bslice 32 32 (fst e)),
                          op_vout = from_be (bslice 64 4 (fst e))\<rparr>
                 in bindR (load_output S p ix) (\<lambda>r.
                    bindR (ok_or (MissingOutput p) r) (\<lambda>stored.
                      Inr (out @ [\<lparr>su_txid = op_txid p, su_vout = op_vout p,
                                   su_value = from_be (snd e), su_height = so_height stored\<rparr>])))))
       ?es []"
    using S by (simp add: list_unspent_for_script_def sled_scan_ok foldR_map utxo_entries_def
        case_prod_beta)
  also have "\<dots> = Inr (fold (\<lambda>e us. us @ [?mk (?out e)]) ?es [])"
  proof (rule foldR_all_ok)
    fix e us assume "e \<in> set ?es"
    then obtain out where out: "out \<in> unspent_outputs S ix sh" and e: "e = entry_of out"
      by (rule utxo_entry_cases [OF S wf])
    have inv: "?out e = out"
      using bij out by (simp add: e the_inv_into_f_f bij_betw_def)
    have "decode_output \<lparr>op_txid = so_txid out, op_vout = so_vout out\<rparr> (encode_output out) = Inr out"
      using decode_encode_output [of "\<lparr>op_txid = so_txid out, op_vout = so_vout out\<rparr>" out] by simp
    then have "load_output S \<lparr>op_txid = so_txid out, op_vout = so_vout out\<rparr> ix = Inr (Some out)"
      using out S by (simp add: load_output_def sled_simps unspent_outputs_def)
    then show "(if length (fst e) < 68 then Inl SlicePanic
              else if length (snd e) \<noteq> 8 then Inl InvalidUtxoValue
              else
                (let p = \<lparr>op_txid = from_be (bslice 32 32 (fst e)),
                          op_vout = from_be (bslice 64 4 (fst e))\<rparr>
                 in bindR (load_output S p ix) (\<lambda>r.
                    bindR (ok_or (MissingOutput p) r) (\<lambda>stored.
                      Inr (us @ [\<lparr>su_txid = op_txid p, su_vout = op_vout p,
                                   su_value = from_be (snd e), su_height = so_height stored\<rparr>])))))
        = Inr (us @ [?mk (?out e)])"
      by (simp add: inv) (simp add: e entry_of_def utxo_key_def from_be_be_bytes codec_simps)
  qed
  finally have run: "list_unspent_for_script S sh ix = Inr (map (?mk \<circ> ?out) ?es)"
    by (simp add: fold_snoc_map)
  have img: "?out ` set ?es = unspent_outputs S ix sh"
    using bij by (metis bij_betw_def the_inv_into_onto)
  have "inj_on ?mk (unspent_outputs S ix sh)"
    by (auto simp: inj_on_def unspent_outputs_def stored_output.equality)
  moreover have "inj_on ?out (set ?es)"
    using bij by (metis bij_betw_def inj_on_the_inv_into)
  ultimately have dist: "distinct (map (?mk \<circ> ?out) ?es)"
    using utxo_entries_distinct [OF S] img by (simp add: distinct_map comp_inj_on)
  show ?thesis
  proof (intro exI conjI)
    show "list_unspent_for_script S sh ix = Inr (map (?mk \<circ> ?out) ?es)" by (rule run)
    show "distinct (map (?mk \<circ> ?out) ?es)" by (rule dist)
    show "set (map (?mk \<circ> ?out) ?es) = ?mk ` unspent_outputs S ix sh"
      by (simp only: set_map image_comp [symmetric] img)
  qed
qed

text \<open>The unspent list of a script has one entry for each of its unspent outputs, with the
  outpoint, value and height of the output.\<close>

lemma unspent_list_complete:
  assumes "sled_ok S" and "utxos_wf S ix"
  shows "\<exists>us. list_unspent_for_script S sh ix = Inr us \<and> distinct us
    \<and> set us = (\<lambda>out. \<lparr>su_txid = so_txid out, su_vout = so_vout out, su_value = so_value out,
                       su_height = so_height out\<rparr>) ` unspent_outputs S ix sh"
  by (rule unspent_list_total [OF assms])

section \<open>History\<close>

definition history_wf :: "'t sled \<Rightarrow> 't pindex \<Rightarrow> bool" where
  "history_wf S ix \<longleftrightarrow>
     (\<forall>key v. view S (ix_history ix) key = Some v \<longrightarrow>
        (\<exists>sh h k t s. key = history_key sh h k t s))"

definition key_entry :: "bytes \<Rightarrow> tx_entry" where
  "key_entry key = \<lparr>te_txid = from_be (bslice 37 32 key), te_height = from_be (bslice 32 4 key),
                    te_sequence = from_be (bslice 69 4 key)\<rparr>"

definition history_keys_of :: "'t sled \<Rightarrow> 't pindex \<Rightarrow> script_hash \<Rightarrow> bytes list" where
  "history_keys_of S ix sh = map fst (filter (\<lambda>e. starts_with (arr32 sh) (fst e)) (entries S (ix_history ix)))"

lemma key_entry_make [simp]:
  "key_entry (history_key sh h k t s) = \<lparr>te_txid = t, te_height = h, te_sequence = s\<rparr>"
  using parse_history_key_make [of sh h k t s]
  by (simp add: key_entry_def parse_history_key_def)

text \<open>The stored history of a script lists one entry for each of its history keys, with
  the transaction, height and index of the key, ordered by height and then by index.\<close>

lemma stored_history_sorted:
  assumes S: "sled_ok S" and wf: "history_wf S ix"
  shows "\<exists>es. load_history_for_script S sh ix = Inr es
    \<and> sorted (map (\<lambda>e. (confirmed_first (te_height e), te_sequence e)) es)
    \<and> mset es = image_mset key_entry (mset_set {key. view S (ix_history ix) key \<noteq> None
                                                   \<and> starts_with (arr32 sh) key})"
proof -
  let ?keys = "history_keys_of S ix sh"
  let ?sorted = "sort_key (\<lambda>e. (confirmed_first (te_height e), te_sequence e)) (map key_entry ?keys)"
  have mem: "key \<in> set ?keys \<longleftrightarrow> view S (ix_history ix) key \<noteq> None \<and> starts_with (arr32 sh) key" for key
    by (auto simp: history_keys_of_def image_iff sled_entries(3) [OF S])
  have "foldR (\<lambda>item out. bindR (map_err SledError item) (\<lambda>(k, _).
                bindR (parse_history_key k) (\<lambda>e.
                  Inr (out @ [\<lparr>te_txid = sh_txid e, te_height = sh_height e,
                               te_sequence = sh_sequence e\<rparr>]))))
          (sled_scan_prefix S (ix_history ix) (arr32 sh)) []
      = foldR (\<lambda>k out. bindR (parse_history_key k) (\<lambda>e.
                  Inr (out @ [\<lparr>te_txid = sh_txid e, te_height = sh_height e,
                               te_sequence = sh_sequence e\<rparr>]))) ?keys []"
    using S by (simp add: sled_scan_ok foldR_map history_keys_of_def case_prod_beta)
  also have "\<dots> = Inr (fold (\<lambda>k out. out @ [key_entry k]) ?keys [])"
  proof (rule foldR_all_ok)
    fix key and out :: "tx_entry list" assume "key \<in> set ?keys"
    then obtain sh' h k t s where "key = history_key sh' h k t s"
      using wf by (auto simp: mem history_wf_def)
    then show "bindR (parse_history_key key) (\<lambda>e. Inr (out @ [\<lparr>te_txid = sh_txid e,
        te_height = sh_height e, te_sequence = sh_sequence e\<rparr>])) = Inr (out @ [key_entry key])"
      by (simp add: parse_history_key_make)
  qed
  finally have "load_history_for_script S sh ix = Inr ?sorted"
    by (simp add: load_history_for_script_def fold_snoc_map)
  moreover have "distinct ?keys"
    using entries_distinct [OF S, of "ix_history ix"] by (auto simp: history_keys_of_def distinct_map_filter)
  then have "mset ?sorted = image_mset key_entry (mset_set (set ?keys))"
    by (simp add: mset_set_set)
  moreover have "set ?keys = {key. view S (ix_history ix) key \<noteq> None \<and> starts_with (arr32 sh) key}"
    using mem by auto
  ultimately show ?thesis by (intro exI [of _ ?sorted]) simp
qed

section \<open>The list of pending txids\<close>

text \<open>Storing a pending txid adds it to the stored list once, at the end, and deleting one
  removes it; both leave the rest of the list in its order and the tip height alone.\<close>

lemma pending_txid_list_updates:
  assumes S: "sled_ok S" and ts: "load_pending_txids S ix = Inr ts"
  shows "\<exists>ix' ix''. store_pending_txid S t ix = (Inr (), ix') \<and> delete_pending_txid S t ix = (Inr (), ix'')
    \<and> load_pending_txids S ix' = Inr (if t \<in> set ts then ts else ts @ [t])
    \<and> load_pending_txids S ix'' = Inr (filter (\<lambda>e. e \<noteq> t) ts)
    \<and> pindex_tip_height S ix' = pindex_tip_height S ix
    \<and> pindex_tip_height S ix'' = pindex_tip_height S ix"
proof -
  have "load_pending_txids S (ix\<lparr>ix_meta := ins S PENDING_TXIDS_KEY (encode_txid_list us) m\<rparr>) = Inr us"
    for us m
    using S by (simp add: load_pending_txids_def sled_simps decode_encode_txid_list)
  moreover have "pindex_tip_height S
      (ix\<lparr>ix_meta := ins S PENDING_TXIDS_KEY v (ix_meta ix)\<rparr>) = pindex_tip_height S ix" for v
    using S by (simp add: pindex_tip_height_def sled_simps)
  ultimately show ?thesis
    using S ts by (simp add: store_pending_txid_def delete_pending_txid_def monad_defs store_ok)
qed

section \<open>The empty index\<close>

text \<open>An index as it is opened for the first time.\<close>

definition empty_index :: "'t sled \<Rightarrow> 't pindex \<Rightarrow> bool" where
  "empty_index S ix \<longleftrightarrow>
     (\<forall>t \<in> {ix_history ix, ix_outputs ix, ix_utxos ix, ix_txs ix, ix_journal ix, ix_meta ix}.
        view S t = (\<lambda>_. None))"

end
