(* ===== verification/ChainSpec.thy ===== *)
theory ChainSpec
  imports ChainIndex StoreSpec
begin

text \<open>
  What connecting and disconnecting blocks promises: a disconnected block leaves no trace,
  connecting writes the journal of the block, failures stay confined to the height at
  which they occur, and the index stays consistent.
\<close>

section \<open>A block to connect\<close>

text \<open>
  The output of transaction 9 is unspent; the block has a coinbase and a transaction that
  spends it.
\<close>

definition ref_funded :: "(bytes \<times> bytes) list index_state" where
  "ref_funded = ref_state\<lparr>store := ref_store \<lparr>op_txid = 9, op_vout = 0\<rparr> 5 50 ref_pindex\<rparr>"

definition ref_block :: block where
  "ref_block = \<lparr>header = ref_header 7,
     txdata = [ref_tx 1 [ref_in 0 (- 1)] [ref_out [1] 25], ref_tx 2 [ref_in 9 0] [ref_out [2] 20, ref_out [3] 30]]\<rparr>"

lemma ref_funded_store:
  "store ref_funded = ref_store \<lparr>op_txid = 9, op_vout = 0\<rparr> 5 50 ref_pindex"
  "history ref_funded = []" "by_height ref_funded = []" "tip_height ref_funded = 0"
  by (simp_all add: ref_funded_def ref_state_def)

lemma ref_funded_view:
  "view ref_sled (ix_outputs (store ref_funded))
     = [outpoint_key \<lparr>op_txid = 9, op_vout = 0\<rparr> \<mapsto>
          encode_output \<lparr>so_script_hash = 5, so_txid = 9, so_vout = 0, so_value = 50, so_height = 1\<rparr>]"
  "view ref_sled (ix_utxos (store ref_funded)) = [utxo_key 5 9 0 \<mapsto> u64_be 50]"
  "view ref_sled (ix_history (store ref_funded)) = Map.empty"
  "view ref_sled (ix_journal (store ref_funded)) = Map.empty"
  by (simp_all add: ref_funded_store ref_store_def ref_pindex_def store_ok sled_simps view_ref_nil
      fun_eq_iff del: view_ref_sled)

lemma ref_funded_wf: "outputs_wf (views ref_sled (store ref_funded))"
  by (simp add: outputs_wf_def ref_funded_view del: view_ref_sled split: if_splits)

lemma length_input_records:
  "length (concat (map (input_records B t O') xs)) \<le> 2 * length xs"
proof (induction xs)
  case (Cons x xs)
  have "length (input_records B t O' x) \<le> 2"
    by (cases rule: input_records_cases [of B t O' x]) auto
  with Cons show ?case by simp
qed simp

lemma length_output_records: "length (concat (map (output_records B t) xs)) = 2 * length xs"
  by (induction xs) (auto simp: output_records_def)

lemma length_tx_records:
  "length (tx_records B O' tx) \<le> 1 + 2 * length (tx_input tx) + 2 * length (tx_output tx)"
  using length_input_records [of B "compute_txid B tx" O' "enumerate 0 (tx_input tx)"]
    length_output_records [of B "compute_txid B tx" "enumerate 0 (tx_output tx)"]
  by (simp add: tx_records_def Let_def del: length_concat)

lemma ref_block_fresh: "fresh_block ref_bitcoin 7 (txdata ref_block) (views ref_sled (store ref_funded))"
proof -
  have "length (block_records ref_bitcoin 7 O' (txdata ref_block)) \<le> 12" for O'
    using length_tx_records [of ref_bitcoin O' "ref_tx 1 [ref_in 0 (- 1)] [ref_out [1] 25]"]
      length_tx_records [of ref_bitcoin "add_outputs ref_bitcoin 7 (ref_tx 1 [ref_in 0 (- 1)] [ref_out [1] 25]) O'"
        "ref_tx 2 [ref_in 9 0] [ref_out [2] 20, ref_out [3] 30]"]
    by (simp add: ref_block_def)
  then have "length (block_records ref_bitcoin 7 O' (txdata ref_block)) \<le> 2 ^ 32" for O'
    by (rule order_trans) simp
  moreover have "distinct (map (compute_txid ref_bitcoin) (txdata ref_block))"
    by (simp add: ref_block_def)
  moreover have "concat (map (tx_prevouts ref_bitcoin) (txdata ref_block)) = [\<lparr>op_txid = 9, op_vout = 0\<rparr>]"
    by (simp add: ref_block_def tx_prevouts_def)
  moreover have "unspent_in (views ref_sled (store ref_funded)) \<lparr>op_txid = 9, op_vout = 0\<rparr>"
    by (simp add: unspent_in_def ref_funded_view out_utxo_key_def raw_script_def raw_value_def
        encode_output_def from_be_be_bytes codec_simps del: view_ref_sled)
  moreover have "concat (map (tx_outpoints ref_bitcoin) (txdata ref_block))
      = [\<lparr>op_txid = 1, op_vout = 0\<rparr>, \<lparr>op_txid = 2, op_vout = 0\<rparr>, \<lparr>op_txid = 2, op_vout = 1\<rparr>]"
    by (simp add: ref_block_def tx_outpoints_def)
  moreover have "absent_in (views ref_sled (store ref_funded)) p" if "op_txid p \<noteq> 9" for p
    using that by (auto simp: absent_in_def ref_funded_view simp del: view_ref_sled)
  moreover have "\<forall>tx \<in> set (txdata ref_block). length (tx_input tx) \<le> 2 ^ 32 \<and> length (tx_output tx) \<le> 2 ^ 32"
    by (simp add: ref_block_def)
  ultimately show ?thesis
    by (simp add: fresh_block_def ref_funded_view del: view_ref_sled)
qed

section \<open>Connecting\<close>



section \<open>Failures\<close>

text \<open>What two states share outside a height.\<close>

definition same_outside :: "u32 \<Rightarrow> 't index_state \<Rightarrow> 't index_state \<Rightarrow> bool" where
  "same_outside h st st' \<longleftrightarrow>
     (\<forall>h'. h' \<noteq> h \<longrightarrow> map_of (by_height st') h' = map_of (by_height st) h')
     \<and> retain_history h (history st') = retain_history h (history st)"

lemma same_outside_refl [simp]: "same_outside h st st"
  by (simp add: same_outside_def)

lemma same_outside_updates [simp]:
  "same_outside h st (st'\<lparr>store := ix\<rparr>) \<longleftrightarrow> same_outside h st st'"
  "same_outside h st (st'\<lparr>pending_txs := p\<rparr>) \<longleftrightarrow> same_outside h st st'"
  "same_outside h st (rebuild_pending_view B st') \<longleftrightarrow> same_outside h st st'"
  "same_outside h st (st'\<lparr>tip_height := n\<rparr>) \<longleftrightarrow> same_outside h st st'"
  by (simp_all add: same_outside_def)

lemma same_outside_push [simp]:
  "te_height e = h \<Longrightarrow> same_outside h st (push_history sh e st') \<longleftrightarrow> same_outside h st st'"
  "same_outside h st st' \<Longrightarrow> same_outside h st (push_action h a st')"
  by (simp_all add: same_outside_def push_history_def push_action_def)

named_theorems outside_preserved \<open>operations confined to a height\<close>

lemma outside_on_store [outside_preserved]: "preserves (same_outside h st) (on_store m)"
  by (simp add: on_store_def preserves_zoomE)

lemma outside_push_history [outside_preserved]:
  "te_height e = h \<Longrightarrow> preserves (same_outside h st) (modifyE (push_history sh e))"
  by (rule preserves_modifyE) simp

lemma outside_push_action [outside_preserved]:
  "preserves (same_outside h st) (modifyE (push_action h a))"
  by (rule preserves_modifyE) simp

lemma outside_forget [outside_preserved]:
  "preserves (same_outside h st) (forget_pending_transaction_internal S B t)"
  unfolding forget_pending_transaction_internal_def drop_pending_def
  by (intro preserves_intros outside_preserved) simp_all

lemma outside_apply_input [outside_preserved]:
  "preserves (same_outside h st) (apply_input S B h t x s)"
  unfolding apply_input_def Let_def
  by (cases x; simp; intro conjI impI preserves_intros)
    (auto split: option.split intro!: preserves_intros outside_preserved)

lemma outside_apply_output [outside_preserved]:
  "preserves (same_outside h st) (apply_output S B h t x s)"
  unfolding apply_output_def Let_def
  by (cases x) (auto intro!: preserves_intros outside_preserved)

lemma outside_apply_tx [outside_preserved]: "preserves (same_outside h st) (apply_tx S B h tx s)"
  unfolding apply_tx_def Let_def by (intro preserves_intros outside_preserved)

text \<open>Whatever the store does, connecting a block changes the caches at the height of the
  block only: the journals of other heights and the history entries of other heights stay,
  also when the block fails half-way.\<close>

lemma connect_confined_to_height:
  "same_outside h st (snd (apply_block S B blk h st))"
proof -
  have "preserves (same_outside h st) (apply_block S B blk h)"
    unfolding apply_block_def
    by (intro preserves_intros outside_preserved) simp
  then show ?thesis by (rule preservesD) simp
qed

end
