(* ===== verification/PendingView.thy ===== *)
theory PendingView
  imports Indexer Fixtures
begin

text \<open>
  The pending transactions and the view computed from them: what the view holds, that every
  operation keeps it in step with the transactions even when the store fails, and what the
  walk over descendants removes.
\<close>

section \<open>The invariant\<close>

definition pending_keyed :: "bitcoin_lib \<Rightarrow> (txid \<times> transaction) list \<Rightarrow> bool" where
  "pending_keyed B m \<longleftrightarrow> distinct (map fst m) \<and> (\<forall>(t, tx) \<in> set m. compute_txid B tx = t)"

definition pending_ok :: "bitcoin_lib \<Rightarrow> 't index_state \<Rightarrow> bool" where
  "pending_ok B st \<longleftrightarrow> pending_keyed B (pending_txs st) \<and> pending_view_ok B st"

lemma pending_keyed_remove [simp]: "pending_keyed B m \<Longrightarrow> pending_keyed B (hm_remove t m)"
  by (auto simp: pending_keyed_def)

lemma pending_keyed_removes [simp]: "pending_keyed B m \<Longrightarrow> pending_keyed B (fold hm_remove ts m)"
  by (induction ts arbitrary: m) auto

lemma pending_keyed_insert [simp]:
  "pending_keyed B m \<Longrightarrow> pending_keyed B (hm_insert (compute_txid B tx) tx m)"
  by (auto simp: pending_keyed_def in_set_hm_insert)

lemma pending_ok_keyed: "pending_ok B st \<Longrightarrow> pending_keyed B (pending_txs st)"
  by (simp add: pending_ok_def)

lemma pending_ok_rebuild [simp]:
  "pending_ok B (rebuild_pending_view B st) \<longleftrightarrow> pending_keyed B (pending_txs st)"
  by (simp add: pending_ok_def)

lemma pending_ok_cong:
  "pending_txs st = pending_txs st' \<Longrightarrow> pending_outputs st = pending_outputs st' \<Longrightarrow>
     pending_ok B st \<longleftrightarrow> pending_ok B st'"
  using pending_view_ok_cong [of st st' B] by (simp add: pending_ok_def)

lemma pending_ok_updates [simp]:
  "pending_ok B (st\<lparr>store := ix\<rparr>) \<longleftrightarrow> pending_ok B st"
  "pending_ok B (st\<lparr>history := h\<rparr>) \<longleftrightarrow> pending_ok B st"
  "pending_ok B (st\<lparr>by_height := b\<rparr>) \<longleftrightarrow> pending_ok B st"
  "pending_ok B (st\<lparr>tip_height := n\<rparr>) \<longleftrightarrow> pending_ok B st"
  by (rule pending_ok_cong; simp)+

section \<open>Forgetting and tracking\<close>

lemma drop_pendings_ok:
  "\<exists>ix. foldE (\<lambda>c _. drop_pending S c) ts () st
       = (Inr (), st\<lparr>pending_txs := fold hm_remove ts (pending_txs st), store := ix\<rparr>)
     \<and> same_chain (store st) ix \<and> ix_txs ix = ix_txs (store st)"
proof (induction ts arbitrary: st)
  case Nil
  show ?case by (intro exI [of _ "store st"]) (simp add: returnE_def same_chain_def)
next
  case (Cons t ts)
  obtain ix where ix: "drop_pending S t st
      = (Inr (), st\<lparr>pending_txs := hm_remove t (pending_txs st), store := ix\<rparr>)"
    "same_chain (store st) ix" "ix_txs ix = ix_txs (store st)"
    using drop_pending_ok by blast
  obtain ix' where "foldE (\<lambda>c _. drop_pending S c) ts ()
      (st\<lparr>pending_txs := hm_remove t (pending_txs st), store := ix\<rparr>)
      = (Inr (), st\<lparr>pending_txs := fold hm_remove ts (hm_remove t (pending_txs st)), store := ix'\<rparr>)"
    "same_chain ix ix'" "ix_txs ix' = ix_txs ix"
    using Cons.IH [of "st\<lparr>pending_txs := hm_remove t (pending_txs st), store := ix\<rparr>"] by auto
  with ix show ?case by (auto simp: bindE_ok same_chain_def)
qed

lemma forget_chain_ok:
  "\<exists>ix. forget_pending_transaction_chain_internal S B t st
       = (Inr (snd (removal_loop S B st [t] [] [])),
          rebuild_pending_view B
            (st\<lparr>pending_txs := fold hm_remove (fst (removal_loop S B st [t] [] [])) (pending_txs st),
                store := ix\<rparr>))
     \<and> same_chain (store st) ix \<and> ix_txs ix = ix_txs (store st)"
  using drop_pendings_ok [of S "fst (removal_loop S B st [t] [] [])" st]
  by (auto simp: forget_pending_transaction_chain_internal_def monad_defs split: prod.splits)

named_theorems pending_preserved \<open>operations that keep the pending view\<close>

lemma preserves_on_store [pending_preserved]: "preserves (pending_ok B) (on_store m)"
  by (simp add: on_store_def preserves_zoomE)

lemma preserves_forget_internal [pending_preserved]:
  "preserves (pending_ok B) (forget_pending_transaction_internal S B t)"
  unfolding preserves_def
proof (intro allI impI)
  fix st :: "'a index_state" assume ok: "pending_ok B st"
  obtain ix where "forget_pending_transaction_internal S B t st
      = (Inr (), rebuild_pending_view B
           (st\<lparr>pending_txs := hm_remove t (pending_txs st), store := ix\<rparr>))"
    using forget_pending_ok by blast
  with ok show "pending_ok B (snd (forget_pending_transaction_internal S B t st))"
    by (simp add: pending_ok_def)
qed

lemma preserves_forget_chain_internal [pending_preserved]:
  "preserves (pending_ok B) (forget_pending_transaction_chain_internal S B t)"
  unfolding preserves_def
proof (intro allI impI)
  fix st :: "'a index_state" assume ok: "pending_ok B st"
  obtain ix where "forget_pending_transaction_chain_internal S B t st
      = (Inr (snd (removal_loop S B st [t] [] [])), rebuild_pending_view B
           (st\<lparr>pending_txs := fold hm_remove (fst (removal_loop S B st [t] [] [])) (pending_txs st),
               store := ix\<rparr>))"
    using forget_chain_ok by blast
  with ok show "pending_ok B (snd (forget_pending_transaction_chain_internal S B t st))"
    by (simp add: pending_ok_def)
qed

lemma preserves_track [pending_preserved]:
  "preserves (pending_ok B) (track_pending_transaction_internal S B tx)"
proof -
  have "preserves (pending_ok B) (\<lambda>st. bindE (foldE (\<lambda>conflict affected.
              bindE (forget_pending_transaction_chain_internal S B conflict) (\<lambda>shs.
                returnE (List.union affected shs))) ts []) (\<lambda>affected.
     bindE (on_store (store_tx S B tx)) (\<lambda>_.
     bindE (on_store (store_pending_txid S (compute_txid B tx))) (\<lambda>_.
     bindE (modifyE (\<lambda>s. rebuild_pending_view B
              (s\<lparr>pending_txs := hm_insert (compute_txid B tx) tx (pending_txs s)\<rparr>))) (\<lambda>_.
     bindE (readE (\<lambda>s. Inr (pending_affected_scripts_for_tx S B tx s))) (\<lambda>shs.
       returnE (List.union affected shs)))))) st)" for ts
    by (intro preserves_intros pending_preserved) (simp add: pending_ok_def)
  then show ?thesis
    unfolding preserves_def track_pending_transaction_internal_def by blast
qed

lemma preserves_restore [pending_preserved]:
  "preserves (pending_ok B) (restore_pending_transaction S B t)"
  unfolding restore_pending_transaction_def
  by (intro preserves_intros) (auto split: option.split intro!: preserves_intros pending_preserved)

lemma preserves_forget [pending_preserved]:
  "preserves (pending_ok B) (forget_pending_transaction S B t)"
proof -
  have "pending_ok B (snd (forget_pending_transaction S B t st))" if "pending_ok B st"
    for st :: "'a index_state"
    using that drop_pending_ok [of S t st]
    by (auto simp: forget_pending_transaction_def monad_defs on_store_def pending_ok_def
        split: option.splits prod.splits)
  then show ?thesis by (simp add: preserves_def)
qed

lemma preserves_forget_chain [pending_preserved]:
  "preserves (pending_ok B) (forget_pending_transaction_chain S B t)"
proof -
  have "preserves (pending_ok B) (\<lambda>st. bindE (forget_pending_transaction_chain_internal S B t)
      (\<lambda>affected. returnE (Some affected)) st)"
    by (intro preserves_intros pending_preserved)
  then show ?thesis
    by (auto simp: preserves_def forget_pending_transaction_chain_def)
qed

section \<open>Blocks\<close>

lemma preserves_push_history [pending_preserved]:
  "preserves (pending_ok B) (modifyE (push_history sh e))"
  by (rule preserves_modifyE) (simp add: push_history_def)

lemma preserves_push_action [pending_preserved]:
  "preserves (pending_ok B) (modifyE (push_action h a))"
  by (rule preserves_modifyE) (simp add: push_action_def)

lemma preserves_apply_input [pending_preserved]:
  "preserves (pending_ok B) (apply_input S B h t x s)"
  unfolding apply_input_def Let_def
  by (cases x; simp; intro conjI impI preserves_intros)
    (auto split: option.split intro!: preserves_intros pending_preserved)

lemma preserves_apply_output [pending_preserved]:
  "preserves (pending_ok B) (apply_output S B h t x s)"
  unfolding apply_output_def Let_def
  by (cases x) (auto intro!: preserves_intros pending_preserved)

lemma preserves_apply_tx [pending_preserved]:
  "preserves (pending_ok B) (apply_tx S B h tx s)"
  unfolding apply_tx_def Let_def
  by (intro preserves_intros pending_preserved)

lemma preserves_apply_block [pending_preserved]:
  "preserves (pending_ok B) (apply_block S B blk h)"
  unfolding apply_block_def
  by (intro preserves_intros pending_preserved) simp

lemma preserves_rollback [pending_preserved]:
  "preserves (pending_ok B) (rollback_height S B h)"
proof -
  have tip: "preserves (pending_ok B) (rollback_tip S h)"
    by (auto simp: preserves_def rollback_tip_def monad_defs on_store_def set_tip_height_def
        split: prod.splits)
  have "preserves (pending_ok B) (\<lambda>st. bindE
       (case r of
          None \<Rightarrow> returnE ()
        | Some actions \<Rightarrow>
            bindE (modifyE (\<lambda>s. s\<lparr>by_height := hm_remove h (by_height s)\<rparr>)) (\<lambda>_.
            bindE (foldE (\<lambda>a _. on_store (rollback_action S a)) (rev actions) ()) (\<lambda>_.
              modifyE (\<lambda>s. rebuild_pending_view B
                (s\<lparr>history := retain_history h (history s)\<rparr>)))))
       (\<lambda>_. rollback_tip S h) st)" for r :: "block_action list option"
    by (cases r)
      (auto intro!: preserves_intros pending_preserved tip dest: pending_ok_keyed)
  then show ?thesis unfolding preserves_def rollback_height_def by blast
qed

lemma pending_ok_event:
  assumes "pending_ok B (state ind)"
  shows "pending_ok B (state (handle_event S B ev ind))"
proof (cases ev)
  case (Connected blk h)
  have "pending_ok B (snd (apply_block S B blk h (state ind)))"
    using preserves_apply_block assms by (rule preservesD)
  with Connected show ?thesis
    by (cases "apply_block S B blk h (state ind)")
      (simp add: handle_event_def split: sum.split)
next
  case (Disconnected bh h)
  have "pending_ok B (snd (rollback_height S B h (state ind)))"
    using preserves_rollback assms by (rule preservesD)
  with Disconnected show ?thesis
    by (cases "rollback_height S B h (state ind)")
      (simp add: handle_event_def split: sum.split)
next
  case (Synced h bh)
  with assms show ?thesis by (simp add: handle_event_def)
qed

section \<open>What the view holds\<close>

definition pending_stored :: "bitcoin_lib \<Rightarrow> outpoint \<Rightarrow> txout \<Rightarrow> stored_output" where
  "pending_stored B p out =
     \<lparr>so_script_hash = output_script B out, so_txid = op_txid p, so_vout = op_vout p,
      so_value = tx_value out, so_height = 0\<rparr>"

text \<open>The outpoints that some pending transaction spends.\<close>

definition spent_by_pending :: "bitcoin_lib \<Rightarrow> (txid \<times> transaction) list \<Rightarrow> outpoint \<Rightarrow> bool" where
  "spent_by_pending B pend p \<longleftrightarrow>
     \<not> is_null B p \<and> (\<exists>(t, tx) \<in> set pend. \<exists>i \<in> set (tx_input tx). previous_output i = p)"

lemma set_spent_inputs:
  "set (fold (\<lambda>i s. if is_null B (previous_output i) then s else List.insert (previous_output i) s) is s)
     = set s \<union> {p. \<not> is_null B p \<and> (\<exists>i \<in> set is. previous_output i = p)}"
  by (induction "is" arbitrary: s) auto

lemma set_pending_spent_outpoints [simp]:
  "p \<in> set (pending_spent_outpoints B st) \<longleftrightarrow> spent_by_pending B (pending_txs st) p"
proof -
  have "set (fold (\<lambda>tx. fold (\<lambda>i s. if is_null B (previous_output i) then s
            else List.insert (previous_output i) s) (tx_input tx)) (map snd m) s)
      = set s \<union> {p. spent_by_pending B m p}" for m :: "(txid \<times> transaction) list" and s
  proof (induction m arbitrary: s)
    case (Cons x m)
    have "spent_by_pending B (x # m) p \<longleftrightarrow>
        (\<not> is_null B p \<and> (\<exists>i \<in> set (tx_input (snd x)). previous_output i = p)) \<or> spent_by_pending B m p"
      for p
      by (cases x) (auto simp: spent_by_pending_def)
    then show ?case using Cons by (auto simp: set_spent_inputs)
  qed (auto simp: spent_by_pending_def)
  then show ?thesis by (simp add: pending_spent_outpoints_def)
qed

lemma outpoint_index_eq:
  "n < 2 ^ 32 \<Longrightarrow> p = \<lparr>op_txid = t, op_vout = of_nat n\<rparr> \<longleftrightarrow> op_txid p = t \<and> unat (op_vout p) = n"
  by (cases p) (auto simp: unat_of_nat take_bit_nat_eq_self unsigned_of_nat)

lemma add_pending_outputs_map:
  assumes "length (tx_output tx) \<le> 2 ^ 32"
  shows "map_of (add_pending_outputs B sp tx m) p
    = (if p \<notin> set sp \<and> op_txid p = compute_txid B tx \<and> output_at tx (op_vout p) \<noteq> None
       then map_option (pending_stored B p) (output_at tx (op_vout p)) else map_of m p)"
proof -
  have "map_of (fold (\<lambda>(vout, out) m.
        let p = \<lparr>op_txid = t, op_vout = of_nat vout\<rparr>
        in if p \<in> set sp then m
           else hm_insert p \<lparr>so_script_hash = output_script B out, so_txid = t,
                            so_vout = of_nat vout, so_value = tx_value out, so_height = 0\<rparr> m)
       (enumerate 0 os) m) p
    = (if p \<notin> set sp \<and> op_txid p = t \<and> unat (op_vout p) < length os
       then Some (pending_stored B p (os ! unat (op_vout p))) else map_of m p)"
    if "length os \<le> 2 ^ 32" for os t
    using that
  proof (induction os rule: rev_induct)
    case (snoc out os)
    then have n: "length os < 2 ^ 32" by simp
    note eq = outpoint_index_eq [OF n, of p t]
    show ?case
      using snoc eq
      by (auto simp: enumerate_append_eq Let_def pending_stored_def nth_append less_Suc_eq)
  qed simp
  from this [OF assms] show ?thesis
    by (simp add: add_pending_outputs_def output_at_def)
qed

lemma add_pending_outputs_maps:
  assumes "pending_keyed B l" and "\<forall>(t, tx) \<in> set l. length (tx_output tx) \<le> 2 ^ 32"
  shows "map_of (fold (add_pending_outputs B sp) (map snd l) m) p
    = (if p \<in> set sp then map_of m p
       else case Option.bind (map_of l (op_txid p)) (\<lambda>tx. output_at tx (op_vout p)) of
              None \<Rightarrow> map_of m p | Some out \<Rightarrow> Some (pending_stored B p out))"
  using assms
proof (induction l arbitrary: m)
  case (Cons x l)
  obtain t tx where x: "x = (t, tx)" by (cases x)
  have tx: "compute_txid B tx = t" "length (tx_output tx) \<le> 2 ^ 32" "t \<notin> fst ` set l"
    using Cons.prems x by (auto simp: pending_keyed_def)
  have l: "pending_keyed B l" "\<forall>(t, tx) \<in> set l. length (tx_output tx) \<le> 2 ^ 32"
    using Cons.prems by (auto simp: pending_keyed_def)
  have "map_of l t = None" using tx(3) by (simp add: map_of_eq_None_iff)
  then show ?case
    using Cons.IH [OF l] tx(1) by (auto simp: x add_pending_outputs_map [OF tx(2)] split: option.splits)
qed simp

lemma pending_outputs_lookup:
  assumes "pending_ok B st"
    and "\<forall>(t, tx) \<in> set (pending_txs st). length (tx_output tx) \<le> 2 ^ 32"
  shows "map_of (pending_outputs st) p
    = (if spent_by_pending B (pending_txs st) p then None
       else map_option (pending_stored B p)
              (Option.bind (map_of (pending_txs st) (op_txid p)) (\<lambda>tx. output_at tx (op_vout p))))"
proof -
  have "pending_outputs st = pending_outputs (rebuild_pending_view B st)"
    and "pending_keyed B (pending_txs st)"
    using assms(1) by (simp_all add: pending_ok_def pending_view_ok_def)
  then show ?thesis
    using add_pending_outputs_maps [OF _ assms(2), of B "pending_spent_outpoints B st" "[]" p]
    by (simp add: rebuild_pending_view_def split: option.splits)
qed

section \<open>Descendants\<close>

text \<open>\<open>c\<close> is a pending transaction that spends an output of \<open>t\<close>.\<close>

definition pending_child :: "bitcoin_lib \<Rightarrow> (txid \<times> transaction) list \<Rightarrow> txid \<Rightarrow> txid \<Rightarrow> bool" where
  "pending_child B pend t c \<longleftrightarrow> (\<exists>tx. (c, tx) \<in> set pend \<and> tx_spends B tx t)"

lemma closed_rtranclp:
  "r\<^sup>*\<^sup>* x y \<Longrightarrow> x \<in> R \<Longrightarrow> (\<And>a b. a \<in> R \<Longrightarrow> r a b \<Longrightarrow> b \<in> R) \<Longrightarrow> y \<in> R"
  by (induction rule: rtranclp_induct) auto

lemma set_pending_descendants:
  "set (pending_descendants B pend removed t) = {c. pending_child B pend t c \<and> c \<notin> set removed}"
  by (force simp: pending_descendants_def pending_child_def)

text \<open>One round of a worklist: visiting \<open>t\<close> and queueing its unvisited successors.\<close>

lemma worklist_round:
  assumes closed: "\<forall>x \<in> D. \<forall>c. r x c \<longrightarrow> c \<in> D \<or> c \<in> insert t Q"
    and new: "N = {c. r t c \<and> c \<notin> insert t D}"
  shows "insert t D \<union> {c. \<exists>q \<in> Q \<union> N. r\<^sup>*\<^sup>* q c} = D \<union> {c. \<exists>q \<in> insert t Q. r\<^sup>*\<^sup>* q c}"
    (is "?L = ?R")
    and "\<forall>x \<in> insert t D. \<forall>c. r x c \<longrightarrow> c \<in> insert t D \<or> c \<in> Q \<union> N"
proof -
  show next_closed: "\<forall>x \<in> insert t D. \<forall>c. r x c \<longrightarrow> c \<in> insert t D \<or> c \<in> Q \<union> N"
    using closed new by auto
  have step: "b \<in> ?L" if "a \<in> ?L" "r a b" for a b
    using that next_closed by (auto intro: rtranclp.rtrancl_into_rtrancl)
  have "t \<in> ?L" by simp
  then have "{c. r\<^sup>*\<^sup>* t c} \<subseteq> ?L"
    using closed_rtranclp [of r t _ ?L] step by blast
  then have "?R \<subseteq> ?L" by auto
  moreover have "?L \<subseteq> ?R"
    using new by (auto intro: converse_rtranclp_into_rtranclp)
  ultimately show "?L = ?R" by blast
qed

lemma removal_loop_closure:
  assumes "\<forall>x \<in> set removed. \<forall>c. pending_child B (pending_txs st) x c \<longrightarrow> c \<in> set removed \<or> c \<in> set queue"
  shows "set (fst (removal_loop S B st queue removed affected))
    = set removed \<union> {c. \<exists>q \<in> set queue. (pending_child B (pending_txs st))\<^sup>*\<^sup>* q c}"
  using assms
proof (induction S B st queue removed affected rule: removal_loop.induct)
  case (1 S B st removed affected)
  then show ?case by (simp add: removal_loop.simps)
next
  case (2 S B st t queue removed affected)
  show ?case
  proof (cases "t \<in> set removed")
    case True
    have "\<forall>x \<in> set removed. \<forall>c. pending_child B (pending_txs st) x c \<longrightarrow> c \<in> set removed \<or> c \<in> set queue"
      using "2.prems" True by auto
    moreover from this have "{c. (pending_child B (pending_txs st))\<^sup>*\<^sup>* t c}
        \<subseteq> set removed \<union> {c. \<exists>q \<in> set queue. (pending_child B (pending_txs st))\<^sup>*\<^sup>* q c}"
      using closed_rtranclp [of "pending_child B (pending_txs st)" t _
          "set removed \<union> {c. \<exists>q \<in> set queue. (pending_child B (pending_txs st))\<^sup>*\<^sup>* q c}"] True
      by (blast intro: rtranclp.rtrancl_into_rtrancl)
    ultimately show ?thesis using "2.IH"(1) True by (auto simp: removal_loop.simps)
  next
    case False
    have "\<forall>x \<in> set removed. \<forall>c. pending_child B (pending_txs st) x c
        \<longrightarrow> c \<in> set removed \<or> c \<in> insert t (set queue)"
      using "2.prems" by auto
    note round = worklist_round [OF this, of "set (pending_descendants B (pending_txs st) (t # removed) t)"]
    have "set (pending_descendants B (pending_txs st) (t # removed) t)
        = {c. pending_child B (pending_txs st) t c \<and> c \<notin> insert t (set removed)}"
      by (simp add: set_pending_descendants)
    with round False show ?thesis
      using "2.IH"(2) by (simp add: removal_loop.simps)
  qed
qed

lemma removal_set:
  "set (fst (removal_loop S B st [t] [] [])) = {c. (pending_child B (pending_txs st))\<^sup>*\<^sup>* t c}"
  using removal_loop_closure [of "[]" B st "[t]" S "[]"] by simp

lemma fold_hm_remove: "fold hm_remove ts m = filter (\<lambda>x. fst x \<notin> set ts) m"
proof (induction ts arbitrary: m)
  case (Cons t ts)
  have "hm_remove t m = filter (\<lambda>x. fst x \<noteq> t) m"
    by (auto simp: hm_remove_def AList.delete_eq case_prod_beta intro!: filter_cong)
  then show ?case using Cons by (simp add: conj_commute)
qed simp

section \<open>Replacing conflicts\<close>

text \<open>
  Forgetting the chains of several transactions shrinks the set of pending transactions;
  neither they nor a transaction that spends one of them stays.
\<close>

lemma forget_conflicts:
  "\<exists>shs st'. foldE (\<lambda>conflict affected.
        bindE (forget_pending_transaction_chain_internal S B conflict) (\<lambda>shs.
          returnE (List.union affected shs))) ts aff st = (Inr shs, st')
     \<and> (\<exists>P. pending_txs st' = filter P (pending_txs st))
     \<and> (\<forall>t \<in> set ts. \<forall>(c, tx) \<in> set (pending_txs st'). c \<noteq> t \<and> \<not> tx_spends B tx t)
     \<and> same_chain (store st) (store st') \<and> by_height st' = by_height st
     \<and> history st' = history st \<and> tip_height st' = tip_height st"
proof (induction ts arbitrary: aff st)
  case Nil
  have "\<exists>P. pending_txs st = filter P (pending_txs st)"
    by (rule exI [of _ "\<lambda>_. True"]) simp
  then show ?case by (simp add: returnE_def same_chain_def)
next
  case (Cons t ts)
  let ?R = "{c. (pending_child B (pending_txs st))\<^sup>*\<^sup>* t c}"
  obtain ix where ix: "forget_pending_transaction_chain_internal S B t st
      = (Inr (snd (removal_loop S B st [t] [] [])), rebuild_pending_view B
           (st\<lparr>pending_txs := filter (\<lambda>x. fst x \<notin> ?R) (pending_txs st), store := ix\<rparr>))"
    "same_chain (store st) ix"
    using forget_chain_ok [of S B t st] by (auto simp: fold_hm_remove removal_set)
  let ?st1 = "rebuild_pending_view B
      (st\<lparr>pending_txs := filter (\<lambda>x. fst x \<notin> ?R) (pending_txs st), store := ix\<rparr>)"
  have gone: "c \<noteq> t \<and> \<not> tx_spends B tx t" if "(c, tx) \<in> set (pending_txs ?st1)" for c tx
    using that r_into_rtranclp [of "pending_child B (pending_txs st)" t c]
    by (auto simp: pending_child_def)
  obtain shs st' where run: "foldE (\<lambda>conflict affected.
        bindE (forget_pending_transaction_chain_internal S B conflict) (\<lambda>shs.
          returnE (List.union affected shs))) ts
        (List.union aff (snd (removal_loop S B st [t] [] []))) ?st1 = (Inr shs, st')"
    and rest: "\<exists>P. pending_txs st' = filter P (pending_txs ?st1)"
    "\<forall>t \<in> set ts. \<forall>(c, tx) \<in> set (pending_txs st'). c \<noteq> t \<and> \<not> tx_spends B tx t"
    "same_chain (store ?st1) (store st')" "by_height st' = by_height ?st1"
    "history st' = history ?st1" "tip_height st' = tip_height ?st1"
    using Cons.IH by blast
  have "bindE (forget_pending_transaction_chain_internal S B t) (\<lambda>shs. returnE (List.union aff shs)) st
      = (Inr (List.union aff (snd (removal_loop S B st [t] [] []))), ?st1)"
    using ix(1) by (simp add: bindE_ok returnE_apply)
  note head = this
  have "foldE (\<lambda>conflict affected.
        bindE (forget_pending_transaction_chain_internal S B conflict) (\<lambda>shs.
          returnE (List.union affected shs))) (t # ts) aff st = (Inr shs, st')"
    by (simp only: foldE.simps) (subst bindE_ok, rule head, rule run)
  moreover have "\<forall>(c, tx) \<in> set (pending_txs st'). c \<noteq> t \<and> \<not> tx_spends B tx t"
    using rest(1) gone by fastforce
  moreover have "\<exists>P. pending_txs st' = filter P (pending_txs st)" using rest(1) by auto
  moreover have "same_chain (store st) (store st')"
    using ix(2) rest(3) by (simp add: same_chain_def)
  ultimately show ?case using rest(2,4-6) by (auto simp del: foldE.simps)
qed

lemma track_Inr:
  assumes "track_pending_transaction_internal S B tx (st :: 't index_state) = (Inr shs, st')"
  obtains st1 :: "'t index_state" where
    "\<exists>P. pending_txs st1 = filter P (pending_txs st)"
    "\<forall>t \<in> set (pending_conflicting_txids B tx st).
       \<forall>(c, d) \<in> set (pending_txs st1). c \<noteq> t \<and> \<not> tx_spends B d t"
    "pending_txs st' = hm_insert (compute_txid B tx) tx (pending_txs st1)"
proof -
  obtain aff st1 where st1: "foldE (\<lambda>conflict affected.
        bindE (forget_pending_transaction_chain_internal S B conflict) (\<lambda>shs.
          returnE (List.union affected shs))) (pending_conflicting_txids B tx st) [] st = (Inr aff, st1)"
    "\<exists>P. pending_txs st1 = filter P (pending_txs st)"
    "\<forall>t \<in> set (pending_conflicting_txids B tx st).
       \<forall>(c, d) \<in> set (pending_txs st1). c \<noteq> t \<and> \<not> tx_spends B d t"
    using forget_conflicts [of S B "pending_conflicting_txids B tx st" "[]" st] by blast
  have "pending_txs st' = hm_insert (compute_txid B tx) tx (pending_txs st1)"
    using assms st1(1)
    by (auto simp: track_pending_transaction_internal_def monad_defs on_store_def
        split: prod.splits sum.splits)
  with st1(2,3) show thesis by (rule that)
qed

text \<open>Tracking fails only when the store does, or when the stored list cannot be read.\<close>

definition pending_list_ok :: "'t sled \<Rightarrow> 't index_state \<Rightarrow> bool" where
  "pending_list_ok S st \<longleftrightarrow> (\<exists>ts. load_pending_txids S (store st) = Inr ts)"

lemma load_stored_pending [simp]:
  "sled_ok S \<Longrightarrow> load_pending_txids S
     (ix\<lparr>ix_meta := ins S PENDING_TXIDS_KEY (encode_txid_list ts) m\<rparr>) = Inr ts"
  by (simp add: load_pending_txids_def sled_simps decode_encode_txid_list)

lemma delete_pending_txid_ok:
  assumes "sled_ok S" and "load_pending_txids S ix = Inr ts"
  shows "delete_pending_txid S t ix
    = (Inr (), ix\<lparr>ix_meta := ins S PENDING_TXIDS_KEY
                 (encode_txid_list (filter (\<lambda>e. e \<noteq> t) ts)) (ix_meta ix)\<rparr>)"
  using assms by (simp add: delete_pending_txid_def monad_defs store_ok)

lemma store_pending_txid_ok:
  assumes "sled_ok S" and "load_pending_txids S ix = Inr ts"
  shows "store_pending_txid S t ix
    = (Inr (), ix\<lparr>ix_meta := ins S PENDING_TXIDS_KEY
                 (encode_txid_list (if t \<in> set ts then ts else ts @ [t])) (ix_meta ix)\<rparr>)"
  using assms by (simp add: store_pending_txid_def monad_defs store_ok)

lemma preserves_pending_list_forget:
  assumes S: "sled_ok S"
  shows "preserves (pending_list_ok S) (forget_pending_transaction_chain_internal S B t)"
proof -
  have drop: "preserves (pending_list_ok S) (drop_pending S c)" for c
    unfolding preserves_def
  proof (intro allI impI)
    fix st assume "pending_list_ok S st"
    then obtain ts where "load_pending_txids S (store st) = Inr ts"
      by (auto simp: pending_list_ok_def)
    from delete_pending_txid_ok [OF S this] S
    show "pending_list_ok S (snd (drop_pending S c st))"
      by (simp add: drop_pending_def monad_defs on_store_def pending_list_ok_def)
  qed
  have "preserves (pending_list_ok S) (\<lambda>st. bindE (foldE (\<lambda>c _. drop_pending S c) removed ()) (\<lambda>_.
          bindE (modifyE (rebuild_pending_view B)) (\<lambda>_. returnE affected)) st)"
    for removed and affected :: "script_hash list"
    by (intro preserves_intros drop) (simp add: pending_list_ok_def)
  then show ?thesis
    unfolding preserves_def forget_pending_transaction_chain_internal_def
    by (simp add: case_prod_beta)
qed

lemma track_succeeds:
  assumes S: "sled_ok S" and "pending_list_ok S st"
  shows "\<exists>shs st'. track_pending_transaction_internal S B tx st = (Inr shs, st')"
proof -
  let ?forget = "foldE (\<lambda>conflict affected.
        bindE (forget_pending_transaction_chain_internal S B conflict) (\<lambda>shs.
          returnE (List.union affected shs))) (pending_conflicting_txids B tx st) []"
  obtain aff st1 where st1: "?forget st = (Inr aff, st1)"
    using forget_conflicts [of S B "pending_conflicting_txids B tx st" "[]" st] by blast
  have "preserves (pending_list_ok S) ?forget"
    by (intro preserves_intros preserves_pending_list_forget [OF S])
  from preservesD [OF this assms(2)] have "pending_list_ok S st1"
    unfolding st1 by simp
  then obtain ts where ts: "load_pending_txids S (store st1) = Inr ts"
    by (auto simp: pending_list_ok_def)
  have "load_pending_txids S ((store st1)\<lparr>ix_txs := m\<rparr>) = Inr ts" for m
    using ts by (simp add: load_pending_txids_def)
  note stored = store_pending_txid_ok [OF S this]
  show ?thesis
    unfolding track_pending_transaction_internal_def
    by (subst bindE_ok, rule st1) (use S in \<open>simp add: monad_defs on_store_def store_ok stored\<close>)
qed

lemma ref_chain_list: "pending_list_ok ref_sled ref_chain"
  by (simp add: pending_list_ok_def load_pending_txids_def ref_pindex_def)

section \<open>Properties\<close>

text \<open>C16: The view of pending outputs holds exactly the outputs of pending transactions that
  no pending transaction spends, each with the script hash and value of the output.\<close>

theorem pending_outputs_spec:
  assumes "pending_ok B st"
    and "\<forall>(t, tx) \<in> set (pending_txs st). length (tx_output tx) \<le> 2 ^ 32"
  shows "map_of (pending_outputs st) p = Some out \<longleftrightarrow>
    \<not> spent_by_pending B (pending_txs st) p \<and>
    (\<exists>tx o'. map_of (pending_txs st) (op_txid p) = Some tx \<and> output_at tx (op_vout p) = Some o'
        \<and> out = pending_stored B p o')"
  using pending_outputs_lookup [OF assms, of p] by (auto simp: bind_eq_Some_conv)

theorem pending_outputs_spec_witness:
  "map_of (pending_outputs ref_chain) \<lparr>op_txid = 3, op_vout = 0\<rparr>
     = Some (pending_stored ref_bitcoin \<lparr>op_txid = 3, op_vout = 0\<rparr> (ref_out [5] 30))
   \<and> map_of (pending_outputs ref_chain) \<lparr>op_txid = 2, op_vout = 0\<rparr> = None"
proof -
  have ok: "pending_ok ref_bitcoin ref_chain"
    by (simp add: ref_chain_def pending_keyed_def ref_state_def)
  have short: "\<forall>(t, tx) \<in> set (pending_txs ref_chain). length (tx_output tx) \<le> 2 ^ 32"
    by (simp add: ref_parent_def ref_child_def)
  note spec = pending_outputs_spec [OF ok short]
  have "map_of (pending_outputs ref_chain) \<lparr>op_txid = 2, op_vout = 0\<rparr> \<noteq> Some out" for out
    by (simp add: spec spent_by_pending_def ref_parent_def ref_child_def)
  then have "map_of (pending_outputs ref_chain) \<lparr>op_txid = 2, op_vout = 0\<rparr> = None"
    by (metis not_Some_eq)
  moreover have "map_of (pending_outputs ref_chain) \<lparr>op_txid = 3, op_vout = 0\<rparr>
     = Some (pending_stored ref_bitcoin \<lparr>op_txid = 3, op_vout = 0\<rparr> (ref_out [5] 30))"
    by (simp add: spec spent_by_pending_def ref_parent_def ref_child_def output_at_def)
  ultimately show ?thesis by simp
qed

text \<open>C14: Forgetting a pending transaction with its chain removes exactly the transaction
  and its pending descendants; an unknown txid changes nothing.\<close>

theorem forget_chain_removes_descendants:
  "pending_txs (snd (forget_pending_transaction_chain S B t st))
     = (if map_of (pending_txs st) t = None then pending_txs st
        else filter (\<lambda>x. \<not> (pending_child B (pending_txs st))\<^sup>*\<^sup>* t (fst x)) (pending_txs st))"
proof (cases "map_of (pending_txs st) t")
  case None
  then show ?thesis by (simp add: forget_pending_transaction_chain_def)
next
  case (Some tx)
  obtain ix where "forget_pending_transaction_chain_internal S B t st
      = (Inr (snd (removal_loop S B st [t] [] [])), rebuild_pending_view B
           (st\<lparr>pending_txs := fold hm_remove (fst (removal_loop S B st [t] [] [])) (pending_txs st),
               store := ix\<rparr>))"
    using forget_chain_ok by blast
  moreover have "pending_txs (rebuild_pending_view B
           (st\<lparr>pending_txs := fold hm_remove (fst (removal_loop S B st [t] [] [])) (pending_txs st),
               store := ix\<rparr>))
      = filter (\<lambda>x. \<not> (pending_child B (pending_txs st))\<^sup>*\<^sup>* t (fst x)) (pending_txs st)"
    by (simp only: rebuild_fields fold_hm_remove removal_set) simp
  ultimately show ?thesis
    using Some by (simp add: forget_pending_transaction_chain_def bindE_def returnE_def)
qed



text \<open>C40: Tracking a transaction that is pending already evicts the transaction itself with
  everything that spends it: the search for conflicts does not leave the transaction out, so
  a restored or rebroadcast parent loses its pending children.\<close>

theorem retrack_drops_children:
  assumes "track_pending_transaction_internal S B tx (st :: 't index_state) = (Inr shs, st')"
    and "pending_keyed B (pending_txs st)"
    and "(compute_txid B tx, tx) \<in> set (pending_txs st)"
    and "tx_prevouts B tx \<noteq> []"
    and "compute_txid B tx \<notin> op_txid ` set (tx_prevouts B tx)"
  shows "\<forall>(c, d) \<in> set (pending_txs st'). c \<noteq> compute_txid B tx \<longrightarrow> \<not> tx_spends B d (compute_txid B tx)"
proof -
  from assms(1) obtain st1 :: "'t index_state" where st1: "\<exists>P. pending_txs st1 = filter P (pending_txs st)"
    "\<forall>t \<in> set (pending_conflicting_txids B tx st).
       \<forall>(c, d) \<in> set (pending_txs st1). c \<noteq> t \<and> \<not> tx_spends B d t"
    "pending_txs st' = hm_insert (compute_txid B tx) tx (pending_txs st1)"
    by (rule track_Inr)
  have "distinct (map fst (pending_txs st))" using assms(2) by (simp add: pending_keyed_def)
  then have dist: "distinct (map fst (pending_txs st1))"
    using st1(1) by (auto simp: distinct_map_filter)
  have "compute_txid B tx \<in> set (pending_conflicting_txids B tx st)"
  proof -
    obtain p where "p \<in> set (tx_prevouts B tx)" using assms(4) by (cases "tx_prevouts B tx") auto
    then obtain i where "i \<in> set (tx_input tx)" "previous_output i \<in> set (tx_prevouts B tx)"
      by (auto simp: tx_prevouts_def)
    then have "list_ex (\<lambda>i. previous_output i \<in> set (tx_prevouts B tx)) (tx_input tx)"
      by (auto simp: list_ex_iff)
    moreover have "pending_conflicting_txids B tx st = map fst
        (filter (\<lambda>(_, c). list_ex (\<lambda>i. previous_output i \<in> set (tx_prevouts B tx)) (tx_input c))
          (filter (\<lambda>(t, _). t \<notin> op_txid ` set (tx_prevouts B tx)) (pending_txs st)))"
      by (simp add: pending_conflicting_txids_def Let_def tx_prevouts_def)
    ultimately show ?thesis using assms(3,5) by force
  qed
  then have gone: "\<forall>(c, d) \<in> set (pending_txs st1). \<not> tx_spends B d (compute_txid B tx)"
    using st1(2) by blast
  have "\<not> tx_spends B d (compute_txid B tx)"
    if "(c, d) \<in> set (pending_txs st')" "c \<noteq> compute_txid B tx" for c d
  proof -
    have "(c, d) \<in> set (pending_txs st1)"
      using that in_set_hm_insert [OF dist] by (auto simp: st1(3))
    with gone show ?thesis by blast
  qed
  then show ?thesis by blast
qed

theorem retrack_drops_children_witness:
  "\<exists>shs st'. track_pending_transaction_internal ref_sled ref_bitcoin ref_parent ref_chain
        = (Inr shs, st')
     \<and> map_of (pending_txs ref_chain) 3 = Some ref_child
     \<and> (3, ref_child) \<notin> set (pending_txs st')"
proof -
  obtain shs st' where run: "track_pending_transaction_internal ref_sled ref_bitcoin ref_parent ref_chain
      = (Inr shs, st')"
    using track_succeeds [OF ref_sled_ok ref_chain_list] by blast
  have keyed: "pending_keyed ref_bitcoin (pending_txs ref_chain)" by (simp add: pending_keyed_def)
  have prevs: "tx_prevouts ref_bitcoin ref_parent = [\<lparr>op_txid = 9, op_vout = 0\<rparr>]"
    by (simp add: tx_prevouts_def ref_parent_def)
  have "\<forall>(c, d) \<in> set (pending_txs st'). c \<noteq> 2 \<longrightarrow> \<not> tx_spends ref_bitcoin d 2"
    using retrack_drops_children [OF run keyed] by (simp add: prevs)
  moreover have "tx_spends ref_bitcoin ref_child 2" by (simp add: tx_spends_def ref_child_def)
  ultimately have "(3, ref_child) \<notin> set (pending_txs st')" by fastforce
  with run show ?thesis by simp
qed

end
