(* ===== verification/Restart.thy ===== *)
theory Restart
  imports ChainSpec PendingView
begin

text \<open>
  Opening the index again: the caches that \<open>IndexState::new\<close> builds from the trees are the
  caches the running program had. \<open>journal_synced\<close> and \<open>history_synced\<close> relate a cache to
  its tree; connecting a block keeps both.
\<close>

section \<open>The journal cache\<close>

fun action_value :: "block_action \<Rightarrow> bytes" where
  "action_value (ATx t k) = journal_kind_u8 JTx # arr32 t"
| "action_value (AHistory hk k) = journal_kind_u8 JHistory # hk"
| "action_value (AOutput p k) = journal_kind_u8 JOutput # outpoint_bytes p"
| "action_value (ASpend p k) = journal_kind_u8 JSpend # outpoint_bytes p"

definition journal_pairs :: "(u32 \<times> block_action list) list \<Rightarrow> (u32 \<times> block_action) set" where
  "journal_pairs m = {(h, a). \<exists>as. map_of m h = Some as \<and> a \<in> set as}"

definition journal_synced :: "'t sled \<Rightarrow> 't index_state \<Rightarrow> bool" where
  "journal_synced S st \<longleftrightarrow>
     (\<forall>h as. map_of (by_height st) h = Some as \<longrightarrow>
        as \<noteq> [] \<and> sorted_wrt (\<lambda>a b. action_sequence a < action_sequence b) as
        \<and> (\<forall>a \<in> set as. action_journal_key a = journal_key h (action_sequence a)))
     \<and> (\<forall>key v. view S (ix_journal (store st)) key = Some v \<longleftrightarrow>
          (\<exists>(h, a) \<in> journal_pairs (by_height st). key = action_journal_key a \<and> v = action_value a))"

text \<open>A journal entry is read back as the action it was written for.\<close>

lemma load_written_action:
  assumes "action_journal_key a = journal_key h n"
  shows "\<exists>sa. parse_journal_action (action_journal_key a) (action_value a) = Inr sa
    \<and> load_action sa = Inr a \<and> ja_height sa = h"
proof (cases a)
  case (ATx t k)
  with assms parse_journal_action_make [of h n JTx "arr32 t"] show ?thesis
    by (simp add: action_journal_key_def load_action_def parse_txid_def from_be_be_bytes)
next
  case (AHistory hk k)
  with assms parse_journal_action_make [of h n JHistory hk] show ?thesis
    by (simp add: action_journal_key_def load_action_def)
next
  case (AOutput p k)
  with assms parse_journal_action_make [of h n JOutput "outpoint_bytes p"] show ?thesis
    by (simp add: action_journal_key_def load_action_def)
next
  case (ASpend p k)
  with assms parse_journal_action_make [of h n JSpend "outpoint_bytes p"] show ?thesis
    by (simp add: action_journal_key_def load_action_def)
qed

definition entry_pair :: "bytes \<times> bytes \<Rightarrow> u32 \<times> block_action" where
  "entry_pair e =
     (let sa = projr (parse_journal_action (fst e) (snd e)) in (ja_height sa, projr (load_action sa)))"

lemma journal_entry_pair:
  assumes S: "sled_ok S" and sync: "journal_synced S st"
    and e: "e \<in> set (entries S (ix_journal (store st)))"
  shows "entry_pair e \<in> journal_pairs (by_height st)"
    and "fst e = action_journal_key (snd (entry_pair e))"
    and "\<exists>sa. parse_journal_action (fst e) (snd e) = Inr sa
      \<and> load_action sa = Inr (snd (entry_pair e)) \<and> ja_height sa = fst (entry_pair e)"
proof -
  have "view S (ix_journal (store st)) (fst e) = Some (snd e)"
    using e sled_entries(3) [OF S] by (metis prod.collapse)
  then obtain h a where ha: "(h, a) \<in> journal_pairs (by_height st)"
    "fst e = action_journal_key a" "snd e = action_value a"
    using sync unfolding journal_synced_def by blast
  then have "action_journal_key a = journal_key h (action_sequence a)"
    using sync by (auto simp: journal_synced_def journal_pairs_def)
  from load_written_action [OF this] obtain sa where
    "parse_journal_action (fst e) (snd e) = Inr sa" "load_action sa = Inr a" "ja_height sa = h"
    using ha by auto
  moreover from this have "entry_pair e = (h, a)" by (simp add: entry_pair_def)
  ultimately show "entry_pair e \<in> journal_pairs (by_height st)"
    and "fst e = action_journal_key (snd (entry_pair e))"
    and "\<exists>sa. parse_journal_action (fst e) (snd e) = Inr sa
      \<and> load_action sa = Inr (snd (entry_pair e)) \<and> ja_height sa = fst (entry_pair e)"
    using ha by auto
qed

lemma pushes_lookup:
  "map_of (fold (\<lambda>(h, a). hm_push h a) ps m) h
     = (let as = map snd (filter (\<lambda>p. fst p = h) ps)
        in case map_of m h of None \<Rightarrow> (if as = [] then None else Some as) | Some bs \<Rightarrow> Some (bs @ as))"
proof (induction ps arbitrary: m)
  case (Cons p ps)
  show ?case
    by (cases p) (auto simp: Cons Let_def split: option.splits)
qed (simp split: option.splits)

text \<open>The list of actions of a height is determined by its elements.\<close>

lemma actions_unique:
  assumes "sorted_wrt (\<lambda>a b. action_sequence a < action_sequence b) as"
    and "distinct (map action_sequence bs)" and "set bs = set as"
  shows "sort_key action_sequence bs = as"
proof (rule map_sorted_distinct_set_unique)
  have strict: "sorted_wrt (<) (map action_sequence as)"
    using assms(1) by (simp add: sorted_wrt_map)
  then show "sorted (map action_sequence as)" and "distinct (map action_sequence as)"
    by (simp_all add: strict_sorted_iff)
  show "inj_on action_sequence (set (sort_key action_sequence bs) \<union> set as)"
    using assms(2,3) by (simp add: distinct_map)
  have "mset (map action_sequence (sort_key action_sequence bs)) = mset (map action_sequence bs)"
    by simp
  then show "distinct (map action_sequence (sort_key action_sequence bs))"
    using assms(2) by (metis mset_eq_imp_distinct_iff)
qed (use assms in auto)

lemma reloaded_actions:
  assumes S: "sled_ok S" and sync: "journal_synced S st"
  shows "map_option (sort_key action_sequence)
      (map_of (fold (\<lambda>(h, a). hm_push h a) (map entry_pair (entries S (ix_journal (store st)))) []) h)
    = map_of (by_height st) h"
proof -
  let ?es = "entries S (ix_journal (store st))"
  let ?as = "map snd (filter (\<lambda>p. fst p = h) (map entry_pair ?es))"
  note pair = journal_entry_pair [OF S sync]
  have set_as: "set ?as = {a. (h, a) \<in> journal_pairs (by_height st)}"
  proof (intro set_eqI iffI)
    fix a assume "a \<in> set ?as"
    then obtain e where e: "e \<in> set ?es" "entry_pair e = (h, a)" by force
    show "a \<in> {a. (h, a) \<in> journal_pairs (by_height st)}" using pair(1) [OF e(1)] e(2) by simp
  next
    fix a assume a: "a \<in> {a. (h, a) \<in> journal_pairs (by_height st)}"
    then have key: "action_journal_key a = journal_key h (action_sequence a)"
      using sync by (auto simp: journal_synced_def journal_pairs_def)
    have "view S (ix_journal (store st)) (action_journal_key a) = Some (action_value a)"
      using a sync unfolding journal_synced_def by blast
    then have "(action_journal_key a, action_value a) \<in> set ?es" using S by (simp add: sled_entries(3))
    moreover have "entry_pair (action_journal_key a, action_value a) = (h, a)"
      using load_written_action [OF key] by (auto simp: entry_pair_def)
    ultimately show "a \<in> set ?as" by force
  qed
  have "distinct (map action_sequence ?as)"
  proof -
    have "distinct (map action_journal_key (map (snd \<circ> entry_pair) ?es))"
    proof -
      have eq: "map action_journal_key (map (snd \<circ> entry_pair) ?es) = map fst ?es"
        using pair(2) by simp
      show ?thesis unfolding eq by (rule entries_distinct [OF S])
    qed
    then have "distinct (map action_journal_key ?as)"
      by (simp add: distinct_map_filter filter_map comp_def distinct_map inj_on_def)
    moreover have "\<forall>a \<in> set ?as. action_journal_key a = journal_key h (action_sequence a)"
      using set_as sync by (auto simp: journal_synced_def journal_pairs_def)
    ultimately show ?thesis
      by (force simp: distinct_map inj_on_def)
  qed
  note dist = this
  show ?thesis
  proof (cases "map_of (by_height st) h")
    case None
    then have "set ?as = {}" unfolding set_as by (simp add: journal_pairs_def)
    then have "?as = []" by (simp only: set_empty)
    then show ?thesis using None by (simp add: pushes_lookup Let_def del: map_map)
  next
    case (Some as)
    then have sorted: "sorted_wrt (\<lambda>a b. action_sequence a < action_sequence b) as" "as \<noteq> []"
      using sync by (auto simp: journal_synced_def)
    have "set ?as = set as" using set_as Some by (simp add: journal_pairs_def)
    then have "sort_key action_sequence ?as = as" "?as \<noteq> []"
      using actions_unique [OF sorted(1) dist] sorted(2) by auto
    then show ?thesis using Some by (simp add: pushes_lookup Let_def del: map_map)
  qed
qed

section \<open>The history cache\<close>

definition cached_history :: "'t index_state \<Rightarrow> script_hash \<Rightarrow> tx_entry list" where
  "cached_history st sh = (case map_of (history st) sh of None \<Rightarrow> [] | Some es \<Rightarrow> es)"

definition history_synced :: "'t sled \<Rightarrow> 't index_state \<Rightarrow> bool" where
  "history_synced S st \<longleftrightarrow>
     history_wf S (store st) \<and>
     (\<forall>sh. mset (cached_history st sh)
        = mset (map key_entry (history_keys_of S (store st) sh)))"

definition push_key :: "bytes \<Rightarrow> 't index_state \<Rightarrow> 't index_state" where
  "push_key key = push_history (from_be (bslice 0 32 key)) (key_entry key)"

lemma push_key_fields [simp]:
  "by_height (push_key k st) = by_height st" "pending_txs (push_key k st) = pending_txs st"
  "pending_outputs (push_key k st) = pending_outputs st" "tip_height (push_key k st) = tip_height st"
  "store (push_key k st) = store st"
  by (simp_all add: push_key_def push_history_def)

lemma push_keys_fields [simp]:
  "by_height (fold push_key ks st) = by_height st"
  "pending_txs (fold push_key ks st) = pending_txs st"
  "pending_outputs (fold push_key ks st) = pending_outputs st"
  "tip_height (fold push_key ks st) = tip_height st" "store (fold push_key ks st) = store st"
  by (induction ks arbitrary: st) simp_all

lemma cached_history_push:
  "cached_history (push_history sh e st) sh'
     = (if sh' = sh then cached_history st sh @ [e] else cached_history st sh')"
  by (simp add: cached_history_def push_history_def)

lemma cached_history_push_keys:
  "cached_history (fold push_key ks st) sh
     = cached_history st sh @ map key_entry (filter (\<lambda>k. from_be (bslice 0 32 k) = sh) ks)"
  by (induction ks arbitrary: st) (simp_all add: push_key_def cached_history_push)

lemma push_keys_distinct:
  "distinct (map fst (history st)) \<Longrightarrow> distinct (map fst (history (fold push_key ks st)))"
  by (induction ks arbitrary: st)
    (simp_all add: push_key_def push_history_def hm_push_def distinct_update)

lemma script_of_history_key [simp]: "from_be (bslice 0 32 (history_key sh h k t s)) = sh"
  by (simp add: history_key_def from_be_be_bytes codec_simps)

lemma load_history_ok:
  assumes S: "sled_ok S" and wf: "history_wf S (store st)"
  shows "load_history_from_store S st
    = (Inr (), fold push_key (map fst (entries S (ix_history (store st)))) st)"
proof -
  let ?keys = "map fst (entries S (ix_history (store st)))"
  have key: "\<exists>sh h k t s. key = history_key sh h k t s" if "key \<in> set ?keys" for key
    using that wf sled_entries(3) [OF S] by (fastforce simp: history_wf_def)
  have "load_history_entries S (store st)
      = foldR (\<lambda>k out. bindR (parse_history_key k) (\<lambda>e. Inr (out @ [e]))) ?keys []"
    by (simp add: load_history_entries_def sled_entries(1) [OF S] foldR_map case_prod_beta)
  also have "\<dots> = Inr (fold (\<lambda>k out. out @ [projr (parse_history_key k)]) ?keys [])"
    by (rule foldR_all_ok) (use key parse_history_key_make in fastforce)
  finally have load: "load_history_entries S (store st) = Inr (map (projr \<circ> parse_history_key) ?keys)"
    by (simp add: fold_snoc_map comp_def)
  have pushes: "fold (\<lambda>e. push_history (sh_script_hash e)
           \<lparr>te_txid = sh_txid e, te_height = sh_height e, te_sequence = sh_sequence e\<rparr>)
         (map (projr \<circ> parse_history_key) ks) s = fold push_key ks s"
    if "\<forall>k \<in> set ks. \<exists>sh h kd t s. k = history_key sh h kd t s" for ks and s :: "'a index_state"
    using that
  proof (induction ks arbitrary: s)
    case (Cons k ks)
    then obtain sh h kd t n where "k = history_key sh h kd t n" by auto
    then show ?case using Cons by (simp add: parse_history_key_make push_key_def)
  qed simp
  have "\<forall>k \<in> set ?keys. \<exists>sh h kd t s. k = history_key sh h kd t s"
    using key by blast
  note pushes = pushes [OF this, of st]
  show ?thesis
    by (simp only: load_history_from_store_def bindE_def readE_def modifyE_def load pushes
        prod.case sum.case)
qed

lemma reloaded_history:
  assumes S: "sled_ok S" and wf: "history_wf S (store st)" and empty: "history st0 = []"
  shows "cached_history (fold push_key (map fst (entries S (ix_history (store st)))) st0) sh
    = map key_entry (history_keys_of S (store st) sh)"
proof -
  have "from_be (bslice 0 32 key) = sh \<longleftrightarrow> starts_with (arr32 sh) key"
    if "key \<in> set (map fst (entries S (ix_history (store st))))" for key
  proof -
    have "\<exists>sh h k t s. key = history_key sh h k t s"
      using that wf sled_entries(3) [OF S] by (fastforce simp: history_wf_def)
    then show ?thesis by auto
  qed
  then have "filter (\<lambda>k. from_be (bslice 0 32 k) = sh) (map fst (entries S (ix_history (store st))))
      = filter (starts_with (arr32 sh)) (map fst (entries S (ix_history (store st))))"
    by (rule filter_cong [OF refl])
  moreover have "cached_history st0 sh = []" by (simp add: cached_history_def empty)
  ultimately show ?thesis
    by (simp add: cached_history_push_keys history_keys_of_def filter_map comp_def)
qed

section \<open>Loading the journal\<close>

definition push_pair :: "u32 \<times> block_action \<Rightarrow> 't index_state \<Rightarrow> 't index_state" where
  "push_pair p = push_action (fst p) (snd p)"

lemma push_pairs:
  "fold push_pair ps st = st\<lparr>by_height := fold (\<lambda>(h, a). hm_push h a) ps (by_height st)\<rparr>"
  by (induction ps arbitrary: st) (simp_all add: push_pair_def push_action_def case_prod_beta)

lemma load_journal_ok:
  assumes S: "sled_ok S" and sync: "journal_synced S st" and same: "store st1 = store st"
    and empty: "by_height st1 = []"
  shows "\<exists>confirmed b. load_journal_from_store S st1 = (Inr confirmed, st1\<lparr>by_height := b\<rparr>)
    \<and> map_of b = map_of (by_height st)
    \<and> set confirmed = {t. \<exists>h key. (h, ATx t key) \<in> journal_pairs (by_height st)}"
proof -
  let ?es = "entries S (ix_journal (store st))"
  note pair = journal_entry_pair [OF S sync]
  let ?sa = "\<lambda>e. projr (parse_journal_action (fst e) (snd e))"
  have sa: "parse_journal_action (fst e) (snd e) = Inr (?sa e)"
    "load_action (?sa e) = Inr (snd (entry_pair e))" "ja_height (?sa e) = fst (entry_pair e)"
    if "e \<in> set ?es" for e
    using pair(3) [OF that] by auto
  have "load_journal_actions S (store st)
      = foldR (\<lambda>e out. bindR (parse_journal_action (fst e) (snd e)) (\<lambda>a. Inr (out @ [a]))) ?es []"
    by (simp add: load_journal_actions_def sled_entries(1) [OF S] foldR_map case_prod_beta)
  also have "\<dots> = Inr (fold (\<lambda>e out. out @ [?sa e]) ?es [])"
    by (rule foldR_all_ok) (metis sa(1) bindR_simps(2))
  finally have load: "load_journal_actions S (store st) = Inr (map ?sa ?es)"
    by (simp add: fold_snoc_map)
  have loop: "\<exists>c. foldE (\<lambda>a confirmed.
              bindE (readE (\<lambda>_. load_action a)) (\<lambda>entry.
              bindE (modifyE (push_action (ja_height a) entry)) (\<lambda>_.
                returnE (List.union confirmed (confirmed_by entry))))) (map ?sa es) c0 s
      = (Inr c, fold push_pair (map entry_pair es) s)
      \<and> set c = set c0 \<union> {t. \<exists>h key. (h, ATx t key) \<in> set (map entry_pair es)}"
    if "set es \<subseteq> set ?es" for es c0 and s :: "'a index_state"
    using that
  proof (induction es arbitrary: c0 s)
    case Nil
    then show ?case by (simp add: returnE_def)
  next
    case (Cons e es)
    let ?c = "List.union c0 (confirmed_by (snd (entry_pair e)))"
    have e: "load_action (?sa e) = Inr (snd (entry_pair e))" "ja_height (?sa e) = fst (entry_pair e)"
      using sa(2,3) [of e] Cons.prems by simp_all
    obtain c where c: "foldE (\<lambda>a confirmed.
              bindE (readE (\<lambda>_. load_action a)) (\<lambda>entry.
              bindE (modifyE (push_action (ja_height a) entry)) (\<lambda>_.
                returnE (List.union confirmed (confirmed_by entry))))) (map ?sa es) ?c
          (push_pair (entry_pair e) s)
        = (Inr c, fold push_pair (map entry_pair es) (push_pair (entry_pair e) s))"
      "set c = set ?c \<union> {t. \<exists>h key. (h, ATx t key) \<in> set (map entry_pair es)}"
      using Cons.IH Cons.prems by (metis (no_types, lifting) set_subset_Cons subset_trans)
    have "set (confirmed_by (snd (entry_pair e))) = {t. \<exists>h key. (h, ATx t key) = entry_pair e}"
      by (cases "entry_pair e") (auto simp: confirmed_by_def split: block_action.splits)
    then have "set c = set c0 \<union> {t. \<exists>h key. (h, ATx t key) \<in> set (map entry_pair (e # es))}"
      unfolding c(2) by (simp del: set_map) blast
    moreover have "foldE (\<lambda>a confirmed.
              bindE (readE (\<lambda>_. load_action a)) (\<lambda>entry.
              bindE (modifyE (push_action (ja_height a) entry)) (\<lambda>_.
                returnE (List.union confirmed (confirmed_by entry))))) (map ?sa (e # es)) c0 s
        = (Inr c, fold push_pair (map entry_pair (e # es)) s)"
      using c(1) e by (simp add: bindE_def readE_def modifyE_def returnE_def push_pair_def)
    ultimately show ?case by blast
  qed
  obtain confirmed where conf: "foldE (\<lambda>a confirmed.
              bindE (readE (\<lambda>_. load_action a)) (\<lambda>entry.
              bindE (modifyE (push_action (ja_height a) entry)) (\<lambda>_.
                returnE (List.union confirmed (confirmed_by entry))))) (map ?sa ?es) [] st1
      = (Inr confirmed, fold push_pair (map entry_pair ?es) st1)"
    "set confirmed = {t. \<exists>h key. (h, ATx t key) \<in> set (map entry_pair ?es)}"
    using loop [of ?es "[]" st1] by auto
  have pairs: "set (map entry_pair ?es) = journal_pairs (by_height st)"
  proof
    show "set (map entry_pair ?es) \<subseteq> journal_pairs (by_height st)" using pair(1) by auto
    show "journal_pairs (by_height st) \<subseteq> set (map entry_pair ?es)"
    proof
      fix x assume x: "x \<in> journal_pairs (by_height st)"
      obtain h a where ha: "x = (h, a)" by (cases x)
      with x have key: "action_journal_key a = journal_key h (action_sequence a)"
        using sync by (auto simp: journal_synced_def journal_pairs_def)
      have "view S (ix_journal (store st)) (action_journal_key a) = Some (action_value a)"
        using x ha sync unfolding journal_synced_def by blast
      then have "(action_journal_key a, action_value a) \<in> set ?es" using S by (simp add: sled_entries(3))
      moreover have "entry_pair (action_journal_key a, action_value a) = x"
        using load_written_action [OF key] ha by (auto simp: entry_pair_def)
      ultimately show "x \<in> set (map entry_pair ?es)" by force
    qed
  qed
  let ?b = "map (\<lambda>(h, as). (h, sort_key action_sequence as))
      (fold (\<lambda>(h, a). hm_push h a) (map entry_pair ?es) [])"
  have "map_of ?b = map_of (by_height st)"
    by (rule ext) (simp add: map_of_map reloaded_actions [OF S sync] del: map_map)
  moreover have "load_journal_from_store S st1 = (Inr confirmed, st1\<lparr>by_height := ?b\<rparr>)"
    unfolding load_journal_from_store_def
    using load conf(1) same empty
    by (simp add: bindE_def readE_def modifyE_def returnE_def push_pairs)
  ultimately show ?thesis using conf(2) pairs by auto
qed

section \<open>Loading the pending transactions\<close>

definition pending_synced :: "'t sled \<Rightarrow> bitcoin_lib \<Rightarrow> 't index_state \<Rightarrow> bool" where
  "pending_synced S B st \<longleftrightarrow>
     (\<exists>ts. load_pending_txids S (store st) = Inr ts \<and> set ts = fst ` set (pending_txs st)) \<and>
     (\<forall>(t, tx) \<in> set (pending_txs st).
        load_tx S B t (store st) = Inr (Some tx) \<and>
        (\<forall>h key. (h, ATx t key) \<notin> journal_pairs (by_height st)))"

lemma load_pending_ok:
  assumes sync: "pending_synced S B st" and keyed: "pending_keyed B (pending_txs st)"
    and same: "store st1 = store st" and empty: "pending_txs st1 = []"
    and confirmed: "set confirmed = {t. \<exists>h key. (h, ATx t key) \<in> journal_pairs (by_height st)}"
  shows "\<exists>p. load_pending_from_store S B confirmed st1 = (Inr (), st1\<lparr>pending_txs := p\<rparr>)
    \<and> map_of p = map_of (pending_txs st) \<and> pending_keyed B p"
proof -
  have dist: "distinct (map fst (pending_txs st))"
    and txid: "\<And>t tx. (t, tx) \<in> set (pending_txs st) \<Longrightarrow> compute_txid B tx = t"
    using keyed by (auto simp: pending_keyed_def)
  obtain ts where ts: "load_pending_txids S (store st) = Inr ts" "set ts = fst ` set (pending_txs st)"
    using sync by (auto simp: pending_synced_def)
  have loop: "\<exists>p. foldE (\<lambda>t _.
         if t \<in> set confirmed then returnE ()
         else bindE (readE (\<lambda>st. load_tx S B t (store st))) (\<lambda>r.
           case r of
             None \<Rightarrow> returnE ()
           | Some tx \<Rightarrow> modifyE (\<lambda>st. st\<lparr>pending_txs := hm_insert t tx (pending_txs st)\<rparr>)))
         us () s = (Inr (), s\<lparr>pending_txs := p\<rparr>)
       \<and> (\<forall>t. map_of p t = (if t \<in> set us then map_of (pending_txs st) t else map_of (pending_txs s) t))
       \<and> pending_keyed B p"
    if "set us \<subseteq> fst ` set (pending_txs st)" "store s = store st" "pending_keyed B (pending_txs s)"
    for us and s :: "'a index_state"
    using that
  proof (induction us arbitrary: s)
    case Nil
    then show ?case by (intro exI [of _ "pending_txs s"]) (simp add: returnE_def)
  next
    case (Cons t us)
    then obtain tx where tx: "(t, tx) \<in> set (pending_txs st)" by auto
    then have load: "load_tx S B t (store st) = Inr (Some tx)" "t \<notin> set confirmed"
      and map_tx: "map_of (pending_txs st) t = Some tx"
      using sync confirmed dist by (auto simp: pending_synced_def)
    let ?s = "s\<lparr>pending_txs := hm_insert t tx (pending_txs s)\<rparr>"
    have "pending_keyed B (pending_txs ?s)"
      using Cons.prems(3) txid [OF tx] pending_keyed_insert [of B "pending_txs s" tx] by simp
    then obtain p where p: "foldE (\<lambda>t _.
         if t \<in> set confirmed then returnE ()
         else bindE (readE (\<lambda>st. load_tx S B t (store st))) (\<lambda>r.
           case r of
             None \<Rightarrow> returnE ()
           | Some tx \<Rightarrow> modifyE (\<lambda>st. st\<lparr>pending_txs := hm_insert t tx (pending_txs st)\<rparr>)))
         us () ?s = (Inr (), ?s\<lparr>pending_txs := p\<rparr>)"
      "\<forall>t. map_of p t = (if t \<in> set us then map_of (pending_txs st) t else map_of (pending_txs ?s) t)"
      "pending_keyed B p"
      using Cons.IH [of ?s] Cons.prems(1,2) by auto
    have "foldE (\<lambda>t _.
         if t \<in> set confirmed then returnE ()
         else bindE (readE (\<lambda>st. load_tx S B t (store st))) (\<lambda>r.
           case r of
             None \<Rightarrow> returnE ()
           | Some tx \<Rightarrow> modifyE (\<lambda>st. st\<lparr>pending_txs := hm_insert t tx (pending_txs st)\<rparr>)))
         (t # us) () s = (Inr (), s\<lparr>pending_txs := p\<rparr>)"
      using p(1) load Cons.prems(2) by (simp add: bindE_def readE_def modifyE_def)
    then show ?case using p(2,3) map_tx by (intro exI [of _ p]) auto
  qed
  have "pending_keyed B (pending_txs st1)" by (simp add: empty pending_keyed_def)
  from loop [OF _ same this, of ts] ts(2) obtain p where p: "foldE (\<lambda>t _.
         if t \<in> set confirmed then returnE ()
         else bindE (readE (\<lambda>st. load_tx S B t (store st))) (\<lambda>r.
           case r of
             None \<Rightarrow> returnE ()
           | Some tx \<Rightarrow> modifyE (\<lambda>st. st\<lparr>pending_txs := hm_insert t tx (pending_txs st)\<rparr>)))
         ts () st1 = (Inr (), st1\<lparr>pending_txs := p\<rparr>)"
    "\<forall>t. map_of p t = (if t \<in> set ts then map_of (pending_txs st) t else None)" "pending_keyed B p"
    by (auto simp: empty)
  have "map_of p = map_of (pending_txs st)"
  proof (rule ext)
    fix t
    show "map_of p t = map_of (pending_txs st) t"
      using p(2) ts(2) map_of_eq_None_iff [of "pending_txs st" t] by metis
  qed
  moreover have "readE (\<lambda>st. load_pending_txids S (store st)) st1 = (Inr ts, st1)"
    using ts(1) same by (simp add: readE_def)
  then have "load_pending_from_store S B confirmed st1 = (Inr (), st1\<lparr>pending_txs := p\<rparr>)"
    unfolding load_pending_from_store_def by (subst bindE_ok, assumption) (rule p(1))
  ultimately show ?thesis using p(3) by blast
qed

section \<open>The whole state\<close>

definition synced :: "'t sled \<Rightarrow> bitcoin_lib \<Rightarrow> 't index_state \<Rightarrow> bool" where
  "synced S B st \<longleftrightarrow>
     journal_synced S st \<and> history_synced S st \<and> pending_synced S B st \<and> pending_ok B st
     \<and> pindex_tip_height S (store st) = tip_height st"

lemma reopen_ok:
  assumes S: "sled_ok S" and sync: "synced S B st"
  shows "\<exists>st'. new_index_state S B (Inr (store st)) = Inr st'
    \<and> map_of (by_height st') = map_of (by_height st)
    \<and> (\<forall>sh. mset (cached_history st' sh) = mset (cached_history st sh))
    \<and> map_of (pending_txs st') = map_of (pending_txs st)
    \<and> tip_height st' = tip_height st \<and> store st' = store st \<and> pending_ok B st'
    \<and> distinct (map fst (history st'))"
proof -
  let ?st0 = "empty_state S (store st)"
  let ?keys = "map fst (entries S (ix_history (store st)))"
  let ?st1 = "fold push_key ?keys ?st0"
  have fields: "store ?st0 = store st" "by_height ?st0 = []" "history ?st0 = []"
    "pending_txs ?st0 = []" "tip_height ?st0 = pindex_tip_height S (store st)"
    by (simp_all add: empty_state_def)
  have wf: "history_wf S (store st)" using sync by (simp add: synced_def history_synced_def)
  then have hist: "load_history_from_store S ?st0 = (Inr (), ?st1)"
    using load_history_ok [OF S, of ?st0] fields(1) by simp
  obtain confirmed b where j: "load_journal_from_store S ?st1 = (Inr confirmed, ?st1\<lparr>by_height := b\<rparr>)"
    "map_of b = map_of (by_height st)"
    "set confirmed = {t. \<exists>h key. (h, ATx t key) \<in> journal_pairs (by_height st)}"
    using load_journal_ok [OF S, of st ?st1] sync fields by (auto simp: synced_def)
  obtain p where p: "load_pending_from_store S B confirmed (?st1\<lparr>by_height := b\<rparr>)
      = (Inr (), ?st1\<lparr>by_height := b, pending_txs := p\<rparr>)"
    "map_of p = map_of (pending_txs st)" "pending_keyed B p"
    using load_pending_ok [of S B st "?st1\<lparr>by_height := b\<rparr>" confirmed] sync fields j(3)
    by (auto simp: synced_def pending_ok_def)
  let ?st' = "rebuild_pending_view B (?st1\<lparr>by_height := b, pending_txs := p\<rparr>)"
  have run: "new_index_state S B (Inr (store st)) = Inr ?st'"
    using hist j(1) p(1) by (simp add: new_index_state_def bindE_def modifyE_def)
  have "cached_history ?st' sh = cached_history ?st1 sh" for sh
    by (simp add: cached_history_def)
  then have "mset (cached_history ?st' sh) = mset (cached_history st sh)" for sh
    using reloaded_history [OF S wf fields(3)] sync
    by (simp add: synced_def history_synced_def)
  moreover have "distinct (map fst (history ?st1))" by (rule push_keys_distinct) (simp add: fields(3))
  ultimately show ?thesis
    using run j(2) p(2,3) fields sync by (intro exI [of _ ?st']) (simp add: synced_def)
qed

text \<open>Two lists with the same entries give the same history, whatever their order.\<close>

lemma sort_key_mset_eq:
  assumes "mset xs = mset ys" and "inj_on f (set xs)"
  shows "sort_key f xs = sort_key f ys"
proof (rule properties_for_sort_key)
  show "mset (sort_key f ys) = mset xs" using assms(1) by simp
  fix k assume k: "k \<in> set (sort_key f ys)"
  have sets: "set (sort_key f ys) = set xs" using assms(1) by (metis mset_eq_setD set_sort)
  have "filter (\<lambda>x. f k = f x) zs = replicate (count (mset zs) k) k" if zs: "set zs = set xs" for zs
  proof -
    have "\<forall>x \<in> set zs. (f k = f x) = (k = x)"
      using assms(2) zs k sets by (metis inj_onD)
    then have "filter (\<lambda>x. f k = f x) zs = filter (\<lambda>x. k = x) zs"
      by (intro filter_cong) auto
    also have "\<dots> = replicate (count (mset zs) k) k"
      by (induction zs) auto
    finally show ?thesis .
  qed
  from this [OF sets] this [OF refl] assms(1)
  show "filter (\<lambda>x. f k = f x) (sort_key f ys) = filter (\<lambda>x. f k = f x) xs" by simp
next
  show "sorted (map f (sort_key f ys))" by simp
qed

definition history_order :: "bitcoin_lib \<Rightarrow> tx_entry \<Rightarrow> u32 \<times> u32 \<times> string" where
  "history_order B e = (confirmed_first (te_height e), te_sequence e, txid_to_string B (te_txid e))"

lemma history_order_inj:
  assumes "bitcoin_ok B" and "\<forall>e \<in> E. te_height e \<noteq> - 1"
  shows "inj_on (history_order B) E"
proof (rule inj_onI)
  fix e e' assume "e \<in> E" "e' \<in> E" "history_order B e = history_order B e'"
  then have "te_height e = te_height e'" "te_sequence e = te_sequence e'" "te_txid e = te_txid e'"
    using assms
    by (auto simp: history_order_def confirmed_first_def bitcoin_ok_txid_inj split: if_splits)
  then show "e = e'" by simp
qed

lemma get_history_order:
  "get_history S B sh st
     = sort_key (history_order B) (cached_history st sh @ pending_history_for_script S B sh st)"
  by (simp add: get_history_def cached_history_def history_order_def [abs_def])

lemma pending_history_mset:
  assumes "pending_ok B st" and "pending_ok B st'" and map: "map_of (pending_txs st') = map_of (pending_txs st)"
    and "store st' = store st" and "\<forall>(t, tx) \<in> set (pending_txs st). length (tx_output tx) \<le> 2 ^ 32"
  shows "mset (pending_history_for_script S B sh st') = mset (pending_history_for_script S B sh st)"
proof -
  have dist: "distinct (map fst (pending_txs st))" "distinct (map fst (pending_txs st'))"
    using assms(1,2) by (auto simp: pending_ok_def pending_keyed_def)
  then have sets: "set (pending_txs st') = set (pending_txs st)"
    using map by (metis map_of_inject_set)
  have lens: "\<forall>(t, tx) \<in> set (pending_txs st'). length (tx_output tx) \<le> 2 ^ 32"
    using assms(5) sets by simp
  have "map_of (pending_outputs st') = map_of (pending_outputs st)"
    using pending_outputs_lookup [OF assms(1,5)] pending_outputs_lookup [OF assms(2) lens] map sets
    by (simp add: fun_eq_iff spent_by_pending_def)
  then have "pending_tx_touches_script S B tx sh st' = pending_tx_touches_script S B tx sh st" for tx
    using map assms(4)
    by (simp add: pending_tx_touches_script_def script_hash_for_outpoint_def
        pending_output_for_outpoint_def cong: option.case_cong)
  moreover have "mset (pending_txs st') = mset (pending_txs st)"
    using dist sets by (simp add: set_eq_iff_mset_eq_distinct distinct_map)
  then have "mset (map snd (pending_txs st')) = mset (map snd (pending_txs st))" by simp
  ultimately show ?thesis by (simp add: pending_history_for_script_def)
qed

section \<open>Connecting keeps caches and trees in step\<close>

lemma action_of_record [simp]:
  "action_sequence (record_action h x) = fst x"
  "action_value (record_action h x) = record_value h (snd x)"
proof -
  show "action_sequence (record_action h x) = fst x"
    by (simp add: action_sequence_def journal_key_def from_be_be_bytes codec_simps)
  show "action_value (record_action h x) = record_value h (snd x)"
    by (cases "(h, x)" rule: record_action.cases) simp_all
qed

lemma do_record_journal [simp]:
  "v_journal (do_record h x v) = (v_journal v)(journal_key h (fst x) \<mapsto> record_value h (snd x))"
  by (cases "(h, x)" rule: record_action.cases) (auto simp: do_record_def Let_def split: option.splits)

lemma run_journal:
  "distinct (map fst xs) \<Longrightarrow> v_journal (fold (do_record h) xs v) key = Some w \<longleftrightarrow>
     (\<exists>x \<in> set xs. key = journal_key h (fst x) \<and> w = record_value h (snd x))
     \<or> (\<forall>x \<in> set xs. key \<noteq> journal_key h (fst x)) \<and> v_journal v key = Some w"
proof (induction xs arbitrary: v)
  case (Cons x xs)
  have "fst x \<notin> fst ` set xs" using Cons.prems by simp
  then have new: "journal_key h (fst x) \<noteq> journal_key h (fst y)" if "y \<in> set xs" for y
    using that by (auto simp: image_iff)
  show ?case
    using Cons.IH [of "do_record h x v"] Cons.prems new by auto
qed simp

lemma numbered_sorted:
  assumes "length rs \<le> 2 ^ 32"
  shows "sorted_wrt (<) (map fst (numbered 0 rs))"
proof -
  have "of_nat i < (of_nat j :: u32)" if "i < j" "j < length rs" for i j
    using that assms by (simp add: word_less_nat_alt unsigned_of_nat take_bit_nat_eq_self)
  then show ?thesis
    unfolding numbered_sequence by (simp add: sorted_wrt_iff_nth_less)
qed

lemma connected_lookup:
  assumes "map_of m h = None"
  shows "map_of (fold (hm_push h) as m) h'
    = (if h' = h then (if as = [] then None else Some as) else map_of m h')"
proof (cases "h' = h")
  case True
  then show ?thesis using assms by (simp add: by_height_pushes)
next
  case False
  then have "map_of (fold (hm_push h) as m) h' = map_of m h'" by (induction as arbitrary: m) auto
  with False show ?thesis by simp
qed

lemma pairs_connected:
  "map_of m h = None \<Longrightarrow> journal_pairs (fold (hm_push h) (map (record_action h) xs) m)
     = journal_pairs m \<union> (\<lambda>x. (h, record_action h x)) ` set xs"
  by (auto simp: journal_pairs_def connected_lookup split: if_splits)

lemma journal_synced_connect:
  assumes sync: "journal_synced S st" and free: "map_of (by_height st) h = None"
    and short: "length rs \<le> 2 ^ 32"
    and keys: "\<forall>s. v_journal (views S (store st)) (journal_key h s) = None"
    and views: "views S (store st') = run_records h 0 rs (views S (store st))"
    and cache: "by_height st' = fold (hm_push h) (map (record_action h) (numbered 0 rs)) (by_height st)"
  shows "journal_synced S st'"
proof -
  let ?as = "map (record_action h) (numbered 0 rs)"
  have lookup: "map_of (by_height st') h'
      = (if h' = h then (if ?as = [] then None else Some ?as) else map_of (by_height st) h')" for h'
    unfolding cache by (rule connected_lookup [OF free])
  have pairs: "journal_pairs (by_height st')
      = journal_pairs (by_height st) \<union> (\<lambda>x. (h, record_action h x)) ` set (numbered 0 rs)"
    unfolding cache by (rule pairs_connected [OF free])
  have "sorted_wrt (\<lambda>a b. action_sequence a < action_sequence b) ?as"
    using numbered_sorted [OF short] by (simp add: sorted_wrt_map)
  then have lists: "as \<noteq> [] \<and> sorted_wrt (\<lambda>a b. action_sequence a < action_sequence b) as
        \<and> (\<forall>a \<in> set as. action_journal_key a = journal_key h' (action_sequence a))"
    if "map_of (by_height st') h' = Some as" for h' as
    using that sync by (auto simp: lookup journal_synced_def split: if_splits)
  have "view S (ix_journal (store st')) key = Some v \<longleftrightarrow>
      (\<exists>(h, a) \<in> journal_pairs (by_height st'). key = action_journal_key a \<and> v = action_value a)" for key v
  proof -
    have old: "(\<forall>x \<in> set (numbered 0 rs). key \<noteq> journal_key h (fst x))"
      if "v_journal (views S (store st)) key = Some v"
      using that keys by auto
    have "view S (ix_journal (store st')) key = Some v \<longleftrightarrow>
        (\<exists>x \<in> set (numbered 0 rs). key = journal_key h (fst x) \<and> v = record_value h (snd x))
        \<or> v_journal (views S (store st)) key = Some v"
      using run_journal [OF distinct_numbered [OF short], of h 0 "views S (store st)" key v] old
      by (metis run_records_def views views_simps(4))
    also have "v_journal (views S (store st)) key = Some v \<longleftrightarrow>
        (\<exists>(h, a) \<in> journal_pairs (by_height st). key = action_journal_key a \<and> v = action_value a)"
      using sync by (simp add: journal_synced_def)
    also have "(\<exists>x \<in> set (numbered 0 rs). key = journal_key h (fst x) \<and> v = record_value h (snd x))
        \<longleftrightarrow> (\<exists>(h', a) \<in> (\<lambda>x. (h, record_action h x)) ` set (numbered 0 rs).
               key = action_journal_key a \<and> v = action_value a)"
      by simp
    finally show ?thesis unfolding pairs by blast
  qed
  with lists show ?thesis by (simp add: journal_synced_def)
qed

definition script_keys :: "store_view \<Rightarrow> script_hash \<Rightarrow> bytes set" where
  "script_keys v sh = {key. v_history v key \<noteq> None \<and> starts_with (arr32 sh) key}"

definition cached :: "(script_hash \<times> tx_entry list) list \<Rightarrow> script_hash \<Rightarrow> tx_entry list" where
  "cached m sh = (case map_of m sh of None \<Rightarrow> [] | Some es \<Rightarrow> es)"

lemma history_keys_mset:
  assumes S: "sled_ok S"
  shows "mset (history_keys_of S ix sh) = mset_set (script_keys (views S ix) sh)"
    and "finite (script_keys (views S ix) sh)"
proof -
  have "set (history_keys_of S ix sh) = script_keys (views S ix) sh"
    by (auto simp: history_keys_of_def script_keys_def image_iff sled_entries(3) [OF S])
  moreover have "distinct (history_keys_of S ix sh)"
    using entries_distinct [OF S, of "ix_history ix"] by (auto simp: history_keys_of_def distinct_map_filter)
  ultimately show "mset (history_keys_of S ix sh) = mset_set (script_keys (views S ix) sh)"
    and "finite (script_keys (views S ix) sh)"
    by (metis mset_set_set, metis List.finite_set)
qed

definition view_synced :: "store_view \<Rightarrow> (script_hash \<times> tx_entry list) list \<Rightarrow> bool" where
  "view_synced v m \<longleftrightarrow>
     (\<forall>key w. v_history v key = Some w \<longrightarrow> (\<exists>sh h k t s. key = history_key sh h k t s)) \<and>
     (\<forall>sh. finite (script_keys v sh) \<and>
        mset (cached m sh) = image_mset key_entry (mset_set (script_keys v sh)))"

lemma history_synced_view:
  "sled_ok S \<Longrightarrow> history_synced S st \<longleftrightarrow> view_synced (views S (store st)) (history st)"
  using history_keys_mset [of S]
  by (simp add: history_synced_def view_synced_def history_wf_def cached_history_def cached_def)

lemma view_synced_record:
  assumes "view_synced v m" and "ok_record h x v"
  shows "view_synced (do_record h x v) (history_push h (snd x) m)"
proof (cases "\<exists>sh k t i. snd x = RHistory sh k t i")
  case False
  then have "v_history (do_record h x v) = v_history v" "history_push h (snd x) m = m"
    by (cases "(h, x)" rule: record_action.cases;
        auto simp: do_record_def Let_def split: option.splits)+
  with assms(1) show ?thesis by (simp add: view_synced_def script_keys_def)
next
  case True
  then obtain sh k t i where r: "snd x = RHistory sh k t i" by blast
  let ?key = "history_key sh h k t i"
  have fresh: "v_history v ?key = None" using assms(2) r by (simp add: ok_record_def)
  have hist: "v_history (do_record h x v) = (v_history v)(?key \<mapsto> [])"
    using r by (simp add: do_record_def Let_def)
  have keys: "script_keys (do_record h x v) sh'
      = (if sh' = sh then insert ?key (script_keys v sh) else script_keys v sh')" for sh'
    by (auto simp: script_keys_def hist)
  have "?key \<notin> script_keys v sh" using fresh by (simp add: script_keys_def)
  then show ?thesis
    using assms(1) by (auto simp: view_synced_def keys r cached_def hist)
qed

lemma view_synced_run:
  "view_synced v m \<Longrightarrow> ok_run h xs v \<Longrightarrow>
     view_synced (fold (do_record h) xs v) (fold (history_push h) (map snd xs) m)"
  by (induction xs arbitrary: v m) (simp_all add: view_synced_record)

text \<open>The stored list of pending txids follows the cache.\<close>

definition list_synced :: "'t sled \<Rightarrow> 't index_state \<Rightarrow> bool" where
  "list_synced S st \<longleftrightarrow>
     (\<exists>ts. load_pending_txids S (store st) = Inr ts \<and> set ts = fst ` set (pending_txs st))"

lemma list_synced_cong:
  "ix_meta (store st') = ix_meta (store st) \<Longrightarrow> pending_txs st' = pending_txs st \<Longrightarrow>
     list_synced S st' = list_synced S st"
  by (simp add: list_synced_def load_pending_txids_def)

named_theorems list_preserved \<open>operations that keep the stored pending list in step\<close>

lemma list_on_store:
  assumes "\<And>ix. ix_meta (snd (m ix)) = ix_meta ix"
  shows "preserves (list_synced S) (on_store m)"
proof -
  have "list_synced S (snd (on_store m st)) = list_synced S st" for st
    using assms [of "store st"]
    by (intro list_synced_cong) (simp_all add: on_store_def zoomE_def case_prod_beta)
  then show ?thesis by (simp add: preserves_def)
qed

lemma list_tree_ops [list_preserved]:
  assumes S: "sled_ok S"
  shows "preserves (list_synced S) (on_store (store_tx S B tx))"
    and "preserves (list_synced S) (on_store (store_journal_action S h s k payload))"
    and "preserves (list_synced S) (on_store (store_history_entry S sh h t s hk))"
    and "preserves (list_synced S) (on_store (store_output S p sh v h))"
    and "preserves (list_synced S) (on_store (delete_utxo S sh t n))"
  using S by (auto intro!: list_on_store simp: store_ok)

lemma list_set_tip [list_preserved]:
  assumes S: "sled_ok S"
  shows "preserves (list_synced S) (on_store (set_tip_height S h))"
  using S
  by (auto simp: preserves_def on_store_def zoomE_def store_ok list_synced_def load_pending_txids_def
      sled_simps)

lemma list_modify [list_preserved]:
  "preserves (list_synced S) (modifyE (push_history sh e))"
  "preserves (list_synced S) (modifyE (push_action h a))"
  "preserves (list_synced S) (modifyE (\<lambda>st. st\<lparr>tip_height := h\<rparr>))"
  by (rule preserves_modifyE; simp add: list_synced_def push_history_def push_action_def)+

lemma list_forget [list_preserved]:
  assumes S: "sled_ok S"
  shows "preserves (list_synced S) (forget_pending_transaction_internal S B t)"
  unfolding preserves_def
proof (intro allI impI)
  fix st assume "list_synced S st"
  then obtain ts where ts: "load_pending_txids S (store st) = Inr ts" "set ts = fst ` set (pending_txs st)"
    by (auto simp: list_synced_def)
  have "{e. e \<in> fst ` set (pending_txs st) \<and> e \<noteq> t} = fst ` {p \<in> set (pending_txs st). fst p \<noteq> t}"
    by auto
  with delete_pending_txid_ok [OF S ts(1), of t] S ts(2)
  show "list_synced S (snd (forget_pending_transaction_internal S B t st))"
    by (simp add: forget_pending_transaction_internal_def drop_pending_def monad_defs on_store_def
        list_synced_def)
qed

lemma list_apply_block:
  assumes S: "sled_ok S"
  shows "preserves (list_synced S) (apply_block S B blk h)"
proof -
  have "preserves (list_synced S) (apply_input S B h t x s)" for t x s
    unfolding apply_input_def Let_def
    by (cases x; simp; intro conjI impI preserves_intros)
      (auto split: option.split intro!: preserves_intros list_tree_ops [OF S] list_modify)
  moreover have "preserves (list_synced S) (apply_output S B h t x s)" for t x s
    unfolding apply_output_def Let_def
    by (cases x) (auto intro!: preserves_intros list_tree_ops [OF S] list_modify)
  ultimately have "preserves (list_synced S) (apply_tx S B h tx s)" for tx s
    unfolding apply_tx_def Let_def
    by (intro preserves_intros list_tree_ops [OF S] list_modify list_forget [OF S])
  then show ?thesis
    unfolding apply_block_def by (intro preserves_intros list_modify list_set_tip [OF S])
qed

lemma block_records_txids:
  "RTx t \<in> set (block_records B h O' txs) \<Longrightarrow> t \<in> compute_txid B ` set txs"
proof (induction txs arbitrary: O')
  case (Cons tx txs)
  have "RTx t \<notin> set (input_records B t' O' x)" for t' x
    by (cases rule: input_records_cases [of B t' O' x]) auto
  moreover have "RTx t \<notin> set (output_records B t' x)" for t' x
    by (simp add: output_records_def)
  ultimately show ?case
    using Cons.IH [of "add_outputs B h tx O'"] Cons.prems by (auto simp: tx_records_def Let_def)
qed simp

lemma load_tx_view:
  "sled_ok S \<Longrightarrow> view S (ix_txs ix) (arr32 t) = view S (ix_txs ix') (arr32 t) \<Longrightarrow>
     load_tx S B t ix = load_tx S B t ix'"
  by (simp add: load_tx_def sled_simps)

lemma connect_synced:
  assumes S: "sled_ok S" and wf: "outputs_wf (views S (store st))" and sync: "synced S B st"
    and fresh: "fresh_block B h (txdata blk) (views S (store st))" and free: "map_of (by_height st) h = None"
  shows "\<exists>st'. apply_block S B blk h st = (Inr (), st') \<and> synced S B st'"
proof -
  let ?rs = "block_records B h (view S (ix_outputs (store st))) (txdata blk)"
  let ?ids = "compute_txid B ` set (txdata blk)"
  obtain st' where st': "apply_block S B blk h st = (Inr (), st')"
    "views S (store st') = run_records h 0 ?rs (views S (store st))"
    "by_height st' = fold (hm_push h) (map (record_action h) (numbered 0 ?rs)) (by_height st)"
    "history st' = fold (history_push h) ?rs (history st)"
    "tip_height st' = h" "pindex_tip_height S (store st') = h" "tx_settled S B (txdata blk) st st'"
    using apply_block_ok [OF S wf] by blast
  have short: "length ?rs \<le> 2 ^ 32" and keys: "\<forall>s. v_journal (views S (store st)) (journal_key h s) = None"
    using fresh by (simp_all add: fresh_block_def)
  have journal: "journal_synced S st'"
    using journal_synced_connect [OF _ free short keys st'(2,3)] sync by (simp add: synced_def)
  have "ok_run h (numbered 0 ?rs) (views S (store st))"
    using fresh_run_ok [OF fresh_block_run [OF fresh]] by simp
  from view_synced_run [OF _ this] have history: "history_synced S st'"
    using sync by (simp add: synced_def history_synced_view [OF S] st'(2,4) run_records_def)
  have pend: "pending_ok B st'"
    using preservesD [OF preserves_apply_block, of B st S blk h] sync st'(1) by (simp add: synced_def)
  have list: "list_synced S st'"
    using preservesD [OF list_apply_block [OF S], of st B blk h] sync st'(1)
    by (simp add: synced_def pending_synced_def list_synced_def)
  have pend_eq: "pending_txs st' = fold hm_remove (map (compute_txid B) (txdata blk)) (pending_txs st)"
    using st'(7) by (simp add: tx_settled_def fold_map comp_def)
  have txs_view: "view S (ix_txs (store st')) (arr32 t) = view S (ix_txs (store st)) (arr32 t)"
    if "t \<notin> ?ids" for t
  proof -
    have "fold (\<lambda>tx m. m(arr32 (compute_txid B tx) \<mapsto> serialize_tx B tx)) txs m (arr32 t) = m (arr32 t)"
      if "t \<notin> compute_txid B ` set txs" for txs m
      using that by (induction txs arbitrary: m) auto
    with that st'(7) show ?thesis by (simp add: tx_settled_def)
  qed
  have "load_tx S B t (store st') = Inr (Some tx) \<and> (\<forall>h' key. (h', ATx t key) \<notin> journal_pairs (by_height st'))"
    if "(t, tx) \<in> set (pending_txs st')" for t tx
  proof -
    have t: "(t, tx) \<in> set (pending_txs st)" "t \<notin> ?ids"
      using that by (auto simp: pend_eq fold_hm_remove)
    then have old: "load_tx S B t (store st) = Inr (Some tx)"
      "\<forall>h' key. (h', ATx t key) \<notin> journal_pairs (by_height st)"
      using sync by (auto simp: synced_def pending_synced_def)
    have "load_tx S B t (store st') = Inr (Some tx)"
      using load_tx_view [OF S txs_view [OF t(2)]] old(1) by simp
    moreover have "(h', ATx t key) \<notin> journal_pairs (by_height st')" for h' key
    proof
      assume "(h', ATx t key) \<in> journal_pairs (by_height st')"
      then obtain x where x: "x \<in> set (numbered 0 ?rs)" "ATx t key = record_action h x"
        using old(2) by (auto simp: st'(3) pairs_connected [OF free])
      then have "snd x = RTx t" by (cases "(h, x)" rule: record_action.cases) auto
      moreover have "snd x \<in> set ?rs"
        using x(1) numbered_records [of 0 ?rs] by (metis imageI set_map)
      ultimately show False using block_records_txids t(2) by metis
    qed
    ultimately show ?thesis by blast
  qed
  then have "pending_synced S B st'"
    using list by (auto simp: pending_synced_def list_synced_def)
  with journal history pend st'(1,5,6) show ?thesis by (simp add: synced_def)
qed

lemma ref_funded_synced: "synced ref_sled ref_bitcoin ref_funded"
proof -
  have pend: "pending_txs ref_funded = []" "pending_outputs ref_funded = []"
    by (simp_all add: ref_funded_def ref_state_def)
  have "journal_synced ref_sled ref_funded"
    by (simp add: journal_synced_def journal_pairs_def ref_funded_store(3) ref_funded_view(4) del: view_ref_sled)
  moreover have "history_synced ref_sled ref_funded"
    unfolding history_synced_view [OF ref_sled_ok]
    by (simp add: view_synced_def script_keys_def cached_def ref_funded_store(2) ref_funded_view(3)
        del: view_ref_sled)
  moreover have "pending_synced ref_sled ref_bitcoin ref_funded"
    by (simp add: pending_synced_def pend load_pending_txids_def ref_funded_store(1) ref_store_def
        ref_pindex_def store_ok)
  moreover have "pending_ok ref_bitcoin ref_funded"
    by (simp add: pending_ok_def pending_keyed_def pend pending_view_ok_def rebuild_pending_view_def)
  moreover have "pindex_tip_height ref_sled (store ref_funded) = tip_height ref_funded"
    by (simp add: pindex_tip_height_def ref_funded_store ref_store_def ref_pindex_def store_ok)
  ultimately show ?thesis by (simp add: synced_def)
qed

section \<open>Properties\<close>

lemma reopen_restored:
  assumes "sled_ok S" and "bitcoin_ok B" and "synced S B st"
    and "\<forall>(t, tx) \<in> set (pending_txs st). length (tx_output tx) \<le> 2 ^ 32"
    and "\<forall>sh. \<forall>e \<in> set (cached_history st sh). te_height e \<noteq> - 1"
  shows "\<exists>st'. new_index_state S B (Inr (store st)) = Inr st'
    \<and> map_of (by_height st') = map_of (by_height st)
    \<and> map_of (pending_txs st') = map_of (pending_txs st)
    \<and> tip_height st' = tip_height st \<and> store st' = store st
    \<and> (\<forall>sh. get_history S B sh st' = get_history S B sh st)
    \<and> pending_ok B st'"
proof -
  obtain st' where st': "new_index_state S B (Inr (store st)) = Inr st'"
    "map_of (by_height st') = map_of (by_height st)"
    "\<forall>sh. mset (cached_history st' sh) = mset (cached_history st sh)"
    "map_of (pending_txs st') = map_of (pending_txs st)"
    "tip_height st' = tip_height st" "store st' = store st" "pending_ok B st'"
    using reopen_ok [OF assms(1,3)] by blast
  have "pending_ok B st" using assms(3) by (simp add: synced_def)
  then have pend: "mset (pending_history_for_script S B sh st')
      = mset (pending_history_for_script S B sh st)" for sh
    using st'(4,6,7) assms(4) by (intro pending_history_mset) auto
  have "get_history S B sh st' = get_history S B sh st" for sh
    unfolding get_history_order
  proof (rule sort_key_mset_eq)
    show "mset (cached_history st' sh @ pending_history_for_script S B sh st')
        = mset (cached_history st sh @ pending_history_for_script S B sh st)"
      using st'(3) pend by simp
    have "set (cached_history st' sh) = set (cached_history st sh)"
      using st'(3) by (metis mset_eq_setD)
    then have "\<forall>e \<in> set (cached_history st' sh @ pending_history_for_script S B sh st'). te_height e \<noteq> - 1"
      using assms(5) by (auto simp: pending_history_for_script_def)
    then show "inj_on (history_order B)
        (set (cached_history st' sh @ pending_history_for_script S B sh st'))"
      by (rule history_order_inj [OF assms(2)])
  qed
  with st' show ?thesis by blast
qed


text \<open>The index after the block of the examples has been connected.\<close>

definition ref_connected :: "(bytes \<times> bytes) list index_state" where
  "ref_connected = snd (apply_block ref_sled ref_bitcoin ref_block 7 ref_funded)"

lemma ref_connected_records:
  "let rs = block_records ref_bitcoin 7 (view ref_sled (ix_outputs (store ref_funded))) (txdata ref_block)
   in by_height ref_connected = fold (hm_push 7) (map (record_action 7) (numbered 0 rs)) (by_height ref_funded)
    \<and> history ref_connected = fold (history_push 7) rs (history ref_funded)
    \<and> tx_settled ref_sled ref_bitcoin (txdata ref_block) ref_funded ref_connected
    \<and> apply_block ref_sled ref_bitcoin ref_block 7 ref_funded = (Inr (), ref_connected)"
  using apply_block_ok [OF ref_sled_ok ref_funded_wf, of ref_bitcoin ref_block 7]
  by (auto simp: ref_connected_def Let_def)

lemma ref_connected_synced: "synced ref_sled ref_bitcoin ref_connected"
  using connect_synced [OF ref_sled_ok ref_funded_wf ref_funded_synced ref_block_fresh] ref_connected_records
  by (simp add: ref_funded_store Let_def)

lemma ref_connected_small: "\<forall>(t, tx) \<in> set (pending_txs ref_connected). length (tx_output tx) \<le> 2 ^ 32"
  using ref_connected_records
  by (simp add: Let_def tx_settled_def ref_block_def ref_funded_def ref_state_def hm_remove_def)

lemma ref_connected_heights: "\<forall>sh. \<forall>e \<in> set (cached_history ref_connected sh). te_height e \<noteq> - 1"
proof -
  have "\<forall>e \<in> set (cached (fold (history_push 7) rs m) sh). te_height e = 7"
    if "\<And>sh. \<forall>e \<in> set (cached m sh). te_height e = 7" for rs m sh
    using that
  proof (induction rs arbitrary: m)
    case (Cons r rs)
    have "\<forall>e \<in> set (cached (history_push 7 r m) sh). te_height e = 7" for sh
      using Cons.prems by (cases r) (auto simp: cached_def split: option.splits)
    from Cons.IH [OF this] show ?case by simp
  qed simp
  from this [of "[]"] show ?thesis
    using ref_connected_records by (simp add: Let_def cached_history_def cached_def ref_funded_store)
qed


end
