(* ===== verification/NetSpec.thy ===== *)
theory NetSpec
  imports ElectrumClient PendingView
begin

text \<open>
  What holds in every state that the threads of the server can reach, in any order of
  their steps and whatever the store answers.
\<close>

section \<open>Invariants\<close>

definition client_ok :: "client_state \<Rightarrow> bool" where
  "client_ok c \<longleftrightarrow>
     distinct (subscribed_scripthashes c) \<and> distinct (map fst (status_by_scripthash c))
     \<and> fst ` set (status_by_scripthash c) \<subseteq> set (subscribed_scripthashes c)"

text \<open>\<open>k\<close> is the value of the connection counter.\<close>

definition server_ok :: "bitcoin_lib \<Rightarrow> u64 \<Rightarrow> 't server \<Rightarrow> bool" where
  "server_ok B k sv \<longleftrightarrow>
     pending_ok B (sv_state sv) \<and> m_electrum_connections (ixr_metrics (sv_indexer sv)) = k
     \<and> subscribers_ok (sv_changes sv)"

definition session_ok :: "bitcoin_lib \<Rightarrow> u64 \<Rightarrow> 't session \<Rightarrow> bool" where
  "session_ok B k s \<longleftrightarrow> client_ok (fst s) \<and> server_ok B k (snd s)"

definition reading :: "(nat \<times> client) list \<Rightarrow> nat" where
  "reading m = length (filter (\<lambda>x. cl_reading (snd x)) m)"

definition net_ok :: "bitcoin_lib \<Rightarrow> 't net \<Rightarrow> bool" where
  "net_ok B n \<longleftrightarrow>
     server_ok B (of_nat (reading (net_clients n))) (net_server n)
     \<and> subscribers_ok (net_events n)
     \<and> distinct (map fst (net_clients n)) \<and> (\<forall>(i, cl) \<in> set (net_clients n). i < net_next n)
     \<and> (\<forall>(i, cl) \<in> set (net_clients n). client_ok (cl_state cl))"

section \<open>Requests\<close>

named_theorems server_preserved \<open>requests that keep the invariants\<close>

lemma server_ok_metrics [simp]:
  "(\<And>m. m_electrum_connections (f m) = m_electrum_connections m) \<Longrightarrow>
     server_ok B k (upd_metrics f sv) = server_ok B k sv"
  by (simp add: server_ok_def upd_metrics_def sv_state_def)

lemma server_ok_broadcast [simp]: "server_ok B k sv \<Longrightarrow> server_ok B k (broadcast_changes shs sv)"
  by (simp add: server_ok_def broadcast_changes_def sv_state_def)

lemma metrics_other [simp]:
  "m_electrum_connections (inc_transactions_broadcast m) = m_electrum_connections m"
  "m_electrum_connections (inc_blocks_indexed m) = m_electrum_connections m"
  "m_electrum_connections (inc_blocks_rolled_back m) = m_electrum_connections m"
  by (simp_all add: metric_defs)

lemma server_on_state:
  assumes "preserves (pending_ok B) m"
  shows "preserves (server_ok B k) (on_state m)"
  using assms
  by (auto simp: preserves_def on_state_def zoomE_def server_ok_def sv_state_def upd_state_def
      split: prod.splits; metis snd_conv)

lemma server_string_err: "preserves P m \<Longrightarrow> preserves P (string_err f m)"
  by (auto simp: preserves_def string_err_def split: prod.splits; metis snd_conv)

lemma server_broadcast_tx [server_preserved]:
  "preserves (server_ok B k) (handle_transaction_broadcast S E params)"
  if "B = env_bitcoin E"
proof -
  have "preserves (server_ok B k) (modifyE (upd_metrics inc_transactions_broadcast))"
    by (rule preserves_modifyE) simp
  moreover have "preserves (server_ok B k) (modifyE (broadcast_changes shs))" for shs
    by (rule preserves_modifyE) simp
  ultimately show ?thesis
    unfolding handle_transaction_broadcast_def Let_def that
    by (auto split: option.split intro!: preserves_bindE preserves_readE preserves_throwE
        preserves_returnE server_string_err server_on_state preserves_track)
qed

lemma session_on_server:
  "preserves (server_ok B k) m \<Longrightarrow> preserves (session_ok B k) (on_server m)"
  by (auto simp: preserves_def session_ok_def on_server_def split: prod.splits; metis snd_conv)

lemma session_on_client:
  "(\<And>st. preserves client_ok (m st)) \<Longrightarrow> preserves (session_ok B k) (on_client m)"
  by (auto simp: preserves_def session_ok_def on_client_def split: prod.splits; metis snd_conv)

lemma client_subscribe_headers [server_preserved]:
  "preserves client_ok (handle_headers_subscribe E st)"
  unfolding handle_headers_subscribe_def
  by (intro preserves_intros) (simp_all add: client_ok_def)

lemma client_subscribe_script [server_preserved]:
  "preserves client_ok (handle_scripthash_subscribe S B params st)"
proof -
  have "client_ok (snd (handle_scripthash_subscribe S B params st c))" if c: "client_ok c" for c
  proof (cases "parse_scripthash params")
    case (Inl e)
    with c show ?thesis by (simp add: handle_scripthash_subscribe_def monad_defs)
  next
    case (Inr sh)
    let ?c = "if sh \<in> set (subscribed_scripthashes c) then c
              else c\<lparr>subscribed_scripthashes := subscribed_scripthashes c @ [sh]\<rparr>"
    have ok: "client_ok ?c" "sh \<in> set (subscribed_scripthashes ?c)"
      using c by (auto simp: client_ok_def)
    have "client_ok (?c\<lparr>status_by_scripthash := hm_insert sh status (status_by_scripthash ?c)\<rparr>)"
      for status
      using ok by (simp add: client_ok_def del: if_split)
    with ok Inr show ?thesis
      by (cases "script_status S B sh st")
        (simp_all add: handle_scripthash_subscribe_def monad_defs)
  qed
  then show ?thesis by (simp add: preserves_def)
qed

lemma session_run_method:
  "preserves (session_ok (env_bitcoin E) k) (run_method S E m params)"
  unfolding run_method_def Let_def query_def
  by (intro preserves_intros session_on_server session_on_client server_preserved refl)

lemma session_dispatch:
  assumes "session_ok (env_bitcoin E) k s"
  shows "session_ok (env_bitcoin E) k (snd (dispatch_request S E raw s))"
proof (cases "env_parse E raw")
  case (Inl e)
  with assms show ?thesis by (simp add: dispatch_request_def)
next
  case (Inr req)
  obtain r s' where run: "run_method S E (request_method req) (field_or_null ''params'' req) s = (r, s')"
    by (cases "run_method S E (request_method req) (field_or_null ''params'' req) s")
  have "session_ok (env_bitcoin E) k s'"
    using preservesD [OF session_run_method assms, of S "request_method req"
        "field_or_null ''params'' req"] run by simp
  with Inr run show ?thesis by (cases r) (simp_all add: dispatch_request_def)
qed

lemma session_line:
  assumes "session_ok (env_bitcoin E) k s"
  shows "session_ok (env_bitcoin E) k (fst (snd (handle_line S E line (s, cn))))"
proof (cases "line = []")
  case True
  with assms show ?thesis by (simp add: handle_line_def)
next
  case False
  have "session_ok (env_bitcoin E) k (fst s, upd_metrics inc_electrum_requests (snd s))"
    using assms by (simp add: session_ok_def)
  from session_dispatch [OF this, of S line] False show ?thesis
    by (cases "dispatch_request S E line (fst s, upd_metrics inc_electrum_requests (snd s))")
      (simp add: handle_line_def split: prod.split)
qed

section \<open>Notifications\<close>

lemma client_refresh:
  assumes "client_ok (fst x)" and "sh \<in> set (subscribed_scripthashes (fst x))"
  shows "client_ok (fst (refresh_status S B st sh x))
    \<and> subscribed_scripthashes (fst (refresh_status S B st sh x)) = subscribed_scripthashes (fst x)"
proof -
  obtain c changed where x: "x = (c, changed)" by (cases x)
  have ins: "client_ok (c\<lparr>status_by_scripthash := hm_insert sh status m\<rparr>)"
    if "distinct (map fst m)" "fst ` set m \<subseteq> set (subscribed_scripthashes c)" for status m
    using assms that by (simp add: client_ok_def x)
  have m: "distinct (map fst (status_by_scripthash c))"
    "fst ` set (status_by_scripthash c) \<subseteq> set (subscribed_scripthashes c)"
    using assms(1) by (simp_all add: client_ok_def x)
  note known = ins [OF m]
  have "distinct (map fst (hm_insert sh None (status_by_scripthash c)))"
    "fst ` set (hm_insert sh None (status_by_scripthash c)) \<subseteq> set (subscribed_scripthashes c)"
    using known [of None] by (simp_all add: client_ok_def)
  note twice = ins [OF this]
  show ?thesis
    using assms known twice
    by (auto simp: refresh_status_def x Let_def split: sum.splits option.splits)
qed

lemma client_refreshes:
  assumes "client_ok c"
  shows "client_ok (fst (refresh_statuses S B P st c))"
proof -
  have "client_ok (fst (fold (refresh_status S B st) shs x))"
    if "client_ok (fst x)" "set shs \<subseteq> set (subscribed_scripthashes (fst x))" for shs x
    using that
  proof (induction shs arbitrary: x)
    case (Cons sh shs)
    then show ?case using client_refresh [of x sh S B st] by simp
  qed simp
  from this [of "(c, [])"] assms show ?thesis by (simp add: refresh_statuses_def)
qed

lemma client_ok_headers [simp]:
  "client_ok (c\<lparr>header_subscription := x\<rparr>) = client_ok c"
  "client_ok (c\<lparr>headers_subscribed := b\<rparr>) = client_ok c"
  by (simp_all add: client_ok_def)

lemma client_notify_block:
  "client_ok c \<Longrightarrow> client_ok (fst (snd (notify_block S E st ev (c, cn))))"
  using client_refreshes [of c S "env_bitcoin E" "\<lambda>_. True" st]
  by (auto simp: notify_block_def update_header_def Let_def
      split: block_event.split prod.splits sum.splits if_splits)

lemma client_notify_pending:
  "client_ok c \<Longrightarrow> client_ok (fst (snd (notify_pending S E st affected (c, cn))))"
  using client_refreshes [of c S "env_bitcoin E" "\<lambda>sh. sh \<in> set affected" st]
  by (auto simp: notify_pending_def Let_def split: prod.splits)

section \<open>Steps\<close>

lemma upd_client_ids [simp]:
  "map fst (map (\<lambda>(j, d). (j, if j = i then cl else d)) m) = map fst m"
  by (simp add: comp_def case_prod_beta)

lemma reading_upd:
  assumes "distinct (map fst m)" and "map_of m i = Some cl"
  shows "reading (map (\<lambda>(j, d). (j, if j = i then cl' else d)) m)
     + (if cl_reading cl then 1 else 0) = reading m + (if cl_reading cl' then 1 else 0)"
  using assms
proof (induction m)
  case (Cons x m)
  obtain j d where x: "x = (j, d)" by (cases x)
  show ?case
  proof (cases "j = i")
    case True
    have same: "map (\<lambda>(j, d). (j, if j = i then cl' else d)) m = m"
      using Cons.prems(1) True x by (intro map_idI) (auto simp: image_iff)
    have "d = cl" using Cons.prems(2) True x by simp
    then show ?thesis using True by (simp add: x reading_def same)
  next
    case False
    then show ?thesis using Cons x by (auto simp: reading_def)
  qed
qed simp

lemma net_upd_client:
  assumes ok: "net_ok B n" and cl: "map_of (net_clients n) i = Some cl"
    and "client_ok (cl_state cl')" and "cl_reading cl' = cl_reading cl"
  shows "net_ok B (upd_client i cl' n)"
proof -
  have "distinct (map fst (net_clients n))" using ok by (simp add: net_ok_def)
  from reading_upd [OF this cl, of cl'] assms(4)
  have count: "reading (net_clients (upd_client i cl' n)) = reading (net_clients n)"
    by (simp add: upd_client_def split: if_splits)
  show ?thesis
    using ok assms(3) unfolding net_ok_def count
    by (auto simp: upd_client_def comp_def case_prod_beta)
qed

lemma net_client_ok:
  "net_ok B n \<Longrightarrow> map_of (net_clients n) i = Some cl \<Longrightarrow> client_ok (cl_state cl)"
  by (force simp: net_ok_def dest: map_of_SomeD)

lemma net_with_server:
  "net_ok B n \<Longrightarrow> server_ok B (of_nat (reading (net_clients n))) sv \<Longrightarrow> net_ok B (n\<lparr>net_server := sv\<rparr>)"
  by (simp add: net_ok_def)

lemma net_with_events:
  "net_ok B n \<Longrightarrow> subscribers_ok evs \<Longrightarrow> net_ok B (n\<lparr>net_events := evs\<rparr>)"
  by (simp add: net_ok_def)

lemma net_accept_ok:
  assumes "net_ok B n"
  shows "net_ok B (accept_client n)"
proof -
  obtain ev events pe changes where subs: "subscribe (net_events n) = (ev, events)"
    "subscribe (sv_changes (net_server n)) = (pe, changes)" by (metis prod.exhaust)
  have "client_ok new_client_state" by (simp add: client_ok_def new_client_state_def)
  moreover have "subscribers_ok events" "subscribers_ok changes"
    using assms subs subscribers_ok_subscribe [of "net_events n"]
      subscribers_ok_subscribe [of "sv_changes (net_server n)"]
    by (simp_all add: net_ok_def server_ok_def)
  moreover have "net_next n \<notin> fst ` set (net_clients n)"
    using assms by (force simp: net_ok_def)
  ultimately show ?thesis
    using assms
    by (auto simp: subs net_ok_def accept_client_def reading_def server_ok_def upd_metrics_def sv_state_def
        inc_electrum_connections_def less_Suc_eq)
qed

lemma net_close_ok:
  assumes ok: "net_ok B n"
  shows "net_ok B (close_client i n)"
proof (cases "map_of (net_clients n) i")
  case None
  with ok show ?thesis by (simp add: close_client_def)
next
  case (Some cl)
  show ?thesis
  proof (cases "cl_reading cl")
    case False
    with ok Some show ?thesis by (simp add: close_client_def)
  next
    case True
    let ?n = "upd_client i (cl\<lparr>cl_reading := False\<rparr>) n"
    have "distinct (map fst (net_clients n))" using ok by (simp add: net_ok_def)
    from reading_upd [OF this Some, of "cl\<lparr>cl_reading := False\<rparr>"] True
    have count: "reading (net_clients n) = Suc (reading (net_clients ?n))"
      by (simp add: upd_client_def)
    have "server_ok B (of_nat (reading (net_clients ?n)))
        (upd_metrics dec_electrum_connections (net_server n))"
      using ok by (simp add: net_ok_def count server_ok_def upd_metrics_def sv_state_def
          dec_electrum_connections_def)
    moreover have "client_ok (cl_state cl)" using net_client_ok [OF ok Some] .
    ultimately show ?thesis
      using ok Some True
      by (auto simp: net_ok_def close_client_def upd_client_def comp_def case_prod_beta)
  qed
qed

lemma net_line_ok:
  assumes ok: "net_ok (env_bitcoin E) n"
  shows "net_ok (env_bitcoin E) (client_line S E i line n)"
proof (cases "map_of (net_clients n) i")
  case None
  with ok show ?thesis by (simp add: client_line_def)
next
  case (Some cl)
  show ?thesis
  proof (cases "cl_reading cl")
    case False
    with ok Some show ?thesis by (simp add: client_line_def)
  next
    case True
    obtain r c sv cn where run: "handle_line S E line ((cl_state cl, net_server n), cl_conn cl)
        = (r, (c, sv), cn)" by (metis prod.exhaust)
    have "session_ok (env_bitcoin E) (of_nat (reading (net_clients n))) (cl_state cl, net_server n)"
      using ok net_client_ok [OF ok Some] by (simp add: session_ok_def net_ok_def)
    from session_line [OF this, of S line "cl_conn cl"] run
    have "session_ok (env_bitcoin E) (of_nat (reading (net_clients n))) (c, sv)" by simp
    then have parts: "client_ok c"
      "server_ok (env_bitcoin E) (of_nat (reading (net_clients n))) sv"
      by (simp_all add: session_ok_def)
    have "net_ok (env_bitcoin E) (upd_client i (cl\<lparr>cl_state := c, cl_conn := cn\<rparr>) (n\<lparr>net_server := sv\<rparr>))"
      using net_with_server [OF ok parts(2)] Some parts(1) by (intro net_upd_client) auto
    moreover have "upd_client i (cl\<lparr>cl_state := c, cl_conn := cn\<rparr>) (n\<lparr>net_server := sv\<rparr>)
        = (upd_client i (cl\<lparr>cl_state := c, cl_conn := cn\<rparr>) n)\<lparr>net_server := sv\<rparr>"
      by (simp add: upd_client_def)
    ultimately show ?thesis
      using Some True run net_close_ok
      by (auto simp: client_line_def Let_def split: sum.split)
  qed
qed

lemma subscribers_ok_recv: "subscribers_ok subs \<Longrightarrow> subscribers_ok (snd (recv i subs))"
  by (simp add: recv_def split: option.split list.split)

lemma net_stop_ok:
  "net_ok B n \<Longrightarrow> net_ok B (stop_notify cl n)"
  by (auto simp: net_ok_def stop_notify_def server_ok_def sv_state_def drop_receiver_def)

lemma net_block_ok:
  assumes ok: "net_ok (env_bitcoin E) n"
  shows "net_ok (env_bitcoin E) (client_block_event S E i n)"
proof (cases "\<exists>cl ev. map_of (net_clients n) i = Some cl \<and> cl_notify cl
    \<and> fst (recv (cl_events cl) (net_events n)) = Some ev")
  case False
  with ok show ?thesis
    by (auto simp: client_block_event_def split: option.splits prod.splits)
next
  case True
  then obtain cl ev where cl: "map_of (net_clients n) i = Some cl" "cl_notify cl"
    and ev: "fst (recv (cl_events cl) (net_events n)) = Some ev" by blast
  obtain events where recv: "recv (cl_events cl) (net_events n) = (Some ev, events)"
    using ev by (cases "recv (cl_events cl) (net_events n)") simp
  obtain go c cn where notify: "notify_block S E (sv_state (net_server n)) ev (cl_state cl, cl_conn cl)
      = (go, c, cn)" by (metis prod.exhaust)
  have "client_ok c"
    using client_notify_block [OF net_client_ok [OF ok cl(1)], of S E _ ev "cl_conn cl"] notify
    by (metis fst_conv snd_conv)
  then have "net_ok (env_bitcoin E) (upd_client i (cl\<lparr>cl_state := c, cl_conn := cn, cl_notify := go\<rparr>) n)"
    using ok cl(1) by (intro net_upd_client) auto
  moreover have "subscribers_ok events"
    using subscribers_ok_recv [of "net_events n" "cl_events cl"] ok recv by (simp add: net_ok_def)
  ultimately show ?thesis
    using cl recv notify by (cases go) (auto simp: client_block_event_def Let_def intro!: net_with_events net_stop_ok)
qed

lemma net_pending_ok:
  assumes ok: "net_ok (env_bitcoin E) n"
  shows "net_ok (env_bitcoin E) (client_pending_event S E i n)"
proof (cases "\<exists>cl shs. map_of (net_clients n) i = Some cl \<and> cl_notify cl
    \<and> fst (recv (cl_pending cl) (sv_changes (net_server n))) = Some shs")
  case False
  with ok show ?thesis
    by (auto simp: client_pending_event_def split: option.splits prod.splits)
next
  case True
  then obtain cl shs where cl: "map_of (net_clients n) i = Some cl" "cl_notify cl"
    and shs: "fst (recv (cl_pending cl) (sv_changes (net_server n))) = Some shs" by blast
  obtain changes where recv: "recv (cl_pending cl) (sv_changes (net_server n)) = (Some shs, changes)"
    using shs by (cases "recv (cl_pending cl) (sv_changes (net_server n))") simp
  obtain go c cn where notify: "notify_pending S E (sv_state (net_server n)) shs (cl_state cl, cl_conn cl)
      = (go, c, cn)" by (metis prod.exhaust)
  have "client_ok c"
    using client_notify_pending [OF net_client_ok [OF ok cl(1)], of S E _ shs "cl_conn cl"] notify
    by (metis fst_conv snd_conv)
  then have upd: "net_ok (env_bitcoin E) (upd_client i (cl\<lparr>cl_state := c, cl_conn := cn, cl_notify := go\<rparr>) n)"
    using ok cl(1) by (intro net_upd_client) auto
  have "subscribers_ok changes"
    using subscribers_ok_recv [of "sv_changes (net_server n)" "cl_pending cl"] ok recv
    by (simp add: net_ok_def server_ok_def)
  then have "net_ok (env_bitcoin E)
      ((upd_client i (cl\<lparr>cl_state := c, cl_conn := cn, cl_notify := go\<rparr>) n)
         \<lparr>net_server := (net_server n)\<lparr>sv_changes := changes\<rparr>\<rparr>)"
    using upd by (auto simp: net_ok_def server_ok_def sv_state_def upd_client_def)
  then show ?thesis
    using cl recv notify by (simp add: client_pending_event_def)
qed

lemma server_status_change:
  assumes "server_ok B k sv"
  shows "server_ok B k (snd (apply_tx_status_change S B t status sv))"
proof -
  have "preserves (server_ok B k) (apply_tx_status_kind S B u kind)" for u kind
    unfolding apply_tx_status_kind_def
    by (cases kind)
      (auto intro!: preserves_intros server_on_state pending_preserved split: option.split)
  then show ?thesis
    using assms
    by (auto simp: apply_tx_status_change_def preserves_def split: sum.split prod.splits) (metis snd_conv)
qed

lemma server_index:
  assumes "server_ok B k sv"
  shows "server_ok B k (sv\<lparr>sv_indexer := handle_event S B ev (sv_indexer sv)\<rparr>)"
proof -
  have "m_electrum_connections (ixr_metrics (handle_event S B ev ind))
      = m_electrum_connections (ixr_metrics ind)" for ind
    by (simp add: handle_event_def split: block_event.split prod.split sum.split)
  then show ?thesis
    using assms pending_ok_event [of B "sv_indexer sv" S ev]
    by (simp add: server_ok_def sv_state_def)
qed

lemma thread_step_ok:
  assumes "thread_step S E n n'" and "net_ok (env_bitcoin E) n"
  shows "net_ok (env_bitcoin E) n'"
  using assms
proof (cases rule: thread_step.cases)
  case (thread_status t status)
  then show ?thesis using assms(2) by (simp add: net_ok_def server_status_change)
next
  case (thread_fee rate)
  then show ?thesis
    using assms(2) by (simp add: net_ok_def server_ok_def update_sat_per_vb_def sv_state_def)
next
  case (thread_gone i cl)
  then show ?thesis
    using assms(2) net_client_ok [OF assms(2)] by (auto intro!: net_upd_client)
qed (use assms(2) net_accept_ok net_close_ok net_line_ok net_block_ok net_pending_ok in blast)+

lemma net_step_ok:
  assumes "net_step S E n n'" and "net_ok (env_bitcoin E) n"
  shows "net_ok (env_bitcoin E) n'"
  using assms
proof (cases rule: net_step.cases)
  case net_thread
  then show ?thesis using assms(2) by (rule thread_step_ok)
next
  case (net_source ev)
  then show ?thesis using assms(2) by (simp add: net_ok_def)
next
  case (net_index ev)
  then show ?thesis using assms(2) by (simp add: net_ok_def server_index)
qed

interpretation net: machine "net_step S E" "net_ok (env_bitcoin E)" for S E
  by unfold_locales (rule net_step_ok)

lemma net_ok_new:
  assumes "pending_ok B (state ind)" and "m_electrum_connections (ixr_metrics ind) = 0"
  shows "net_ok B (new_net ind)"
  using assms
  by (simp add: net_ok_def new_net_def server_ok_def new_server_def sv_state_def reading_def)

section \<open>Properties\<close>

text \<open>C7: In every state that the server can reach, the view of pending outputs is the one
  computed from the pending transactions, the connection counter is the number of clients
  still served, and every client keeps a status only for scripts it subscribed to, once
  each; this holds for every interleaving and every behaviour of the store.\<close>

theorem reachable_server_ok:
  assumes "(net_step S E)\<^sup>*\<^sup>* (new_net ind) n"
    and "pending_ok (env_bitcoin E) (state ind)" and "m_electrum_connections (ixr_metrics ind) = 0"
  shows "pending_ok (env_bitcoin E) (sv_state (net_server n))
    \<and> m_electrum_connections (ixr_metrics (sv_indexer (net_server n))) = of_nat (reading (net_clients n))
    \<and> (\<forall>(i, cl) \<in> set (net_clients n). client_ok (cl_state cl))"
  using net.reach_inv [OF assms(1) net_ok_new [OF assms(2,3)]]
  by (simp add: net_ok_def server_ok_def)

definition ref_env :: server_env where
  "ref_env = \<lparr>env_bitcoin = ref_bitcoin, env_header = (\<lambda>h. Inr (if h \<le> 7 then Some (ref_header h) else None)),
              env_broadcast = Some (\<lambda>_. Inr ()), env_parse = (\<lambda>s. Inl ''no input''),
              env_print = (\<lambda>_. [])\<rparr>"

theorem reachable_server_ok_witness:
  "m_electrum_connections (ixr_metrics (sv_indexer (net_server
     (close_client 0 (accept_client (accept_client
        (new_net \<lparr>state = ref_chain, ixr_metrics = new_metrics\<rparr>)))))))
   = of_nat (reading (net_clients (close_client 0 (accept_client (accept_client
        (new_net \<lparr>state = ref_chain, ixr_metrics = new_metrics\<rparr>))))))"
proof -
  let ?n = "new_net \<lparr>state = ref_chain, ixr_metrics = new_metrics\<rparr>"
  have "(net_step ref_sled ref_env)\<^sup>*\<^sup>* ?n (close_client 0 (accept_client (accept_client ?n)))"
    by (rule converse_rtranclp_into_rtranclp, rule net_accept,
        rule converse_rtranclp_into_rtranclp, rule net_accept,
        rule r_into_rtranclp, rule net_close)
  moreover have "pending_ok ref_bitcoin ref_chain"
    by (simp add: ref_chain_def pending_keyed_def ref_state_def)
  ultimately show ?thesis
    using reachable_server_ok [of ref_sled ref_env "\<lparr>state = ref_chain, ixr_metrics = new_metrics\<rparr>"]
    by (simp add: ref_env_def new_metrics_def)
qed

end
