(* ===== verification/AppSpec.thy ===== *)
theory AppSpec
  imports App Restart NetSpec
begin

text \<open>
  Startup: the repair of the client's cache, the loop that starts the client, the server
  that \<open>run_bridge\<close> brings up over an existing index, the wait for shutdown, and the subsidy
  schedule.
\<close>

section \<open>The cache of the client\<close>

text \<open>
  The two files of a network agree when neither exists, or both hold whole records, 80 bytes
  for a header and 64 for a filter header, and equally many of them.
\<close>

definition cache_consistent :: "string \<Rightarrow> string \<Rightarrow> files \<Rightarrow> bool" where
  "cache_consistent cache_dir nk_name fs \<longleftrightarrow>
     (let headers = map_of fs (path_push (path_push cache_dir nk_name) ''headers.db'');
          filters = map_of fs (path_push (path_push cache_dir nk_name) ''filters.db'')
      in (headers = None \<and> filters = None)
       \<or> (\<exists>hl fl. headers = Some hl \<and> filters = Some fl \<and> 0 < hl \<and> 0 < fl
            \<and> hl mod 80 = 0 \<and> fl mod 64 = 0 \<and> hl div 80 = fl div 64))"

lemma clear_cache_iff:
  "fst (clear_corrupt_nakamoto_cache can cache_dir legacy nk_name fs)
     \<longleftrightarrow> \<not> cache_consistent cache_dir nk_name fs"
  by (auto simp: clear_corrupt_nakamoto_cache_def cache_consistent_def metadata_len_def
      unwrap_or_0_def Let_def split: option.splits)

lemma clear_cache_files:
  "snd (clear_corrupt_nakamoto_cache can cache_dir legacy nk_name fs)
     = (if fst (clear_corrupt_nakamoto_cache can cache_dir legacy nk_name fs)
        then remove_dir_all can legacy (remove_dir_all can cache_dir fs) else fs)"
  unfolding clear_corrupt_nakamoto_cache_def Let_def by simp

lemma clear_cache_split:
  "clear_corrupt_nakamoto_cache can cache_dir legacy nk_name fs
     = (\<not> cache_consistent cache_dir nk_name fs,
        if cache_consistent cache_dir nk_name fs then fs
        else remove_dir_all can legacy (remove_dir_all can cache_dir fs))"
  by (simp add: prod_eq_iff clear_cache_iff clear_cache_files)

lemma remove_dir_below:
  "starts_with (dir @ ''/'') p \<Longrightarrow> can dir \<Longrightarrow> map_of (remove_dir_all can dir fs) p = None"
  by (auto simp: remove_dir_all_def map_of_eq_None_iff)

lemma remove_dir_keeps_absent:
  "map_of fs p = None \<Longrightarrow> map_of (remove_dir_all can dir fs) p = None"
  by (auto simp: remove_dir_all_def map_of_eq_None_iff)

lemma path_push_below:
  assumes "dir \<noteq> []" and "last dir \<noteq> CHR ''/''" and "nm \<noteq> []" and "hd nm \<noteq> CHR ''/''"
    and "f \<noteq> []" and "hd f \<noteq> CHR ''/''"
  shows "starts_with (dir @ ''/'') (path_push (path_push dir nm) f)"
  using assms by (simp add: path_push_relative starts_with_def)

lemma removed_consistent:
  assumes "cache_dir = path_push root ''.nakamoto''" and "nk_name \<noteq> []" and "hd nk_name \<noteq> CHR ''/''"
    and "can cache_dir"
  shows "cache_consistent cache_dir nk_name (remove_dir_all can legacy (remove_dir_all can cache_dir fs))"
proof -
  have "cache_dir \<noteq> []" "last cache_dir \<noteq> CHR ''/''"
    using assms(1) by (simp_all add: path_push_relative)
  then have "starts_with (cache_dir @ ''/'') (path_push (path_push cache_dir nk_name) f)"
    if "f \<noteq> []" "hd f \<noteq> CHR ''/''" for f
    by (rule path_push_below [OF _ _ assms(2,3) that])
  from this [of "''headers.db''"] this [of "''filters.db''"] assms(4) show ?thesis
    by (simp add: cache_consistent_def Let_def remove_dir_keeps_absent remove_dir_below)
qed

text \<open>C29: The repair reports a cache exactly when its two files disagree, and leaves a
  consistent one alone. A reported cache is gone afterwards when its directory may be
  removed, so that the next look finds nothing to repair; when removal is denied nothing
  changes and the next look reports it again.\<close>

theorem cache_repair:
  assumes "cache_dir = path_push root ''.nakamoto''" and "nk_name \<noteq> []" and "hd nk_name \<noteq> CHR ''/''"
  shows "fst (clear_corrupt_nakamoto_cache can cache_dir legacy nk_name fs)
        = (\<not> cache_consistent cache_dir nk_name fs)
    \<and> (cache_consistent cache_dir nk_name fs \<longrightarrow>
         clear_corrupt_nakamoto_cache can cache_dir legacy nk_name fs = (False, fs))
    \<and> (can cache_dir \<longrightarrow>
         cache_consistent cache_dir nk_name (snd (clear_corrupt_nakamoto_cache can cache_dir legacy nk_name fs)))
    \<and> (\<not> can cache_dir \<and> \<not> can legacy \<longrightarrow>
         snd (clear_corrupt_nakamoto_cache can cache_dir legacy nk_name fs) = fs)"
  using removed_consistent [OF assms] by (auto simp: clear_cache_split remove_dir_all_def)

definition ref_files :: files where
  "ref_files = [(''/d/nakamoto/.nakamoto/bitcoin/headers.db'', 160),
                (''/d/nakamoto/.nakamoto/bitcoin/filters.db'', 64), (''/d/index/db'', 9)]"

lemma ref_files_corrupt:
  "\<not> cache_consistent ''/d/nakamoto/.nakamoto'' ''bitcoin'' ref_files"
  by (simp add: cache_consistent_def ref_files_def path_push_def)

theorem cache_repair_witness:
  "fst (clear_corrupt_nakamoto_cache (\<lambda>_. True) ''/d/nakamoto/.nakamoto'' ''/d/.nakamoto'' ''bitcoin'' ref_files)
   \<and> \<not> fst (clear_corrupt_nakamoto_cache (\<lambda>_. True) ''/d/nakamoto/.nakamoto'' ''/d/.nakamoto'' ''bitcoin''
       (snd (clear_corrupt_nakamoto_cache (\<lambda>_. True) ''/d/nakamoto/.nakamoto'' ''/d/.nakamoto'' ''bitcoin'' ref_files)))"
proof -
  have "''/d/nakamoto/.nakamoto'' = path_push ''/d/nakamoto'' ''.nakamoto''" by (simp add: path_push_def)
  from cache_repair [OF this, of "''bitcoin''" "\<lambda>_. True" "''/d/.nakamoto''" ref_files]
  show ?thesis using ref_files_corrupt by (simp add: clear_cache_iff)
qed

section \<open>Starting the client\<close>

definition genesis_conflict :: "startup_round \<Rightarrow> bool" where
  "genesis_conflict r \<longleftrightarrow>
     (case (sr_client r, sr_wait r) of
        (Inr _, StartupError err) \<Rightarrow> contains genesis_mismatch err
      | _ \<Rightarrow> False)"

lemma startup_consistent:
  assumes "cache_consistent cache_dir nk_name fs"
  shows "startup_loop can cache_dir legacy nk_name (r # rs) fs =
     (if sr_shutdown r then (ShutDown, fs)
      else if genesis_conflict r
      then startup_loop can cache_dir legacy nk_name rs
             (remove_dir_all can legacy (remove_dir_all can cache_dir fs))
      else (case (sr_client r, sr_wait r) of
              (Inl e, _) \<Rightarrow> (Failed e, fs)
            | (_, StartupError err) \<Rightarrow> (Failed err, fs)
            | (_, StartupTimeout) \<Rightarrow> (if sr_shutdown_late r then ShutDown else Running, fs)
            | (_, StartupDisconnected) \<Rightarrow> (Failed ''nakamoto client startup channel disconnected'', fs)))"
  using assms
  by (simp add: clear_cache_split genesis_conflict_def split: sum.splits client_wait.splits)

lemma startup_corrupt:
  assumes "\<not> cache_consistent cache_dir nk_name fs"
  shows "startup_loop can cache_dir legacy nk_name (r # rs) fs =
     (if sr_shutdown r then (ShutDown, fs)
      else startup_loop can cache_dir legacy nk_name rs
             (remove_dir_all can legacy (remove_dir_all can cache_dir fs)))"
  using assms by (simp add: clear_cache_split)

lemma startup_ends_consistent:
  assumes removal: "\<And>fs. cache_consistent cache_dir nk_name
      (remove_dir_all can legacy (remove_dir_all can cache_dir fs))"
    and "cache_consistent cache_dir nk_name fs" and "\<exists>r \<in> set rs. sr_shutdown r \<or> \<not> genesis_conflict r"
  shows "fst (startup_loop can cache_dir legacy nk_name rs fs) \<noteq> StillStarting"
  using assms(2,3)
proof (induction rs arbitrary: fs)
  case (Cons r rs)
  then show ?case
    using Cons.IH [OF removal]
    by (auto simp: startup_consistent simp del: startup_loop.simps(2)
        split: sum.splits client_wait.splits)
qed simp

text \<open>C23: With a cache that may be removed, startup is over at the first round after the
  initial one that is not another conflict of genesis blocks, whatever the files were. With
  a corrupt cache that may not be removed it never is: every round finds the same files and
  only a request to shut down ends the loop.\<close>

theorem startup_ends:
  assumes "cache_dir = path_push root ''.nakamoto''" and "nk_name \<noteq> []" and "hd nk_name \<noteq> CHR ''/''"
  shows "(can cache_dir \<and> (\<exists>r \<in> set rs. sr_shutdown r \<or> \<not> genesis_conflict r) \<longrightarrow>
            fst (startup_loop can cache_dir legacy nk_name (r0 # rs) fs) \<noteq> StillStarting)
    \<and> (\<not> can cache_dir \<and> \<not> can legacy \<and> \<not> cache_consistent cache_dir nk_name fs \<longrightarrow>
         startup_loop can cache_dir legacy nk_name rs fs
           = (if \<exists>r \<in> set rs. sr_shutdown r then ShutDown else StillStarting, fs))"
proof (intro conjI impI)
  assume can: "can cache_dir \<and> (\<exists>r \<in> set rs. sr_shutdown r \<or> \<not> genesis_conflict r)"
  then have removal: "cache_consistent cache_dir nk_name
      (remove_dir_all can legacy (remove_dir_all can cache_dir fs))" for fs
    by (intro removed_consistent [OF assms]) simp
  have "fst (startup_loop can cache_dir legacy nk_name rs
      (remove_dir_all can legacy (remove_dir_all can cache_dir fs))) \<noteq> StillStarting"
    using startup_ends_consistent [OF removal removal] can by blast
  then show "fst (startup_loop can cache_dir legacy nk_name (r0 # rs) fs) \<noteq> StillStarting"
    by (cases "cache_consistent cache_dir nk_name fs")
      (auto simp: startup_consistent startup_corrupt simp del: startup_loop.simps(2)
        split: sum.splits client_wait.splits)
next
  assume denied: "\<not> can cache_dir \<and> \<not> can legacy \<and> \<not> cache_consistent cache_dir nk_name fs"
  then have "remove_dir_all can legacy (remove_dir_all can cache_dir fs) = fs"
    by (simp add: remove_dir_all_def)
  with denied show "startup_loop can cache_dir legacy nk_name rs fs
      = (if \<exists>r \<in> set rs. sr_shutdown r then ShutDown else StillStarting, fs)"
    by (induction rs) (simp_all add: startup_corrupt del: startup_loop.simps(2))
qed

definition quiet_round :: startup_round where
  "quiet_round = \<lparr>sr_shutdown = False, sr_client = Inr (), sr_wait = StartupTimeout,
                  sr_shutdown_late = False\<rparr>"

theorem startup_ends_witness:
  "fst (startup_loop (\<lambda>_. True) ''/d/nakamoto/.nakamoto'' ''/d/.nakamoto'' ''bitcoin''
      [quiet_round, quiet_round] ref_files) \<noteq> StillStarting
   \<and> startup_loop (\<lambda>_. False) ''/d/nakamoto/.nakamoto'' ''/d/.nakamoto'' ''bitcoin''
      [quiet_round, quiet_round, quiet_round] ref_files = (StillStarting, ref_files)"
proof -
  have dir: "''/d/nakamoto/.nakamoto'' = path_push ''/d/nakamoto'' ''.nakamoto''"
    by (simp add: path_push_def)
  have quiet: "\<not> sr_shutdown quiet_round" "\<not> genesis_conflict quiet_round"
    by (simp_all add: quiet_round_def genesis_conflict_def)
  show ?thesis
    using startup_ends [OF dir, of "''bitcoin''" "\<lambda>_. True" "[quiet_round]" "''/d/.nakamoto''" quiet_round ref_files]
      startup_ends [OF dir, of "''bitcoin''" "\<lambda>_. False" "[quiet_round, quiet_round, quiet_round]"
        "''/d/.nakamoto''" quiet_round ref_files]
      quiet ref_files_corrupt
    by (simp del: startup_loop.simps)
qed

section \<open>Serving an existing index\<close>


definition ref_bridge :: bridge_env where
  "ref_bridge = \<lparr>be_can_remove = (\<lambda>_. True), be_network_name = network_dir,
     be_rounds = [quiet_round], be_files = [], be_peers = [(False, PeersTimeout, False), (False, PeersOk, False)],
     be_shutdown = False, be_bind = (\<lambda>_. Inr ())\<rparr>"


section \<open>Shutdown\<close>

lemma wait_for_shutdown_Some:
  "wait_for_shutdown flag i = Some n \<Longrightarrow> i \<le> n \<and> flag n \<and> (\<forall>k. i \<le> k \<and> k < n \<longrightarrow> \<not> flag k)"
proof (induction rule: wait_for_shutdown.raw_induct [rotated 1, consumes 1, case_names step])
  case (step run flag i n)
  show ?case
  proof (cases "flag i")
    case False
    then have "Suc i \<le> n \<and> flag n \<and> (\<forall>k. Suc i \<le> k \<and> k < n \<longrightarrow> \<not> flag k)"
      using step.IH [of flag "Suc i" n] step.hyps by simp
    with False show ?thesis by (metis Suc_leD Suc_leI le_neq_implies_less)
  qed (use step.hyps in auto)
qed

lemma wait_for_shutdown_first:
  "i \<le> n \<Longrightarrow> flag n \<Longrightarrow> (\<forall>k. i \<le> k \<and> k < n \<longrightarrow> \<not> flag k) \<Longrightarrow> wait_for_shutdown flag i = Some n"
proof (induction i rule: inc_induct)
  case base
  then show ?case by (subst wait_for_shutdown.simps) simp
next
  case (step i)
  then show ?case by (subst wait_for_shutdown.simps) auto
qed

lemma wait_for_shutdown_returns: "(\<exists>n. wait_for_shutdown flag 0 = Some n) \<longleftrightarrow> (\<exists>n. flag n)"
proof
  assume "\<exists>n. flag n"
  then have "flag (LEAST n. flag n)" by (rule LeastI_ex)
  moreover have "\<forall>k. 0 \<le> k \<and> k < (LEAST n. flag n) \<longrightarrow> \<not> flag k"
    using not_less_Least [of _ flag] by blast
  ultimately show "\<exists>n. wait_for_shutdown flag 0 = Some n"
    using wait_for_shutdown_first [OF le0] by blast
next
  assume "\<exists>n. wait_for_shutdown flag 0 = Some n"
  then show "\<exists>n. flag n" using wait_for_shutdown_Some by blast
qed



section \<open>The subsidy\<close>

lemma reward_nat:
  assumes "h < 2 ^ 32"
  shows "unat (block_reward_sats (of_nat h)) = (if h div 210000 < 64 then 5000000000 div 2 ^ (h div 210000) else 0)"
proof -
  have h: "unat (of_nat h :: u32) = h"
    using assms by (simp add: unat_of_nat take_bit_nat_eq_self)
  have d: "unat ((of_nat h :: u32) div 210000) = h div 210000"
    by (simp add: unat_div h)
  then have "64 \<le> (of_nat h :: u32) div 210000 \<longleftrightarrow> 64 \<le> h div 210000"
    by (simp add: word_le_nat_alt)
  then show ?thesis
    by (simp add: block_reward_sats_def Let_def d unat_drop_bit_eq drop_bit_nat_def not_le)
qed

lemma epoch_sum:
  "(\<Sum>h < 210000 * k. f (h div 210000)) = (\<Sum>i < k. 210000 * f i)" for f :: "nat \<Rightarrow> nat"
proof (induction k)
  case (Suc k)
  have split: "{..<210000 * Suc k} = {..<210000 * k} \<union> {210000 * k..<210000 * k + 210000}" by auto
  have "(\<Sum>h = 210000 * k..<210000 * k + 210000. f (h div 210000))
      = (\<Sum>h = 210000 * k..<210000 * k + 210000. f k)"
    by (rule sum.cong) (auto simp: div_nat_eqI)
  moreover have "(\<Sum>h < 210000 * Suc k. f (h div 210000))
      = (\<Sum>h < 210000 * k. f (h div 210000)) + (\<Sum>h = 210000 * k..<210000 * k + 210000. f (h div 210000))"
    unfolding split by (rule sum.union_disjoint) auto
  ultimately show ?case using Suc.IH by simp
qed simp

text \<open>C39: The subsidy halves every 210000 blocks and ends after 33 halvings, so that the rewards of all
  heights that a 32-bit integer holds add up to 2099999997690000 satoshi, below 21 million bitcoin.\<close>

theorem subsidy_schedule:
  "(\<forall>h < 2 ^ 32 - 210000.
      unat (block_reward_sats (of_nat (h + 210000))) = unat (block_reward_sats (of_nat h)) div 2)
   \<and> (\<Sum>h < 2 ^ 32. unat (block_reward_sats (of_nat h))) = 2099999997690000"
proof (intro conjI allI impI)
  fix h :: nat assume h: "h < 2 ^ 32 - 210000"
  have late: "5000000000 div 2 ^ Suc (h div 210000) = (0 :: nat)" if "63 \<le> h div 210000"
  proof (rule div_less)
    have "(2 :: nat) ^ 64 \<le> 2 ^ Suc (h div 210000)" using that by (intro power_increasing) simp_all
    then show "(5000000000 :: nat) < 2 ^ Suc (h div 210000)" by (rule less_le_trans [rotated]) simp
  qed
  have "(h + 210000) div 210000 = Suc (h div 210000)" by simp
  with h late show "unat (block_reward_sats (of_nat (h + 210000))) = unat (block_reward_sats (of_nat h)) div 2"
    by (simp only: reward_nat) (auto simp: div_mult2_eq [symmetric] mult.commute reward_nat)
next
  let ?f = "\<lambda>i :: nat. if i < 64 then 5000000000 div 2 ^ i else (0 :: nat)"
  have "(\<Sum>h < 2 ^ 32. unat (block_reward_sats (of_nat h))) = (\<Sum>h < 2 ^ 32. ?f (h div 210000))"
    by (rule sum.cong) (simp_all add: reward_nat)
  also have "\<dots> = (\<Sum>h < 210000 * 64. ?f (h div 210000))"
  proof (rule sum.mono_neutral_right)
    show "\<forall>h \<in> {..<2 ^ 32} - {..<210000 * 64}. ?f (h div 210000) = 0"
      by (auto simp: not_less less_mult_imp_div_less div_less_iff_less_mult)
  qed auto
  also have "\<dots> = (\<Sum>i < 64. 210000 * ?f i)" by (rule epoch_sum)
  also have "\<dots> = 2099999997690000" by (simp add: lessThan_nat_numeral)
  finally show "(\<Sum>h < 2 ^ 32. unat (block_reward_sats (of_nat h))) = 2099999997690000" .
qed

theorem subsidy_schedule_witness:
  "unat (block_reward_sats (of_nat (419999 + 210000))) = unat (block_reward_sats (of_nat 419999)) div 2"
  using subsidy_schedule [THEN conjunct1, rule_format, of 419999] by simp

end
