(* ===== verification/NotifySpec.thy ===== *)
theory NotifySpec
  imports NetSpec
begin

text \<open>
  The notification thread of a client: it waits a bounded time for the indexer, sends a
  status once per change, delivers what was broadcast, and the condition under which it
  outlives its connection.
\<close>

section \<open>Waiting for the indexer\<close>

lemma wait_steps:
  assumes "late d" and "i \<le> d"
  shows "\<exists>n. i \<le> n \<and> n \<le> d \<and> wait_for_indexer_tip tip late ev i = Some n
    \<and> (indexer_ready (tip n) ev \<or> late n)
    \<and> (\<forall>k. i \<le> k \<and> k < n \<longrightarrow> \<not> indexer_ready (tip k) ev \<and> \<not> late k)"
  using assms(2)
proof (induction i rule: inc_induct)
  case base
  have "wait_for_indexer_tip tip late ev d = Some d"
    using assms(1) by (subst wait_for_indexer_tip.simps) simp
  then show ?case using assms(1) by (intro exI [of _ d]) auto
next
  case (step i)
  show ?case
  proof (cases "indexer_ready (tip i) ev \<or> late i")
    case True
    then have "wait_for_indexer_tip tip late ev i = Some i"
      by (subst wait_for_indexer_tip.simps) simp
    with True step show ?thesis by (intro exI [of _ i]) auto
  next
    case False
    then have run: "wait_for_indexer_tip tip late ev i = wait_for_indexer_tip tip late ev (Suc i)"
      by (subst wait_for_indexer_tip.simps) simp
    obtain n where n: "Suc i \<le> n" "n \<le> d" "wait_for_indexer_tip tip late ev (Suc i) = Some n"
      "indexer_ready (tip n) ev \<or> late n"
      "\<forall>k. Suc i \<le> k \<and> k < n \<longrightarrow> \<not> indexer_ready (tip k) ev \<and> \<not> late k"
      using step.IH by blast
    have "\<not> indexer_ready (tip k) ev \<and> \<not> late k" if "i \<le> k" "k < n" for k
      using n(5) False that by (cases "k = i") auto
    then show ?thesis using n run by (intro exI [of _ n]) auto
  qed
qed



section \<open>Statuses\<close>

text \<open>The status last sent for a script; a script that never had one counts as unused.\<close>

definition last_status :: "client_state \<Rightarrow> script_hash \<Rightarrow> string option" where
  "last_status c sh = (case map_of (status_by_scripthash c) sh of None \<Rightarrow> None | Some s \<Rightarrow> s)"

definition status_changes ::
  "'t sled \<Rightarrow> bitcoin_lib \<Rightarrow> 't index_state \<Rightarrow> client_state \<Rightarrow> script_hash list
     \<Rightarrow> (script_hash \<times> string option) list" where
  "status_changes S B st c shs =
     concat (map (\<lambda>sh. case script_status S B sh st of
       Inl _ \<Rightarrow> [] | Inr s \<Rightarrow> if last_status c sh = s then [] else [(sh, s)]) shs)"

lemma refresh_one:
  "\<exists>c'. refresh_status S B st sh (c, changed) = (c', changed @ status_changes S B st c [sh])
    \<and> subscribed_scripthashes c' = subscribed_scripthashes c
    \<and> headers_subscribed c' = headers_subscribed c \<and> header_subscription c' = header_subscription c
    \<and> map_of (status_by_scripthash c') = (case script_status S B sh st of
         Inl _ \<Rightarrow> map_of (status_by_scripthash c) | Inr s \<Rightarrow> (map_of (status_by_scripthash c))(sh \<mapsto> s))"
  by (auto simp: refresh_status_def status_changes_def last_status_def Let_def fun_upd_idem
      split: sum.split option.split)

lemma status_changes_cong:
  "(\<And>sh. sh \<in> set shs \<Longrightarrow> map_of (status_by_scripthash c') sh = map_of (status_by_scripthash c) sh) \<Longrightarrow>
     status_changes S B st c' shs = status_changes S B st c shs"
  unfolding status_changes_def last_status_def
  by (intro arg_cong [where f = concat] map_cong) (auto split: sum.split)

lemma refresh_fold:
  assumes "distinct shs"
  shows "\<exists>c'. fold (refresh_status S B st) shs (c, changed) = (c', changed @ status_changes S B st c shs)
    \<and> subscribed_scripthashes c' = subscribed_scripthashes c
    \<and> headers_subscribed c' = headers_subscribed c
    \<and> (\<forall>sh. map_of (status_by_scripthash c') sh = (case script_status S B sh st of
         Inl _ \<Rightarrow> map_of (status_by_scripthash c) sh
       | Inr s \<Rightarrow> if sh \<in> set shs then Some s else map_of (status_by_scripthash c) sh))"
  using assms
proof (induction shs arbitrary: c changed)
  case Nil
  show ?case by (intro exI [of _ c]) (auto simp: status_changes_def split: sum.split)
next
  case (Cons sh shs)
  obtain c1 where c1: "refresh_status S B st sh (c, changed) = (c1, changed @ status_changes S B st c [sh])"
    "subscribed_scripthashes c1 = subscribed_scripthashes c" "headers_subscribed c1 = headers_subscribed c"
    "map_of (status_by_scripthash c1) = (case script_status S B sh st of
         Inl _ \<Rightarrow> map_of (status_by_scripthash c) | Inr s \<Rightarrow> (map_of (status_by_scripthash c))(sh \<mapsto> s))"
    using refresh_one [of S B st sh c changed] by blast
  obtain c2 where c2: "fold (refresh_status S B st) shs (c1, changed @ status_changes S B st c [sh])
      = (c2, (changed @ status_changes S B st c [sh]) @ status_changes S B st c1 shs)"
    "subscribed_scripthashes c2 = subscribed_scripthashes c1" "headers_subscribed c2 = headers_subscribed c1"
    "\<forall>sh. map_of (status_by_scripthash c2) sh = (case script_status S B sh st of
         Inl _ \<Rightarrow> map_of (status_by_scripthash c1) sh
       | Inr s \<Rightarrow> if sh \<in> set shs then Some s else map_of (status_by_scripthash c1) sh)"
    using Cons.IH [of c1 "changed @ status_changes S B st c [sh]"] Cons.prems by fastforce
  have "status_changes S B st c1 shs = status_changes S B st c shs"
    using Cons.prems c1(4) by (intro status_changes_cong) (auto split: sum.split)
  moreover have "status_changes S B st c (sh # shs) = status_changes S B st c [sh] @ status_changes S B st c shs"
    by (simp add: status_changes_def)
  ultimately show ?case
    using c1 c2 by (intro exI [of _ c2]) (auto split: sum.splits)
qed

lemma refresh_settled:
  assumes "\<And>sh s. sh \<in> set shs \<Longrightarrow> script_status S B sh st = Inr s \<Longrightarrow>
      map_of (status_by_scripthash c) sh = Some s"
  shows "fold (refresh_status S B st) shs (c, changed) = (c, changed)"
  using assms
proof (induction shs)
  case (Cons sh shs)
  have "refresh_status S B st sh (c, changed) = (c, changed)"
    using Cons.prems [of sh] by (auto simp: refresh_status_def Let_def split: sum.split)
  then show ?case using Cons by simp
qed simp

text \<open>C20: A refresh reports exactly the affected subscriptions whose status differs from the one
  last sent, once each, and remembers what it reported: refreshing again from the same
  index reports nothing and leaves the client as it is.\<close>

theorem refresh_reports_once:
  assumes "client_ok c"
  shows "\<exists>c'. refresh_statuses S B P st c
      = (c', status_changes S B st c (filter P (subscribed_scripthashes c)))
    \<and> (\<forall>sh \<in> set (subscribed_scripthashes c). \<forall>s. P sh \<longrightarrow> script_status S B sh st = Inr s \<longrightarrow>
         last_status c' sh = s)
    \<and> refresh_statuses S B P st c' = (c', [])"
proof -
  let ?shs = "filter P (subscribed_scripthashes c)"
  obtain c' where c': "fold (refresh_status S B st) ?shs (c, []) = (c', [] @ status_changes S B st c ?shs)"
    "subscribed_scripthashes c' = subscribed_scripthashes c"
    "\<forall>sh. map_of (status_by_scripthash c') sh = (case script_status S B sh st of
         Inl _ \<Rightarrow> map_of (status_by_scripthash c) sh
       | Inr s \<Rightarrow> if sh \<in> set ?shs then Some s else map_of (status_by_scripthash c) sh)"
    using refresh_fold [of ?shs S B st c "[]"] assms by (auto simp: client_ok_def)
  moreover have "fold (refresh_status S B st) ?shs (c', []) = (c', [])"
    by (rule refresh_settled) (simp add: c'(3))
  ultimately show ?thesis
    by (intro exI [of _ c']) (auto simp: refresh_statuses_def last_status_def)
qed

theorem refresh_reports_once_witness:
  "let c = new_client_state\<lparr>subscribed_scripthashes := [5, 6]\<rparr>;
       c' = fst (refresh_statuses ref_sled ref_bitcoin (\<lambda>_. True) ref_chain c)
   in refresh_statuses ref_sled ref_bitcoin (\<lambda>_. True) ref_chain c' = (c', [])"
  using refresh_reports_once [of "new_client_state\<lparr>subscribed_scripthashes := [5, 6]\<rparr>" ref_sled ref_bitcoin
      "\<lambda>_. True" ref_chain]
  by (auto simp: client_ok_def new_client_state_def Let_def)

section \<open>Threads of closed connections\<close>

lemma writes_dead:
  assumes "\<not> conn_alive cn"
  shows "write_json E v cn = (Inl ''broken pipe'', cn)" and "write_statuses E xs cn = cn"
proof -
  show dead: "write_json E v cn = (Inl ''broken pipe'', cn)" for v using assms by (simp add: write_json_def)
  show "write_statuses E xs cn = cn" by (cases xs) (simp_all add: dead)
qed

lemma refresh_headers:
  "headers_subscribed (fst (refresh_statuses S B P st c)) = headers_subscribed c"
proof -
  have "headers_subscribed (fst (fold (refresh_status S B st) shs x)) = headers_subscribed (fst x)" for shs x
  proof (induction shs arbitrary: x)
    case (Cons sh shs)
    have "headers_subscribed (fst (refresh_status S B st sh x)) = headers_subscribed (fst x)"
      using refresh_one [of S B st sh "fst x" "snd x"] by auto
    with Cons show ?case by simp
  qed simp
  then show ?thesis by (simp add: refresh_statuses_def)
qed

definition idle_client :: "nat \<Rightarrow> 't net \<Rightarrow> bool" where
  "idle_client i n \<longleftrightarrow> (\<exists>cl. map_of (net_clients n) i = Some cl \<and> cl_notify cl
     \<and> \<not> conn_alive (cl_conn cl) \<and> \<not> headers_subscribed (cl_state cl))"

lemma map_of_upd_client:
  "map_of (net_clients n) i = Some cl \<Longrightarrow> map_of (net_clients (upd_client i cl' n)) i = Some cl'"
proof -
  have "map_of m i = Some cl \<Longrightarrow> map_of (map (\<lambda>(j, d). (j, if j = i then cl' else d)) m) i = Some cl'" for m
    by (induction m) auto
  then show "map_of (net_clients n) i = Some cl \<Longrightarrow> map_of (net_clients (upd_client i cl' n)) i = Some cl'"
    by (simp add: upd_client_def)
qed

lemma notify_idle:
  assumes "\<not> conn_alive cn" and "\<not> headers_subscribed c"
  shows "\<exists>c'. notify_block S E st ev (c, cn) = (True, c', cn) \<and> \<not> headers_subscribed c'"
    and "\<exists>c'. notify_pending S E st shs (c, cn) = (True, c', cn) \<and> \<not> headers_subscribed c'"
proof -
  have "\<not> headers_subscribed (fst (refresh_statuses S (env_bitcoin E) P st c))" for P
    using assms(2) by (simp add: refresh_headers)
  then show "\<exists>c'. notify_block S E st ev (c, cn) = (True, c', cn) \<and> \<not> headers_subscribed c'"
    "\<exists>c'. notify_pending S E st shs (c, cn) = (True, c', cn) \<and> \<not> headers_subscribed c'"
    using assms
    by (auto simp: notify_block_def notify_pending_def update_header_def writes_dead Let_def
        split: block_event.split prod.split) (metis fst_conv)+
qed

lemma idle_step:
  assumes "idle_client i n"
  shows "idle_client i (client_block_event S E i n)" and "idle_client i (client_pending_event S E i n)"
proof -
  obtain cl where cl: "map_of (net_clients n) i = Some cl" "cl_notify cl" "\<not> conn_alive (cl_conn cl)"
    "\<not> headers_subscribed (cl_state cl)" using assms by (auto simp: idle_client_def)
  show "idle_client i (client_block_event S E i n)"
  proof (cases "recv (cl_events cl) (net_events n)")
    case (Pair m events)
    show ?thesis
    proof (cases m)
      case None
      with Pair cl assms show ?thesis by (simp add: client_block_event_def)
    next
      case (Some ev)
      obtain c' where "notify_block S E (sv_state (net_server n)) ev (cl_state cl, cl_conn cl)
          = (True, c', cl_conn cl)" "\<not> headers_subscribed c'"
        using notify_idle(1) [OF cl(3,4)] by blast
      with Pair Some cl show ?thesis
        by (auto simp: client_block_event_def idle_client_def Let_def map_of_upd_client [OF cl(1)])
    qed
  qed
  show "idle_client i (client_pending_event S E i n)"
  proof (cases "recv (cl_pending cl) (sv_changes (net_server n))")
    case (Pair m changes)
    show ?thesis
    proof (cases m)
      case None
      with Pair cl assms show ?thesis by (simp add: client_pending_event_def)
    next
      case (Some shs)
      obtain c' where "notify_pending S E (sv_state (net_server n)) shs (cl_state cl, cl_conn cl)
          = (True, c', cl_conn cl)" "\<not> headers_subscribed c'"
        using notify_idle(2) [OF cl(3,4)] by blast
      with Pair Some cl show ?thesis
        by (auto simp: client_pending_event_def idle_client_def Let_def map_of_upd_client [OF cl(1)])
    qed
  qed
qed


definition ref_gone :: "(bytes \<times> bytes) list net" where
  "ref_gone = (let n = accept_client (new_net \<lparr>state = ref_chain, ixr_metrics = new_metrics\<rparr>);
                   cl = the (map_of (net_clients n) 0)
               in upd_client 0 (cl\<lparr>cl_conn := (cl_conn cl)\<lparr>conn_alive := False\<rparr>\<rparr>) n)"


end
