(* ===== verification/UtxoSpec.thy ===== *)
theory UtxoSpec
  imports ChainSpec Queries
begin

text \<open>
  The index as a set of unspent outputs. The abstract state is a map from outpoints to
  outputs; a transaction removes what it spends and adds what it creates. The trees of the
  store refine it, and the answers of the queries are read off it.
\<close>

section \<open>The abstract unspent set\<close>

type_synonym utxo_set = "outpoint \<rightharpoonup> stored_output"

definition new_outputs :: "bitcoin_lib \<Rightarrow> u32 \<Rightarrow> transaction \<Rightarrow> utxo_set \<Rightarrow> utxo_set" where
  "new_outputs B h tx U =
     fold (\<lambda>(i, out) m. m(\<lparr>op_txid = compute_txid B tx, op_vout = of_nat i\<rparr> \<mapsto>
              \<lparr>so_script_hash = output_script B out, so_txid = compute_txid B tx, so_vout = of_nat i,
               so_value = tx_value out, so_height = h\<rparr>))
       (enumerate 0 (tx_output tx)) U"

definition connect_tx :: "bitcoin_lib \<Rightarrow> u32 \<Rightarrow> transaction \<Rightarrow> utxo_set \<Rightarrow> utxo_set" where
  "connect_tx B h tx U = new_outputs B h tx (U |` (- set (tx_prevouts B tx)))"

definition connect_utxos :: "bitcoin_lib \<Rightarrow> u32 \<Rightarrow> transaction list \<Rightarrow> utxo_set \<Rightarrow> utxo_set" where
  "connect_utxos B h txs U = fold (connect_tx B h) txs U"

text \<open>The abstraction of the trees.\<close>

definition utxos_of :: "store_view \<Rightarrow> utxo_set" where
  "utxos_of v p =
     (case v_outputs v (outpoint_key p) of
        None \<Rightarrow> None
      | Some raw \<Rightarrow> (if v_utxos v (out_utxo_key p raw) = None then None else Some (raw_stored p raw)))"

section \<open>Records\<close>

fun record_utxos :: "u32 \<Rightarrow> journal_record \<Rightarrow> utxo_set \<Rightarrow> utxo_set" where
  "record_utxos h (ROutput p sh val) U =
     U(p \<mapsto> \<lparr>so_script_hash = sh, so_txid = op_txid p, so_vout = op_vout p, so_value = val,
              so_height = h\<rparr>)"
| "record_utxos h (RSpend p) U = U(p := None)"
| "record_utxos h r U = U"

lemma raw_stored_output [simp]:
  "raw_stored p (raw_output p sh val h)
     = \<lparr>so_script_hash = sh, so_txid = op_txid p, so_vout = op_vout p, so_value = val, so_height = h\<rparr>"
  by (simp add: raw_stored_def raw_script_def raw_value_def raw_output_def encode_output_def
      from_be_be_bytes codec_simps)

lemma utxos_of_record: "utxos_of (do_record h x v) = record_utxos h (snd x) (utxos_of v)"
proof (cases "(h, x)" rule: record_action.cases)
  case (3 h' s p sh val)
  show ?thesis
  proof
    fix q
    show "utxos_of (do_record h x v) q = record_utxos h (snd x) (utxos_of v) q"
      using 3 by (cases "q = p") (auto simp: utxos_of_def do_record_def Let_def split: option.split)
  qed
next
  case (4 h' s p)
  show ?thesis
  proof
    fix q
    show "utxos_of (do_record h x v) q = record_utxos h (snd x) (utxos_of v) q"
      using 4 by (cases "q = p") (auto simp: utxos_of_def do_record_def Let_def split: option.split)
  qed
qed (auto simp: utxos_of_def do_record_def Let_def fun_eq_iff split: option.split)

lemma utxos_of_run: "utxos_of (run_records h s rs v) = fold (record_utxos h) rs (utxos_of v)"
proof (induction rs arbitrary: s v)
  case (Cons r rs)
  have "run_records h s (r # rs) v = run_records h (s + 1) rs (do_record h (s, r) v)"
    by (simp add: run_records_def)
  with Cons.IH show ?case by (simp add: utxos_of_record)
qed (simp add: run_records_def)

section \<open>Transactions and blocks\<close>

text \<open>What is not stored is not unspent, so an input without a record changes nothing.\<close>

definition stored_only :: "(bytes \<rightharpoonup> bytes) \<Rightarrow> utxo_set \<Rightarrow> bool" where
  "stored_only O' U \<longleftrightarrow> (\<forall>p. O' (outpoint_key p) = None \<longrightarrow> U p = None)"

lemma stored_only_restrict [simp]: "stored_only O' U \<Longrightarrow> stored_only O' (U |` A)"
  by (auto simp: stored_only_def restrict_map_def)

definition remove_all :: "outpoint list \<Rightarrow> utxo_set \<Rightarrow> utxo_set" where
  "remove_all ps U = fold (\<lambda>p m. m(p := None)) ps U"

lemma remove_all_restrict: "remove_all ps U = U |` (- set ps)"
  unfolding remove_all_def
proof (induction ps arbitrary: U)
  case (Cons p ps)
  show ?case
    by (simp only: fold_simps comp_def Cons.IH) (auto simp: restrict_map_def fun_eq_iff)
qed (simp add: restrict_map_def fun_eq_iff)

lemma stored_only_remove [simp]: "stored_only O' U \<Longrightarrow> stored_only O' (U(p := None))"
  by (simp add: stored_only_def)

lemma input_record_utxos:
  "stored_only O' U \<Longrightarrow>
     fold (record_utxos h) (input_records B t O' x) U
       = (if is_null B (previous_output (snd x)) then U else U(previous_output (snd x) := None))"
  by (auto simp: input_records_def Let_def stored_only_def fun_eq_iff split: option.split)

lemma input_records_utxos:
  "stored_only O' U \<Longrightarrow>
     fold (record_utxos h) (concat (map (input_records B t O') xs)) U
       = remove_all (filter (\<lambda>p. \<not> is_null B p) (map (previous_output \<circ> snd) xs)) U"
proof (induction xs arbitrary: U)
  case (Cons x xs)
  show ?case
    using Cons.IH [OF Cons.prems] Cons.IH [OF stored_only_remove [OF Cons.prems]]
    by (simp add: input_record_utxos [OF Cons.prems] remove_all_def del: fun_upd_apply)
qed (simp add: remove_all_def)

lemma output_records_utxos:
  "fold (record_utxos h) (concat (map (output_records B (compute_txid B tx)) xs)) U
     = fold (\<lambda>(i, out) m. m(\<lparr>op_txid = compute_txid B tx, op_vout = of_nat i\<rparr> \<mapsto>
              \<lparr>so_script_hash = output_script B out, so_txid = compute_txid B tx, so_vout = of_nat i,
               so_value = tx_value out, so_height = h\<rparr>)) xs U"
  by (induction xs arbitrary: U) (auto simp: output_records_def)

lemma tx_records_utxos:
  assumes "stored_only O' U"
  shows "fold (record_utxos h) (tx_records B O' tx) U = connect_tx B h tx U"
proof -
  have "map (previous_output \<circ> snd) (enumerate 0 (tx_input tx)) = map previous_output (tx_input tx)"
    by (simp flip: map_map)
  then show ?thesis
    using input_records_utxos [OF assms, of h B "compute_txid B tx" "enumerate 0 (tx_input tx)"]
    by (simp add: tx_records_def Let_def output_records_utxos connect_tx_def new_outputs_def
        tx_prevouts_def remove_all_restrict)
qed

lemma stored_only_new:
  assumes "stored_only O' U"
  shows "stored_only (add_outputs B h tx O') (connect_tx B h tx U)"
proof -
  have "stored_only
      (fold (\<lambda>(i, out) m.
        let p = \<lparr>op_txid = compute_txid B tx, op_vout = of_nat i\<rparr>
        in m(outpoint_key p \<mapsto> raw_output p (output_script B out) (tx_value out) h)) xs O')
      (fold (\<lambda>(i, out) m. m(\<lparr>op_txid = compute_txid B tx, op_vout = of_nat i\<rparr> \<mapsto>
              \<lparr>so_script_hash = output_script B out, so_txid = compute_txid B tx, so_vout = of_nat i,
               so_value = tx_value out, so_height = h\<rparr>)) xs U)"
    if "stored_only O' U" for xs O' U
    using that
  proof (induction xs arbitrary: O' U)
    case (Cons x xs)
    show ?case
      unfolding fold_simps comp_def
      by (rule Cons.IH) (use Cons.prems in \<open>auto simp: stored_only_def Let_def split: prod.split\<close>)
  qed simp
  from this [OF stored_only_restrict [OF assms]] show ?thesis
    by (simp add: add_outputs_def connect_tx_def new_outputs_def)
qed

lemma block_records_utxos:
  "stored_only O' U \<Longrightarrow>
     fold (record_utxos h) (block_records B h O' txs) U = connect_utxos B h txs U"
  by (induction txs arbitrary: O' U)
    (simp_all add: connect_utxos_def tx_records_utxos stored_only_new)

lemma stored_only_view: "stored_only (v_outputs v) (utxos_of v)"
  by (simp add: stored_only_def utxos_of_def)

section \<open>Consistency of the unspent tree\<close>

definition utxo_keys_ok :: "store_view \<Rightarrow> bool" where
  "utxo_keys_ok v \<longleftrightarrow>
     (\<forall>key val. v_utxos v key = Some val \<longrightarrow>
        (\<exists>p raw. key = out_utxo_key p raw \<and> v_outputs v (outpoint_key p) = Some raw
               \<and> val = u64_be (raw_value raw)))"

lemma utxo_keys_okE:
  assumes "utxo_keys_ok v" and "v_utxos v key = Some val"
  obtains p raw where "key = out_utxo_key p raw" and "v_outputs v (outpoint_key p) = Some raw"
    and "val = u64_be (raw_value raw)"
  using assms unfolding utxo_keys_ok_def by blast

lemma utxo_keys_okI:
  assumes "\<And>key val. v_utxos v key = Some val \<Longrightarrow>
     \<exists>p raw. key = out_utxo_key p raw \<and> v_outputs v (outpoint_key p) = Some raw
           \<and> val = u64_be (raw_value raw)"
  shows "utxo_keys_ok v"
  using assms unfolding utxo_keys_ok_def by blast

lemma outpoint_eta [simp]: "\<lparr>op_txid = op_txid p, op_vout = op_vout p\<rparr> = p"
  by simp

lemma raw_stored_encode [simp]:
  "raw_stored \<lparr>op_txid = so_txid out, op_vout = so_vout out\<rparr> (encode_output out) = out"
  using decode_raw [of "encode_output out" "\<lparr>op_txid = so_txid out, op_vout = so_vout out\<rparr>"]
    decode_encode_output [of "\<lparr>op_txid = so_txid out, op_vout = so_vout out\<rparr>" out]
  by simp

lemma raw_encode [simp]:
  "raw_script (encode_output out) = so_script_hash out" "raw_value (encode_output out) = so_value out"
  by (metis raw_stored_encode raw_stored_fields(1), metis raw_stored_encode raw_stored_fields(4))

lemma utxos_wf_view:
  assumes "outputs_wf (views S ix)"
  shows "utxos_wf S ix \<longleftrightarrow> utxo_keys_ok (views S ix)"
proof
  assume wf: "utxos_wf S ix"
  have "\<exists>p raw. key = out_utxo_key p raw \<and> view S (ix_outputs ix) (outpoint_key p) = Some raw
      \<and> val = u64_be (raw_value raw)" if "view S (ix_utxos ix) key = Some val" for key val
  proof -
    obtain out where "key = utxo_key (so_script_hash out) (so_txid out) (so_vout out)"
      "val = u64_be (so_value out)"
      "view S (ix_outputs ix) (outpoint_key \<lparr>op_txid = so_txid out, op_vout = so_vout out\<rparr>)
         = Some (encode_output out)"
      using wf \<open>view S (ix_utxos ix) key = Some val\<close> unfolding utxos_wf_def by blast
    then show ?thesis
      by (intro exI [of _ "\<lparr>op_txid = so_txid out, op_vout = so_vout out\<rparr>"]
          exI [of _ "encode_output out"]) (simp add: out_utxo_key_def)
  qed
  then show "utxo_keys_ok (views S ix)" by (simp add: utxo_keys_ok_def)
next
  assume ok: "utxo_keys_ok (views S ix)"
  have "\<exists>out. key = utxo_key (so_script_hash out) (so_txid out) (so_vout out)
      \<and> val = u64_be (so_value out)
      \<and> view S (ix_outputs ix) (outpoint_key \<lparr>op_txid = so_txid out, op_vout = so_vout out\<rparr>)
          = Some (encode_output out)" if "view S (ix_utxos ix) key = Some val" for key val
  proof -
    obtain p raw where "key = out_utxo_key p raw" "view S (ix_outputs ix) (outpoint_key p) = Some raw"
      "val = u64_be (raw_value raw)"
      using ok \<open>view S (ix_utxos ix) key = Some val\<close> by (auto elim: utxo_keys_okE)
    moreover from this(2) have "length raw = 44" using assms by (auto simp: outputs_wf_def)
    ultimately show ?thesis
      by (intro exI [of _ "raw_stored p raw"]) (simp add: out_utxo_key_def)
  qed
  then show "utxos_wf S ix" by (simp add: utxos_wf_def)
qed

lemma utxo_keys_ok_record:
  assumes ok: "utxo_keys_ok v" and fresh: "ok_record h x v"
  shows "utxo_keys_ok (do_record h x v)"
proof (rule utxo_keys_okI)
  fix key val assume key: "v_utxos (do_record h x v) key = Some val"
  show "\<exists>p raw. key = out_utxo_key p raw \<and> v_outputs (do_record h x v) (outpoint_key p) = Some raw
      \<and> val = u64_be (raw_value raw)"
  proof (cases "\<exists>p sh val. snd x = ROutput p sh val \<and> key = utxo_key sh (op_txid p) (op_vout p)")
    case True
    then obtain p sh val' where new: "snd x = ROutput p sh val'" "key = utxo_key sh (op_txid p) (op_vout p)"
      by blast
    then show ?thesis
      using key by (intro exI [of _ p] exI [of _ "raw_output p sh val' h"])
        (simp add: do_record_def Let_def)
  next
    case False
    then have "v_utxos v key = Some val"
      using key by (cases "snd x") (auto simp: do_record_def Let_def split: option.splits if_splits)
    then obtain p raw where old: "key = out_utxo_key p raw" "v_outputs v (outpoint_key p) = Some raw"
      "val = u64_be (raw_value raw)"
      by (rule utxo_keys_okE [OF ok])
    moreover have "v_outputs (do_record h x v) (outpoint_key p) = Some raw"
      using old(2) fresh by (cases "snd x") (auto simp: do_record_def ok_record_def Let_def split: option.split)
    ultimately show ?thesis by blast
  qed
qed

lemma utxo_keys_ok_run:
  "utxo_keys_ok v \<Longrightarrow> ok_run h xs v \<Longrightarrow> utxo_keys_ok (fold (do_record h) xs v)"
  by (induction xs arbitrary: v) (simp_all add: utxo_keys_ok_record)

lemma unspent_outputs_of:
  assumes "outputs_wf (views S ix)"
  shows "unspent_outputs S ix sh
    = {out. so_script_hash out = sh
          \<and> utxos_of (views S ix) \<lparr>op_txid = so_txid out, op_vout = so_vout out\<rparr> = Some out}"
proof -
  have "out \<in> unspent_outputs S ix sh \<longleftrightarrow> so_script_hash out = sh
      \<and> utxos_of (views S ix) \<lparr>op_txid = so_txid out, op_vout = so_vout out\<rparr> = Some out" for out
  proof (cases "view S (ix_outputs ix) (outpoint_key \<lparr>op_txid = so_txid out, op_vout = so_vout out\<rparr>)")
    case None
    then show ?thesis by (simp add: unspent_outputs_def utxos_of_def)
  next
    case (Some raw)
    then have "length raw = 44" using assms by (simp add: outputs_wf_def)
    then have "raw = encode_output out
        \<longleftrightarrow> raw_stored \<lparr>op_txid = so_txid out, op_vout = so_vout out\<rparr> raw = out"
      by (metis encode_raw_stored raw_stored_encode)
    with Some show ?thesis
      by (auto simp: unspent_outputs_def utxos_of_def out_utxo_key_def)
  qed
  then show ?thesis by blast
qed

lemma connect_utxos_of:
  assumes "sled_ok S" and "outputs_wf (views S (store st))"
    and "apply_block S B blk h st = (Inr (), st')"
  shows "utxos_of (views S (store st')) = connect_utxos B h (txdata blk) (utxos_of (views S (store st)))"
    and "outputs_wf (views S (store st'))"
proof -
  have "views S (store st') = run_records h 0
      (block_records B h (view S (ix_outputs (store st))) (txdata blk)) (views S (store st))"
    using apply_block_ok [OF assms(1,2), of B blk h] assms(3) by auto
  moreover have "stored_only (view S (ix_outputs (store st))) (utxos_of (views S (store st)))"
    using stored_only_view [of "views S (store st)"] by simp
  ultimately show "utxos_of (views S (store st')) = connect_utxos B h (txdata blk) (utxos_of (views S (store st)))"
    "outputs_wf (views S (store st'))"
    using assms(2) by (simp_all add: utxos_of_run block_records_utxos)
qed

lemma connect_utxos_wf:
  assumes S: "sled_ok S" and wf: "outputs_wf (views S (store st))" and ok: "utxos_wf S (store st)"
    and fresh: "fresh_block B h (txdata blk) (views S (store st))"
    and run: "apply_block S B blk h st = (Inr (), st')"
  shows "utxos_wf S (store st')"
proof -
  let ?rs = "block_records B h (view S (ix_outputs (store st))) (txdata blk)"
  have st': "views S (store st') = run_records h 0 ?rs (views S (store st))"
    using apply_block_ok [OF S wf, of B blk h] run by auto
  have "ok_run h (numbered 0 ?rs) (views S (store st))"
    using fresh_run_ok [OF fresh_block_run [OF fresh]] by simp
  moreover have "utxo_keys_ok (views S (store st))" using ok utxos_wf_view [OF wf] by blast
  ultimately have "utxo_keys_ok (views S (store st'))"
    by (simp add: st' run_records_def utxo_keys_ok_run)
  then show ?thesis using utxos_wf_view connect_utxos_of(2) [OF S wf run] by blast
qed

text \<open>The balance is read off the abstract unspent set.\<close>

definition script_sum :: "script_hash \<Rightarrow> (outpoint \<rightharpoonup> stored_output) \<Rightarrow> nat" where
  "script_sum sh U = (\<Sum>out \<in> {out. so_script_hash out = sh
     \<and> U \<lparr>op_txid = so_txid out, op_vout = so_vout out\<rparr> = Some out}. unat (so_value out))"

lemma balance_of_utxos:
  assumes "sled_ok S" and "outputs_wf (views S (store st))" and "utxos_wf S (store st)"
  shows "\<exists>total. get_balance S sh st = Inr total
    \<and> unat total = min (2 ^ 64 - 1) (script_sum sh (utxos_of (views S (store st))))"
  using balance_total [OF assms(1,3), of sh]
  by (auto simp: get_balance_def script_sum_def unspent_outputs_of [OF assms(2)])

section \<open>Properties\<close>

text \<open>C6: Connecting a block refines the abstract unspent set: reading the trees after the
  block gives the unspent set before it, less what each transaction of the block spends and
  with what it creates, in the order of the block.\<close>

theorem connect_refines_utxos:
  assumes "sled_ok S" and "outputs_wf (views S (store st))"
  shows "\<exists>st'. apply_block S B blk h st = (Inr (), st')
    \<and> utxos_of (views S (store st')) = connect_utxos B h (txdata blk) (utxos_of (views S (store st)))"
  using apply_block_ok [OF assms, of B blk h] connect_utxos_of(1) [OF assms, of B blk h] by blast

lemma ref_funded_utxos:
  "utxos_of (views ref_sled (store ref_funded))
     = [\<lparr>op_txid = 9, op_vout = 0\<rparr> \<mapsto>
          \<lparr>so_script_hash = 5, so_txid = 9, so_vout = 0, so_value = 50, so_height = 1\<rparr>]"
proof -
  have "outpoint_key p = outpoint_key \<lparr>op_txid = 9, op_vout = 0\<rparr> \<longleftrightarrow> p = \<lparr>op_txid = 9, op_vout = 0\<rparr>" for p
    by simp
  then show ?thesis
    using raw_stored_encode [of "\<lparr>so_script_hash = 5, so_txid = 9, so_vout = 0, so_value = 50,
        so_height = 1\<rparr>"]
    by (auto simp: utxos_of_def ref_funded_view out_utxo_key_def fun_eq_iff simp del: view_ref_sled)
qed

lemma ref_connected_utxos:
  "connect_utxos ref_bitcoin 7 (txdata ref_block) (utxos_of (views ref_sled (store ref_funded)))
     = [\<lparr>op_txid = 1, op_vout = 0\<rparr> \<mapsto> \<lparr>so_script_hash = from_script ref_bitcoin [1], so_txid = 1,
           so_vout = 0, so_value = 25, so_height = 7\<rparr>,
        \<lparr>op_txid = 2, op_vout = 0\<rparr> \<mapsto> \<lparr>so_script_hash = from_script ref_bitcoin [2], so_txid = 2,
           so_vout = 0, so_value = 20, so_height = 7\<rparr>,
        \<lparr>op_txid = 2, op_vout = 1\<rparr> \<mapsto> \<lparr>so_script_hash = from_script ref_bitcoin [3], so_txid = 2,
           so_vout = 1, so_value = 30, so_height = 7\<rparr>]"
  by (simp add: ref_funded_utxos connect_utxos_def connect_tx_def new_outputs_def ref_block_def
      tx_prevouts_def output_script_def restrict_map_def fun_eq_iff)

theorem connect_refines_utxos_witness:
  "\<exists>st'. apply_block ref_sled ref_bitcoin ref_block 7 ref_funded = (Inr (), st')
    \<and> utxos_of (views ref_sled (store st')) \<lparr>op_txid = 9, op_vout = 0\<rparr> = None
    \<and> map_option so_value (utxos_of (views ref_sled (store st')) \<lparr>op_txid = 2, op_vout = 1\<rparr>) = Some 30"
  using connect_refines_utxos [OF ref_sled_ok ref_funded_wf, of ref_bitcoin ref_block 7]
  by (auto simp: ref_connected_utxos)

text \<open>C11: After a block of fresh transactions has been connected, the unspent tree is still
  consistent, and the confirmed balance of every script is the capped sum over the abstract
  unspent set after the block.\<close>

theorem balance_after_connect:
  assumes S: "sled_ok S" and wf: "outputs_wf (views S (store st))" and ok: "utxos_wf S (store st)"
    and fresh: "fresh_block B h (txdata blk) (views S (store st))"
  shows "\<exists>st' total. apply_block S B blk h st = (Inr (), st') \<and> utxos_wf S (store st')
    \<and> get_balance S sh st' = Inr total
    \<and> unat total = min (2 ^ 64 - 1) (\<Sum>out \<in> {out. so_script_hash out = sh
        \<and> connect_utxos B h (txdata blk) (utxos_of (views S (store st)))
            \<lparr>op_txid = so_txid out, op_vout = so_vout out\<rparr> = Some out}. unat (so_value out))"
proof -
  obtain st' where run: "apply_block S B blk h st = (Inr (), st')"
    using apply_block_ok [OF S wf] by blast
  have ok': "utxos_wf S (store st')" by (rule connect_utxos_wf [OF S wf ok fresh run])
  with balance_of_utxos [OF S connect_utxos_of(2) [OF S wf run] ok', of sh] run show ?thesis
    unfolding script_sum_def connect_utxos_of(1) [OF S wf run] by blast
qed

lemma ref_scripts:
  "from_script ref_bitcoin [1] \<noteq> 5" "from_script ref_bitcoin [2] \<noteq> 5" "from_script ref_bitcoin [3] \<noteq> 5"
  by code_simp+

lemma ref_unfunded:
  "{out. so_script_hash out = 5
      \<and> connect_utxos ref_bitcoin 7 (txdata ref_block) (utxos_of (views ref_sled (store ref_funded)))
          \<lparr>op_txid = so_txid out, op_vout = so_vout out\<rparr> = Some out} = {}"
  using ref_scripts by (auto simp: ref_connected_utxos split: if_splits)

lemma ref_funded_keys: "utxos_wf ref_sled (store ref_funded)"
  unfolding ref_funded_store ref_store_def
  by (rule utxos_wf_store_output)
    (simp_all add: utxos_wf_def ref_pindex_def view_ref_nil del: view_ref_sled)

theorem balance_after_connect_witness:
  "\<exists>st'. apply_block ref_sled ref_bitcoin ref_block 7 ref_funded = (Inr (), st')
    \<and> utxos_wf ref_sled (store st') \<and> get_balance ref_sled 5 st' = Inr 0"
proof -
  obtain st' total where "apply_block ref_sled ref_bitcoin ref_block 7 ref_funded = (Inr (), st')"
    "utxos_wf ref_sled (store st')" "get_balance ref_sled 5 st' = Inr total" "unat total = 0"
    using balance_after_connect [OF ref_sled_ok ref_funded_wf ref_funded_keys ref_block_fresh, of 5]
    by (auto simp: ref_unfunded)
  moreover from this(4) have "total = 0" by (simp add: unat_eq_zero)
  ultimately show ?thesis by blast
qed

end
