(* ===== verification/QuerySpec.thy ===== *)
theory QuerySpec
  imports UtxoSpec PendingView
begin

text \<open>
  What the queries answer over the confirmed index and the pending view together: unspent
  outputs, mempool entries with their fees, the fee histogram, and the unconfirmed balance.
\<close>

section \<open>Unspent outputs\<close>

definition unspent_of :: "stored_output \<Rightarrow> stored_unspent" where
  "unspent_of out = \<lparr>su_txid = so_txid out, su_vout = so_vout out, su_value = so_value out,
                     su_height = so_height out\<rparr>"

definition outpoint_of :: "stored_output \<Rightarrow> outpoint" where
  "outpoint_of out = \<lparr>op_txid = so_txid out, op_vout = so_vout out\<rparr>"

lemma unspent_of_fields [simp]:
  "su_txid (unspent_of out) = so_txid out" "su_vout (unspent_of out) = so_vout out"
  "su_value (unspent_of out) = so_value out" "su_height (unspent_of out) = so_height out"
  by (simp_all add: unspent_of_def)

lemma pending_outputs_distinct:
  assumes "pending_ok B st"
  shows "distinct (map fst (pending_outputs st))"
proof -
  have "distinct (map fst (add_pending_outputs B sp tx m))" if "distinct (map fst m)" for sp tx m
    unfolding add_pending_outputs_def
    by (rule fold_invariant [where Q = "\<lambda>_. True"]) (use that in \<open>auto simp: Let_def\<close>)
  then have "distinct (map fst (fold (add_pending_outputs B sp) txs m))"
    if "distinct (map fst m)" for sp txs m
    using that by (induction txs arbitrary: m) simp_all
  moreover have "pending_outputs st = pending_outputs (rebuild_pending_view B st)"
    using assms by (simp add: pending_ok_def pending_view_ok_def)
  ultimately show ?thesis by (simp add: rebuild_pending_view_def)
qed

lemma pending_output_key:
  assumes "pending_ok B st" and "\<forall>(t, tx) \<in> set (pending_txs st). length (tx_output tx) \<le> 2 ^ 32"
    and "(p, out) \<in> set (pending_outputs st)"
  shows "outpoint_of out = p" and "map_of (pending_outputs st) p = Some out"
    and "map_of (pending_txs st) (so_txid out) \<noteq> None"
proof -
  show look: "map_of (pending_outputs st) p = Some out"
    using pending_outputs_distinct [OF assms(1)] assms(3) by simp
  then have "out = pending_stored B p o' \<and> map_of (pending_txs st) (op_txid p) \<noteq> None" if
    "Option.bind (map_of (pending_txs st) (op_txid p)) (\<lambda>tx. output_at tx (op_vout p)) = Some o'" for o'
    using pending_outputs_lookup [OF assms(1,2), of p] that
    by (auto simp: bind_eq_Some_conv split: if_splits)
  moreover obtain o' where
    "Option.bind (map_of (pending_txs st) (op_txid p)) (\<lambda>tx. output_at tx (op_vout p)) = Some o'"
    using look pending_outputs_lookup [OF assms(1,2), of p] by (auto split: if_splits)
  ultimately show "outpoint_of out = p" "map_of (pending_txs st) (so_txid out) \<noteq> None"
    by (auto simp: outpoint_of_def pending_stored_def)
qed

definition unspent_order :: "bitcoin_lib \<Rightarrow> stored_unspent \<Rightarrow> u32 \<times> string \<times> u32" where
  "unspent_order B e = (su_height e, txid_to_string B (su_txid e), su_vout e)"

lemma pending_unspent_entries:
  "pending_unspent_for_script sh st
     = map unspent_of (filter (\<lambda>out. so_script_hash out = sh) (map snd (pending_outputs st)))"
  by (simp add: pending_unspent_for_script_def unspent_of_def [abs_def])

lemma distinct_outpoints_sorted:
  "distinct (map k xs) \<Longrightarrow> distinct (map k (sort_key f xs))"
  by (metis mset_map mset_sort mset_eq_imp_distinct_iff)

lemma pending_unspent_outpoints:
  assumes "pending_ok B st" and "\<forall>(t, tx) \<in> set (pending_txs st). length (tx_output tx) \<le> 2 ^ 32"
  shows "distinct (map (\<lambda>e. (su_txid e, su_vout e)) (pending_unspent_for_script sh st))"
proof -
  have "map outpoint_of (map snd (pending_outputs st)) = map fst (pending_outputs st)"
    using pending_output_key(1) [OF assms] by auto
  then have "distinct (map outpoint_of (map snd (pending_outputs st)))"
    using pending_outputs_distinct [OF assms(1)] by (simp only:)
  then have "distinct (map (\<lambda>out. (so_txid out, so_vout out)) (map snd (pending_outputs st)))"
    by (auto simp: distinct_map inj_on_def outpoint_of_def)
  then have "distinct (map (\<lambda>out. (so_txid out, so_vout out))
      (filter (\<lambda>out. so_script_hash out = sh) (map snd (pending_outputs st))))"
    by (rule distinct_map_filter)
  then show ?thesis by (simp add: pending_unspent_entries comp_def)
qed

lemma set_pending_unspent:
  assumes "pending_ok B st" and "\<forall>(t, tx) \<in> set (pending_txs st). length (tx_output tx) \<le> 2 ^ 32"
  shows "set (pending_unspent_for_script sh st)
    = unspent_of ` {out. map_of (pending_outputs st) (outpoint_of out) = Some out \<and> so_script_hash out = sh}"
proof -
  have "out \<in> snd ` set (pending_outputs st) \<longleftrightarrow> map_of (pending_outputs st) (outpoint_of out) = Some out"
    for out
  proof
    assume "out \<in> snd ` set (pending_outputs st)"
    then obtain p where "(p, out) \<in> set (pending_outputs st)" by auto
    with pending_output_key(1,2) [OF assms this]
    show "map_of (pending_outputs st) (outpoint_of out) = Some out" by simp
  next
    assume "map_of (pending_outputs st) (outpoint_of out) = Some out"
    from map_of_SomeD [OF this] show "out \<in> snd ` set (pending_outputs st)" by force
  qed
  then have "snd ` set (pending_outputs st)
      = {out. map_of (pending_outputs st) (outpoint_of out) = Some out}" by blast
  then show ?thesis by (simp add: pending_unspent_entries)
qed


definition ref_pending :: "(bytes \<times> bytes) list index_state" where
  "ref_pending = ref_chain\<lparr>store := store ref_funded\<rparr>"

lemma ref_pending_simps [simp]:
  "pending_txs ref_pending = [(2, ref_parent), (3, ref_child)]" "store ref_pending = store ref_funded"
  "pending_outputs ref_pending = pending_outputs ref_chain"
  by (simp_all add: ref_pending_def)

lemma ref_pending_ok: "pending_ok ref_bitcoin ref_pending"
  by (simp add: ref_pending_def ref_chain_def pending_keyed_def ref_state_def)

lemma ref_pending_short: "\<forall>(t, tx) \<in> set (pending_txs ref_pending). length (tx_output tx) \<le> 2 ^ 32"
  by (simp add: ref_parent_def ref_child_def)

lemma ref_unspent_pending: "out \<in> unspent_outputs ref_sled (store ref_funded) sh \<Longrightarrow> so_txid out = 9"
  by (auto simp: unspent_outputs_def ref_funded_view simp del: view_ref_sled split: if_splits)


section \<open>Mempool entries\<close>

text \<open>
  The inputs of a transaction as the loops visit them: each previous output once, null
  outpoints never. \<open>prevouts_from seen\<close> are the ones not seen before.
\<close>

fun prevouts_from :: "bitcoin_lib \<Rightarrow> outpoint list \<Rightarrow> txin list \<Rightarrow> outpoint list" where
  "prevouts_from B seen [] = []"
| "prevouts_from B seen (i # is) =
     (if is_null B (previous_output i) \<or> previous_output i \<in> set seen then prevouts_from B seen is
      else previous_output i # prevouts_from B (previous_output i # seen) is)"

lemma prevouts_from_set:
  "set (prevouts_from B seen is)
     = {p. \<not> is_null B p \<and> p \<notin> set seen \<and> (\<exists>i \<in> set is. previous_output i = p)}"
  by (induction B seen "is" rule: prevouts_from.induct) auto

lemma prevouts_from_distinct: "distinct (prevouts_from B seen is)"
  by (induction B seen "is" rule: prevouts_from.induct) (auto simp: prevouts_from_set)

lemma prevouts_of_tx: "set (prevouts_from B [] (tx_input tx)) = set (tx_prevouts B tx)"
  by (auto simp: prevouts_from_set tx_prevouts_def)

text \<open>The value of an outpoint: of the stored output, else of the pending one, else zero.\<close>

definition prevout_stored :: "'t sled \<Rightarrow> 't index_state \<Rightarrow> outpoint \<Rightarrow> bool" where
  "prevout_stored S st p \<longleftrightarrow> view S (ix_outputs (store st)) (outpoint_key p) \<noteq> None"

definition prevout_value :: "'t sled \<Rightarrow> bitcoin_lib \<Rightarrow> 't index_state \<Rightarrow> outpoint \<Rightarrow> u64" where
  "prevout_value S B st p =
     (case view S (ix_outputs (store st)) (outpoint_key p) of
        Some raw \<Rightarrow> raw_value raw
      | None \<Rightarrow> (case pending_output_for_outpoint B p st of None \<Rightarrow> 0 | Some out \<Rightarrow> so_value out))"

lemma saturating_add_0 [simp]: "saturating_add a 0 = a"
  by (simp add: saturating_add_def)

lemma mempool_inputs:
  assumes "sled_ok S" and "outputs_wf (views S (store st))"
  shows "\<exists>seen'. foldR (mempool_input S B st) is (v, u, seen)
    = Inr (fold (\<lambda>p t. saturating_add t (prevout_value S B st p)) (prevouts_from B seen is) v,
           u \<or> (\<exists>p \<in> set (prevouts_from B seen is). \<not> prevout_stored S st p), seen')"
proof (induction "is" arbitrary: v u seen)
  case (Cons i "is")
  let ?p = "previous_output i"
  show ?case
  proof (cases "is_null B ?p \<or> ?p \<in> set seen")
    case True
    then show ?thesis using Cons [of v u seen] by (auto simp: mempool_input_def Let_def)
  next
    case False
    then have "mempool_input S B st i (v, u, seen)
        = Inr (saturating_add v (prevout_value S B st ?p), u \<or> \<not> prevout_stored S st ?p, ?p # seen)"
      using assms
      by (auto simp: mempool_input_def Let_def load_output_ok prevout_value_def prevout_stored_def
          split: option.split)
    with False Cons [of "saturating_add v (prevout_value S B st ?p)" "u \<or> \<not> prevout_stored S st ?p"
        "?p # seen"] show ?thesis by auto
  qed
qed simp

definition capped_sum :: "nat list \<Rightarrow> nat" where
  "capped_sum xs = min (2 ^ 64 - 1) (sum_list xs)"

lemma unat_total_output_value:
  "unat (total_output_value tx) = capped_sum (map (\<lambda>out. unat (tx_value out)) (tx_output tx))"
  unfolding total_output_value_def capped_sum_def by (simp add: unat_fold_saturating_add)

definition entry_ok :: "'t sled \<Rightarrow> bitcoin_lib \<Rightarrow> 't index_state \<Rightarrow> transaction \<Rightarrow> mempool_entry \<Rightarrow> bool" where
  "entry_ok S B st tx e \<longleftrightarrow>
     me_txid e = compute_txid B tx
     \<and> me_height e = (if \<forall>p \<in> set (tx_prevouts B tx). prevout_stored S st p then 0 else - 1)
     \<and> unat (me_fee e)
         = min (2 ^ 64 - 1) (\<Sum>p \<in> set (tx_prevouts B tx). unat (prevout_value S B st p))
           - capped_sum (map (\<lambda>out. unat (tx_value out)) (tx_output tx))"

lemma foldR_select:
  assumes "\<And>x. x \<in> set xs \<Longrightarrow> P x \<Longrightarrow> \<exists>y. f x = Inr y \<and> R x y"
  shows "\<exists>ys. foldR (\<lambda>x out. if \<not> P x then Inr out else bindR (f x) (\<lambda>y. Inr (out @ [y]))) xs zs
      = Inr (zs @ ys) \<and> list_all2 R (filter P xs) ys"
  using assms
proof (induction xs arbitrary: zs)
  case (Cons x xs)
  show ?case
  proof (cases "P x")
    case True
    then obtain y where y: "f x = Inr y" "R x y" using Cons.prems [of x] by auto
    obtain ys where "foldR (\<lambda>x out. if \<not> P x then Inr out else bindR (f x) (\<lambda>y. Inr (out @ [y]))) xs
        (zs @ [y]) = Inr ((zs @ [y]) @ ys)" "list_all2 R (filter P xs) ys"
      using Cons.IH [of "zs @ [y]"] Cons.prems by auto
    with True y show ?thesis by (intro exI [of _ "y # ys"]) simp
  qed (use Cons in auto)
qed simp

text \<open>C18: The mempool list of a script has one entry for each pending transaction that touches
  it, ordered by the text of the txid; an entry has the fee that the known inputs leave over
  the outputs, each input counted once, and the height 0 exactly when every input spends a
  stored output.\<close>

theorem mempool_entry_fees:
  assumes S: "sled_ok S" and wf: "outputs_wf (views S (store st))"
  shows "\<exists>es es'. mempool S B sh st = Inr es \<and> mset es = mset es'
    \<and> sorted (map (\<lambda>e. txid_to_string B (me_txid e)) es)
    \<and> list_all2 (entry_ok S B st)
        (filter (\<lambda>tx. pending_tx_touches_script S B tx sh st) (map snd (pending_txs st))) es'"
proof -
  let ?f = "\<lambda>tx. bindR (foldR (mempool_input S B st) (tx_input tx) (0, False, []))
                 (\<lambda>(input_value, unconfirmed, _).
                    Inr \<lparr>me_txid = compute_txid B tx, me_height = (if unconfirmed then - 1 else 0),
                         me_fee = saturating_sub input_value (total_output_value tx)\<rparr>)"
  have entry: "\<exists>e. ?f tx = Inr e \<and> entry_ok S B st tx e" for tx
  proof -
    let ?ps = "prevouts_from B [] (tx_input tx)"
    obtain seen where run: "foldR (mempool_input S B st) (tx_input tx) (0, False, [])
        = Inr (fold (\<lambda>p t. saturating_add t (prevout_value S B st p)) ?ps 0,
               (\<exists>p \<in> set ?ps. \<not> prevout_stored S st p), seen)"
      using mempool_inputs [OF S wf, of B "tx_input tx" 0 False "[]"] by auto
    have "(\<Sum>p\<leftarrow>?ps. unat (prevout_value S B st p)) = (\<Sum>p \<in> set ?ps. unat (prevout_value S B st p))"
      by (rule sum_list_distinct_conv_sum_set [OF prevouts_from_distinct])
    then show ?thesis
      using run
      by (auto simp: entry_ok_def prevouts_of_tx unat_saturating_sub unat_total_output_value
          unat_fold_saturating_add)
  qed
  have "foldR (\<lambda>tx out.
          if \<not> pending_tx_touches_script S B tx sh st then Inr out
          else bindR (foldR (mempool_input S B st) (tx_input tx) (0, False, []))
                 (\<lambda>(input_value, unconfirmed, _).
                    Inr (out @ [\<lparr>me_txid = compute_txid B tx,
                                 me_height = (if unconfirmed then - 1 else 0),
                                 me_fee = saturating_sub input_value (total_output_value tx)\<rparr>]))) txs out
      = foldR (\<lambda>tx out. if \<not> pending_tx_touches_script S B tx sh st then Inr out
               else bindR (?f tx) (\<lambda>e. Inr (out @ [e]))) txs out" for txs out
    by (intro arg_cong [where f = "\<lambda>g. foldR g txs out"] ext)
      (auto simp: bindR_def split: sum.split prod.split)
  with foldR_select [of "map snd (pending_txs st)" "\<lambda>tx. pending_tx_touches_script S B tx sh st" ?f
      "entry_ok S B st" "[]"] entry
  show ?thesis
    by (auto simp: mempool_def pending_mempool_for_script_def)
qed

lemma ref_load_funded:
  "load_output ref_sled p (store ref_funded)
     = Inr (if p = \<lparr>op_txid = 9, op_vout = 0\<rparr>
            then Some \<lparr>so_script_hash = 5, so_txid = 9, so_vout = 0, so_value = 50, so_height = 1\<rparr>
            else None)"
  using raw_stored_encode [of "\<lparr>so_script_hash = 5, so_txid = 9, so_vout = 0, so_value = 50, so_height = 1\<rparr>"]
  by (simp add: load_output_ok [OF ref_sled_ok ref_funded_wf] ref_funded_view del: view_ref_sled)

lemma ref_pending_lookup:
  "pending_output_for_outpoint ref_bitcoin \<lparr>op_txid = 9, op_vout = 0\<rparr> ref_pending = None"
  "pending_output_for_outpoint ref_bitcoin \<lparr>op_txid = 2, op_vout = 0\<rparr> ref_pending
     = Some (pending_stored ref_bitcoin \<lparr>op_txid = 2, op_vout = 0\<rparr> (ref_out [1] 40))"
  by (simp_all add: pending_output_for_outpoint_def pending_outputs_lookup [OF ref_pending_ok ref_pending_short,
        simplified] spent_by_pending_def ref_parent_def ref_child_def output_at_def pending_stored_def
      split: option.split)

lemma ref_pending_scripts:
  "script_hash_for_outpoint ref_sled ref_bitcoin \<lparr>op_txid = 9, op_vout = 0\<rparr> ref_pending = Inr (Some 5)"
  "script_hash_for_outpoint ref_sled ref_bitcoin \<lparr>op_txid = 2, op_vout = 0\<rparr> ref_pending
     = Inr (Some (from_script ref_bitcoin [1]))"
  by (simp_all add: script_hash_for_outpoint_def ref_pending_lookup ref_load_funded pending_stored_def
      output_script_def)

lemma ref_script_5: "from_script ref_bitcoin [5] \<noteq> 5"
  by code_simp

lemma ref_script_5_1: "from_script ref_bitcoin [5] \<noteq> from_script ref_bitcoin [1]"
  by code_simp

lemma ref_touches:
  "pending_tx_touches_script ref_sled ref_bitcoin ref_parent 5 ref_pending"
  "\<not> pending_tx_touches_script ref_sled ref_bitcoin ref_child 5 ref_pending"
  using ref_scripts ref_script_5
  by (simp_all add: pending_tx_touches_script_def ref_parent_def ref_child_def ref_pending_scripts
      ok_flatten_def output_script_def)

theorem mempool_entry_fees_witness:
  "\<exists>e. mempool ref_sled ref_bitcoin 5 ref_pending = Inr [e]
    \<and> me_txid e = 2 \<and> me_height e = 0 \<and> unat (me_fee e) = 10"
proof -
  have prevs: "tx_prevouts ref_bitcoin ref_parent = [\<lparr>op_txid = 9, op_vout = 0\<rparr>]"
    by (simp add: tx_prevouts_def ref_parent_def)
  have outs: "tx_output ref_parent = [ref_out [1] 40]" by (simp add: ref_parent_def)
  have val: "prevout_value ref_sled ref_bitcoin ref_pending \<lparr>op_txid = 9, op_vout = 0\<rparr> = 50"
    "prevout_stored ref_sled ref_pending \<lparr>op_txid = 9, op_vout = 0\<rparr>"
    by (simp_all add: prevout_value_def prevout_stored_def ref_funded_view del: view_ref_sled)
  have wf: "outputs_wf (views ref_sled (store ref_pending))" using ref_funded_wf by simp
  obtain es es' where es: "mempool ref_sled ref_bitcoin 5 ref_pending = Inr es" "mset es = mset es'"
    "list_all2 (entry_ok ref_sled ref_bitcoin ref_pending) [ref_parent] es'"
    using mempool_entry_fees [OF ref_sled_ok wf, of ref_bitcoin 5] by (auto simp: ref_touches)
  from es(3) obtain e where "es' = [e]" "entry_ok ref_sled ref_bitcoin ref_pending ref_parent e"
    by (auto simp: list_all2_Cons1)
  with es(1,2) show ?thesis
    by (auto simp: entry_ok_def prevs outs val capped_sum_def)
qed

section \<open>The unconfirmed balance\<close>

definition prevout_script :: "'t sled \<Rightarrow> bitcoin_lib \<Rightarrow> 't index_state \<Rightarrow> outpoint \<Rightarrow> script_hash option" where
  "prevout_script S B st p =
     (case pending_output_for_outpoint B p st of
        Some out \<Rightarrow> Some (so_script_hash out)
      | None \<Rightarrow> map_option raw_script (view S (ix_outputs (store st)) (outpoint_key p)))"

lemma foldR_concat: "foldR (\<lambda>x. foldR f (g x)) xs = foldR f (concat (map g xs))"
proof -
  have app: "foldR f (xs @ ys) b = bindR (foldR f xs b) (foldR f ys)" for xs ys b
    by (induction xs arbitrary: b) (auto simp: bindR_def split: sum.splits)
  show ?thesis
  proof (induction xs)
    case (Cons x xs)
    show ?case by (rule ext) (simp add: app Cons)
  qed (rule ext, simp)
qed

lemma delta_inputs:
  assumes "sled_ok S" and "outputs_wf (views S (store st))"
  shows "\<exists>seen'. foldR (delta_input S B sh st) is (d, seen)
    = Inr (d - (\<Sum>p\<leftarrow>filter (\<lambda>p. prevout_script S B st p = Some sh) (prevouts_from B seen is).
                  prevout_value S B st p), seen')"
proof (induction "is" arbitrary: d seen)
  case (Cons i "is")
  let ?p = "previous_output i"
  show ?case
  proof (cases "is_null B ?p \<or> ?p \<in> set seen")
    case True
    then show ?thesis using Cons [of d seen] by (auto simp: delta_input_def Let_def)
  next
    case False
    have "script_hash_for_outpoint S B ?p st = Inr (prevout_script S B st ?p)"
      using assms
      by (auto simp: script_hash_for_outpoint_def prevout_script_def load_output_ok option.map_comp comp_def
          split: option.split)
    moreover have "load_output S ?p (store st)
        = Inr (map_option (raw_stored ?p) (view S (ix_outputs (store st)) (outpoint_key ?p)))"
      using assms by (rule load_output_ok)
    ultimately have "delta_input S B sh st i (d, seen)
        = Inr (if prevout_script S B st ?p = Some sh then d - prevout_value S B st ?p else d, ?p # seen)"
      using False
      by (auto simp: delta_input_def Let_def prevout_value_def split: option.split)
    with False Cons [of "if prevout_script S B st ?p = Some sh then d - prevout_value S B st ?p else d"
        "?p # seen"] show ?thesis by (auto simp: algebra_simps)
  qed
qed simp

text \<open>C19: The unconfirmed balance of a script is the total of its pending outputs that no
  pending transaction spends, less the total of its outputs, stored or pending, that some
  pending transaction spends, modulo two to the 64. An output that is created and spent
  among pending transactions is therefore subtracted without having been added.\<close>

theorem unconfirmed_delta_sum:
  assumes S: "sled_ok S" and wf: "outputs_wf (views S (store st))"
  shows "get_unconfirmed_balance_delta S B sh st
    = Inr ((\<Sum>out\<leftarrow>filter (\<lambda>out. so_script_hash out = sh) (map snd (pending_outputs st)). so_value out)
         - (\<Sum>p \<in> {p. spent_by_pending B (pending_txs st) p \<and> prevout_script S B st p = Some sh}.
              prevout_value S B st p))"
proof -
  let ?is = "concat (map tx_input (map snd (pending_txs st)))"
  let ?ps = "filter (\<lambda>p. prevout_script S B st p = Some sh) (prevouts_from B [] ?is)"
  obtain seen where run: "foldR (delta_input S B sh st) ?is (0, [])
      = Inr (0 - (\<Sum>p\<leftarrow>?ps. prevout_value S B st p), seen)"
    using delta_inputs [OF S wf, of B sh ?is 0 "[]"] by auto
  have "set ?ps = {p. spent_by_pending B (pending_txs st) p \<and> prevout_script S B st p = Some sh}"
    by (auto simp: prevouts_from_set spent_by_pending_def case_prod_beta)
  moreover have "(\<Sum>p\<leftarrow>?ps. prevout_value S B st p) = (\<Sum>p \<in> set ?ps. prevout_value S B st p)"
    by (rule sum_list_distinct_conv_sum_set) (simp add: prevouts_from_distinct)
  moreover have "fold (\<lambda>out d. if so_script_hash out = sh then d + so_value out else d) outs d
      = d + (\<Sum>out\<leftarrow>filter (\<lambda>out. so_script_hash out = sh) outs. so_value out)"
    for outs :: "stored_output list" and d
    by (induction outs arbitrary: d) (simp_all add: algebra_simps)
  ultimately show ?thesis
    using run
    by (simp add: get_unconfirmed_balance_delta_def unconfirmed_balance_delta_for_script_def foldR_concat)
qed

lemma ref_output_at:
  "output_at ref_parent v = (if v = 0 then Some (ref_out [1] 40) else None)"
  "output_at ref_child v = (if v = 0 then Some (ref_out [5] 30) else None)"
  by (simp_all add: output_at_def ref_parent_def ref_child_def unat_eq_0)

theorem unconfirmed_delta_sum_witness:
  "get_unconfirmed_balance_delta ref_sled ref_bitcoin (from_script ref_bitcoin [1]) ref_pending = Inr (- 40)"
proof -
  let ?sh = "from_script ref_bitcoin [1]"
  have wf: "outputs_wf (views ref_sled (store ref_pending))" using ref_funded_wf by simp
  have spent: "spent_by_pending ref_bitcoin [(2, ref_parent), (3, ref_child)] p
      \<longleftrightarrow> p = \<lparr>op_txid = 9, op_vout = 0\<rparr> \<or> p = \<lparr>op_txid = 2, op_vout = 0\<rparr>" for p
    by (auto simp: spent_by_pending_def ref_parent_def ref_child_def)
  have "prevout_script ref_sled ref_bitcoin ref_pending \<lparr>op_txid = 9, op_vout = 0\<rparr> = Some 5"
    by (simp add: prevout_script_def ref_pending_lookup ref_funded_view del: view_ref_sled)
  moreover have "prevout_script ref_sled ref_bitcoin ref_pending \<lparr>op_txid = 2, op_vout = 0\<rparr> = Some ?sh"
    by (simp add: prevout_script_def ref_pending_lookup pending_stored_def output_script_def)
  ultimately have "{p. spent_by_pending ref_bitcoin (pending_txs ref_pending) p
      \<and> prevout_script ref_sled ref_bitcoin ref_pending p = Some ?sh} = {\<lparr>op_txid = 2, op_vout = 0\<rparr>}"
    using ref_scripts(1) by (auto simp: spent)
  moreover have "prevout_value ref_sled ref_bitcoin ref_pending \<lparr>op_txid = 2, op_vout = 0\<rparr> = 40"
    by (simp add: prevout_value_def ref_pending_lookup ref_funded_view pending_stored_def del: view_ref_sled)
  moreover have "filter (\<lambda>out. so_script_hash out = ?sh) (map snd (pending_outputs ref_pending)) = []"
  proof -
    have "so_script_hash out \<noteq> ?sh" if "(p, out) \<in> set (pending_outputs ref_pending)" for p out
    proof -
      have "map_of (pending_outputs ref_pending) p = Some out"
        using pending_output_key(2) [OF ref_pending_ok ref_pending_short that] .
      then have "out = pending_stored ref_bitcoin \<lparr>op_txid = 3, op_vout = 0\<rparr> (ref_out [5] 30)"
        using pending_outputs_lookup [OF ref_pending_ok ref_pending_short, of p]
        by (cases p) (auto simp: spent ref_output_at split: if_splits)
      then show ?thesis using ref_script_5_1 by (simp add: pending_stored_def output_script_def)
    qed
    then show ?thesis by (auto simp: filter_empty_conv)
  qed
  ultimately show ?thesis
    using unconfirmed_delta_sum [OF ref_sled_ok wf, of ref_bitcoin ?sh] by simp
qed

section \<open>The fee histogram\<close>

definition prevout_known :: "'t sled \<Rightarrow> bitcoin_lib \<Rightarrow> 't index_state \<Rightarrow> outpoint \<Rightarrow> bool" where
  "prevout_known S B st p \<longleftrightarrow> prevout_stored S st p \<or> pending_output_for_outpoint B p st \<noteq> None"

definition tx_vsize :: "bitcoin_lib \<Rightarrow> transaction \<Rightarrow> u64" where
  "tx_vsize B tx = (tx_weight B tx + 3) div 4"

text \<open>The fee rate of a transaction, zero where a previous output is unknown.\<close>

definition tx_fee_rate :: "'t sled \<Rightarrow> bitcoin_lib \<Rightarrow> 't index_state \<Rightarrow> transaction \<Rightarrow> nat" where
  "tx_fee_rate S B st tx =
     (if \<forall>p \<in> set (tx_prevouts B tx). prevout_known S B st p
      then (min (2 ^ 64 - 1) (\<Sum>p \<in> set (tx_prevouts B tx). unat (prevout_value S B st p))
              - capped_sum (map (\<lambda>out. unat (tx_value out)) (tx_output tx)))
           div max (unat (tx_vsize B tx)) 1
      else 0)"

definition bucket :: "(u64 \<times> u64) list \<Rightarrow> u64 \<Rightarrow> u64" where
  "bucket m r = (case map_of m r of None \<Rightarrow> 0 | Some v \<Rightarrow> v)"

lemma histogram_inputs_ok:
  assumes "sled_ok S" and "outputs_wf (views S (store st))"
  shows "histogram_inputs S B st is v seen
    = Inr (if \<forall>p \<in> set (prevouts_from B seen is). prevout_known S B st p
           then Some (fold (\<lambda>p t. saturating_add t (prevout_value S B st p)) (prevouts_from B seen is) v)
           else None)"
proof (induction "is" arbitrary: v seen)
  case (Cons i "is")
  show ?case
    using Cons assms
    by (auto simp: Let_def load_output_ok prevout_known_def prevout_stored_def prevout_value_def
        split: option.split)
qed simp

lemma btree_add_sorted:
  "sorted_wrt (<) (map fst m) \<Longrightarrow>
     sorted_wrt (<) (map fst (btree_add k v m)) \<and> fst ` set (btree_add k v m) = insert k (fst ` set m)"
  by (induction k v m rule: btree_add.induct) auto

lemma btree_add_bucket:
  "sorted_wrt (<) (map fst m) \<Longrightarrow>
     bucket (btree_add k v m) r = (if r = k then bucket m k + v else bucket m r)"
proof (induction k v m rule: btree_add.induct)
  case (2 k v k' v' m)
  have "map_of m k = None" if "k < k'"
    using 2(2) that by (auto simp: map_of_eq_None_iff)
  with 2 show ?case by (auto simp: bucket_def)
qed (simp add: bucket_def)

lemma unat_fee_rate:
  "unat (saturating_sub v w div max s 1 :: u64) = (unat v - unat w) div max (unat s) 1"
  by (simp add: unat_div_distrib unat_saturating_sub max_def word_le_nat_alt)

lemma histogram_tx_ok:
  assumes "sled_ok S" and "outputs_wf (views S (store st))"
  shows "histogram_tx S B st tx m
    = Inr (if tx_fee_rate S B st tx = 0 then m
           else btree_add (of_nat (tx_fee_rate S B st tx)) (tx_vsize B tx) m)"
    and "tx_fee_rate S B st tx < 2 ^ 64"
proof -
  let ?ps = "prevouts_from B [] (tx_input tx)"
  let ?v = "fold (\<lambda>p t. saturating_add t (prevout_value S B st p)) ?ps 0"
  let ?rate = "saturating_sub ?v (total_output_value tx) div max (tx_vsize B tx) 1"
  have "(\<Sum>p\<leftarrow>?ps. unat (prevout_value S B st p)) = (\<Sum>p \<in> set (tx_prevouts B tx). unat (prevout_value S B st p))"
    by (simp only: sum_list_distinct_conv_sum_set [OF prevouts_from_distinct] prevouts_of_tx)
  then have rate: "tx_fee_rate S B st tx
      = (if \<forall>p \<in> set (tx_prevouts B tx). prevout_known S B st p then unat ?rate else 0)"
    by (simp add: tx_fee_rate_def unat_fee_rate unat_total_output_value unat_fold_saturating_add)
  show "histogram_tx S B st tx m
    = Inr (if tx_fee_rate S B st tx = 0 then m
           else btree_add (of_nat (tx_fee_rate S B st tx)) (tx_vsize B tx) m)"
    unfolding rate
    by (auto simp: histogram_tx_def histogram_inputs_ok [OF assms] prevouts_of_tx Let_def tx_vsize_def
        unat_eq_0)
  have "unat ?rate < 2 ^ LENGTH(64)" by (rule unsigned_less)
  then show "tx_fee_rate S B st tx < 2 ^ 64" by (simp add: rate)
qed

lemma sort_desc_strict:
  assumes "sorted_wrt (<) (map f xs)"
  shows "sort_desc f xs = rev xs"
proof -
  have "sort_key f (rev xs) = xs"
  proof (rule properties_for_sort_key)
    show "mset xs = mset (rev xs)" by simp
    show "sorted (map f xs)" using assms by (rule strict_sorted_imp_sorted)
    fix k assume "k \<in> set xs"
    have inj: "inj_on f (set xs)"
      using assms by (simp add: strict_sorted_iff distinct_map)
    have "filter (\<lambda>x. f k = f x) xs = filter (\<lambda>x. k = x) xs"
      using inj \<open>k \<in> set xs\<close> by (intro filter_cong) (auto dest: inj_onD)
    moreover have "filter (\<lambda>x. f k = f x) (rev xs) = filter (\<lambda>x. k = x) (rev xs)"
      using inj \<open>k \<in> set xs\<close> by (intro filter_cong) (auto dest: inj_onD)
    moreover have "filter (\<lambda>x. k = x) ys = replicate (count_list ys k) k" for ys
      by (induction ys) auto
    ultimately show "filter (\<lambda>x. f k = f x) xs = filter (\<lambda>x. f k = f x) (rev xs)" by simp
  qed
  then show ?thesis by (simp add: sort_desc_def)
qed

lemma histogram_fold:
  assumes S: "sled_ok S" and wf: "outputs_wf (views S (store st))"
    and "sorted_wrt (<) (map fst m)" and "0 \<notin> fst ` set m"
  shows "\<exists>m'. foldR (histogram_tx S B st) txs m = Inr m' \<and> sorted_wrt (<) (map fst m') \<and> 0 \<notin> fst ` set m'
    \<and> (\<forall>r. r \<noteq> 0 \<longrightarrow> bucket m' r
        = bucket m r + (\<Sum>tx\<leftarrow>filter (\<lambda>tx. tx_fee_rate S B st tx = unat r) txs. tx_vsize B tx))"
  using assms(3,4)
proof (induction txs arbitrary: m)
  case (Cons tx txs)
  let ?rate = "tx_fee_rate S B st tx"
  show ?case
  proof (cases "?rate = 0")
    case True
    moreover have "0 \<noteq> unat r" if "r \<noteq> 0" for r :: u64 using that by (simp add: unat_eq_0)
    moreover obtain m' where "foldR (histogram_tx S B st) txs m = Inr m'"
      "sorted_wrt (<) (map fst m')" "0 \<notin> fst ` set m'"
      "\<forall>r. r \<noteq> 0 \<longrightarrow> bucket m' r
        = bucket m r + (\<Sum>tx\<leftarrow>filter (\<lambda>tx. tx_fee_rate S B st tx = unat r) txs. tx_vsize B tx)"
      using Cons.IH [OF Cons.prems] by blast
    ultimately show ?thesis
      by (intro exI [of _ m']) (simp add: histogram_tx_ok(1) [OF S wf, of B tx m] del: neq0_conv)
  next
    case False
    let ?m = "btree_add (of_nat ?rate) (tx_vsize B tx) m"
    have small: "unat (of_nat ?rate :: u64) = ?rate"
      using histogram_tx_ok(2) [OF S wf, of B tx] by (simp add: unsigned_of_nat take_bit_nat_eq_self)
    then have "of_nat ?rate \<noteq> (0 :: u64)" using False by (metis unsigned_0)
    then have "sorted_wrt (<) (map fst ?m)" "0 \<notin> fst ` set ?m"
      using btree_add_sorted [OF Cons.prems(1), of "of_nat ?rate" "tx_vsize B tx"] Cons.prems(2) by auto
    from Cons.IH [OF this] obtain m' where m': "foldR (histogram_tx S B st) txs ?m = Inr m'"
      "sorted_wrt (<) (map fst m')" "0 \<notin> fst ` set m'"
      "\<forall>r. r \<noteq> 0 \<longrightarrow> bucket m' r
        = bucket ?m r + (\<Sum>tx\<leftarrow>filter (\<lambda>tx. tx_fee_rate S B st tx = unat r) txs. tx_vsize B tx)"
      by blast
    moreover have "?rate = unat r \<longleftrightarrow> r = of_nat ?rate" for r :: u64
      using small by (metis word_unat_eq_iff)
    ultimately show ?thesis
      using False btree_add_bucket [OF Cons.prems(1), of "of_nat ?rate" "tx_vsize B tx"]
      by (intro exI [of _ m']) (auto simp: histogram_tx_ok(1) [OF S wf, of B tx m] algebra_simps)
  qed
qed simp

text \<open>C26: The fee histogram lists strictly decreasing, nonzero fee rates, and against each rate
  the total virtual size of the pending transactions that pay it; a transaction with an
  unknown previous output or a rate below one counts nowhere.\<close>

theorem fee_histogram_buckets:
  assumes "sled_ok S" and "outputs_wf (views S (store st))"
  shows "\<exists>rows. fee_histogram S B st = Inr rows
    \<and> sorted_wrt (>) (map fst rows) \<and> 0 \<notin> fst ` set rows
    \<and> (\<forall>r. r \<noteq> 0 \<longrightarrow> bucket rows r
        = (\<Sum>tx\<leftarrow>filter (\<lambda>tx. tx_fee_rate S B st tx = unat r) (map snd (pending_txs st)). tx_vsize B tx))"
proof -
  obtain m where m: "foldR (histogram_tx S B st) (map snd (pending_txs st)) [] = Inr m"
    "sorted_wrt (<) (map fst m)" "0 \<notin> fst ` set m"
    "\<forall>r. r \<noteq> 0 \<longrightarrow> bucket m r = bucket [] r
      + (\<Sum>tx\<leftarrow>filter (\<lambda>tx. tx_fee_rate S B st tx = unat r) (map snd (pending_txs st)). tx_vsize B tx)"
    using histogram_fold [OF assms, of "[]" B "map snd (pending_txs st)"] by auto
  have "distinct (map fst m)" using m(2) by (simp add: strict_sorted_iff)
  then have "map_of (rev m) = map_of m"
    using map_of_inject_set [of "rev m" m] by (simp flip: rev_map)
  then have "bucket (rev m) r = bucket m r" for r
    by (simp add: bucket_def)
  then show ?thesis
    using m by (auto simp: fee_histogram_def sort_desc_strict rev_map [symmetric] sorted_wrt_rev bucket_def)
qed

definition ref_rich :: "(bytes \<times> bytes) list index_state" where
  "ref_rich = ref_pending\<lparr>store := ref_store \<lparr>op_txid = 9, op_vout = 0\<rparr> 5 5000 ref_pindex\<rparr>"

lemma ref_rich_outputs:
  "view ref_sled (ix_outputs (store ref_rich))
     = [outpoint_key \<lparr>op_txid = 9, op_vout = 0\<rparr> \<mapsto>
          encode_output \<lparr>so_script_hash = 5, so_txid = 9, so_vout = 0, so_value = 5000, so_height = 1\<rparr>]"
  by (simp add: ref_rich_def ref_store_def ref_pindex_def store_ok sled_simps view_ref_nil fun_eq_iff
      del: view_ref_sled)

lemma ref_rich_lookup:
  "pending_output_for_outpoint ref_bitcoin \<lparr>op_txid = 2, op_vout = 0\<rparr> ref_rich
     = Some (pending_stored ref_bitcoin \<lparr>op_txid = 2, op_vout = 0\<rparr> (ref_out [1] 40))"
proof -
  have same: "pending_outputs (ref_pending\<lparr>store := ix\<rparr>) = pending_outputs ref_pending"
    "pending_txs (ref_pending\<lparr>store := ix\<rparr>) = pending_txs ref_pending" for ix by simp_all
  have "pending_output_for_outpoint ref_bitcoin p (ref_pending\<lparr>store := ix\<rparr>)
      = pending_output_for_outpoint ref_bitcoin p ref_pending" for p ix
    by (simp only: pending_output_for_outpoint_def same)
  then show ?thesis using ref_pending_lookup(2) by (simp add: ref_rich_def)
qed

lemma ref_prevouts:
  "tx_prevouts ref_bitcoin ref_parent = [\<lparr>op_txid = 9, op_vout = 0\<rparr>]"
  "tx_prevouts ref_bitcoin ref_child = [\<lparr>op_txid = 2, op_vout = 0\<rparr>]"
  by (simp_all add: tx_prevouts_def ref_parent_def ref_child_def)

lemma ref_rates:
  "tx_vsize ref_bitcoin tx = 100"
  "tx_fee_rate ref_sled ref_bitcoin ref_rich ref_parent = 49"
  "tx_fee_rate ref_sled ref_bitcoin ref_rich ref_child = 0"
proof -
  show size: "tx_vsize ref_bitcoin tx = 100" for tx
    by (simp add: tx_vsize_def ref_bitcoin_def)
  have val: "prevout_value ref_sled ref_bitcoin ref_rich \<lparr>op_txid = 9, op_vout = 0\<rparr> = 5000"
    "prevout_value ref_sled ref_bitcoin ref_rich \<lparr>op_txid = 2, op_vout = 0\<rparr> = 40"
    "prevout_known ref_sled ref_bitcoin ref_rich \<lparr>op_txid = 9, op_vout = 0\<rparr>"
    "prevout_known ref_sled ref_bitcoin ref_rich \<lparr>op_txid = 2, op_vout = 0\<rparr>"
    by (simp_all add: prevout_value_def prevout_known_def prevout_stored_def ref_rich_outputs
        ref_rich_lookup pending_stored_def del: view_ref_sled)
  show "tx_fee_rate ref_sled ref_bitcoin ref_rich ref_parent = 49"
    "tx_fee_rate ref_sled ref_bitcoin ref_rich ref_child = 0"
    by (simp_all add: tx_fee_rate_def ref_prevouts val size capped_sum_def)
      (simp_all add: ref_parent_def ref_child_def)
qed

theorem fee_histogram_buckets_witness:
  "\<exists>rows. fee_histogram ref_sled ref_bitcoin ref_rich = Inr rows
    \<and> sorted_wrt (>) (map fst rows) \<and> bucket rows 49 = 100 \<and> bucket rows 48 = 0"
proof -
  have "outputs_wf (views ref_sled (store ref_rich))"
    by (simp add: outputs_wf_def ref_rich_outputs del: view_ref_sled split: if_splits)
  moreover have "pending_txs ref_rich = [(2, ref_parent), (3, ref_child)]" by (simp add: ref_rich_def)
  ultimately show ?thesis
    using fee_histogram_buckets [OF ref_sled_ok, of ref_rich ref_bitcoin] by (auto simp: ref_rates)
qed

end
