(* ===== verification/ProtocolSpec.thy ===== *)
theory ProtocolSpec
  imports NetSpec QuerySpec
begin

text \<open>
  The JSON-RPC surface: parameters and their encodings, the shape of responses, which
  requests change which part of the state, and what a broadcast does.
\<close>

section \<open>Hexadecimal parameters\<close>

lemma bij_reverse: "bij_betw (\<lambda>i. n - 1 - i) {..<n} {..<n :: nat}"
  by (rule bij_betw_byWitness [where f' = "\<lambda>i. n - 1 - i"]) auto

text \<open>C34: The hexadecimal text of a script hash parses back to it, whatever parameters follow.\<close>

theorem scripthash_roundtrip:
  "parse_scripthash (JArray (JString (to_hex sh) # rest)) = Inr sh"
  by (rule parse_to_hex)

text \<open>Reading the text of a txid into wire order reverses its bytes: the text that a
  block explorer shows for a txid, which is the reversed hexadecimal form, gives the txid.\<close>

lemma electrum_bytes_reverse:
  "txid_to_electrum_bytes (hex_of_bytes (rev (arr32 t))) = Some t"
proof -
  let ?bs = "rev (arr32 t)"
  have "electrum_byte (hex_of_bytes ?bs) i bs = Inr (bs[31 - i := ?bs ! i])" if "i < 32" for i bs
    using that by (simp add: electrum_byte_def del: add_2_eq_Suc')
  from foldR_fill [where p = "\<lambda>i. 31 - i" and n = 32 and a = "replicate 32 0", OF this] obtain r where r:
    "foldR (electrum_byte (hex_of_bytes ?bs)) [0..<32] (replicate 32 0) = Inr r" "length r = 32"
    "\<forall>i < 32. r ! (31 - i) = ?bs ! i"
    using bij_reverse [of 32] by auto
  have "r ! i = arr32 t ! i" if "i < 32" for i
    using r(3) [rule_format, of "31 - i"] that by (simp add: rev_nth)
  then have "r = arr32 t" using r(2) by (intro nth_equalityI) auto
  then show ?thesis using r(1) by (simp add: txid_to_electrum_bytes_def)
qed

section \<open>Responses\<close>

definition response_code :: "json \<Rightarrow> json option" where
  "response_code resp = Option.bind (json_field ''error'' resp) (json_field ''code'')"



section \<open>Which requests change what\<close>

definition changing_methods :: "string list" where
  "changing_methods = [''blockchain.headers.subscribe'', ''blockchain.scripthash.subscribe'',
                       ''blockchain.transaction.broadcast'']"

lemma query_state [simp]: "snd (query q s) = s"
  by (simp add: query_def readE_def)

lemma read_state [simp]: "snd (readE f s) = s"
  by (simp add: readE_def)

lemma return_state [simp]: "snd (returnE x s) = s" "snd (throwE e s) = s"
  by (simp_all add: returnE_def throwE_def)

lemma on_client_server [simp]: "snd (snd (on_client m s)) = snd s"
  by (simp add: on_client_def split: prod.split)

lemma on_server_client [simp]: "fst (snd (on_server m s)) = fst s"
  by (simp add: on_server_def split: prod.split)

lemma if_state:
  "P (snd (f s)) \<Longrightarrow> P (snd (g s)) \<Longrightarrow> P (snd ((if c then f else g) s))"
  by simp

lemma run_method_reads:
  assumes "m \<notin> set changing_methods"
  shows "snd (run_method S E m params s) = s"
proof -
  have "m \<noteq> ''blockchain.headers.subscribe''" "m \<noteq> ''blockchain.scripthash.subscribe''"
    "m \<noteq> ''blockchain.transaction.broadcast''"
    using assms by (auto simp only: changing_methods_def list.set insert_iff)
  note other = this [THEN if_not_P]
  show ?thesis
    unfolding run_method_def Let_def other
    by (intro if_state [where P = "\<lambda>x. x = s"] query_state read_state return_state)
qed

lemma run_method_server:
  assumes "m \<noteq> ''blockchain.transaction.broadcast''"
  shows "snd (snd (run_method S E m params s)) = snd s"
  unfolding run_method_def Let_def assms [THEN if_not_P]
  by (intro if_state [where P = "\<lambda>x. snd x = snd s"] on_client_server
      arg_cong [where f = snd] query_state read_state return_state)

lemma run_method_broadcast:
  "run_method S E ''blockchain.transaction.broadcast'' params s
     = on_server (handle_transaction_broadcast S E params) s"
  by (simp add: run_method_def Let_def)



section \<open>Ranges of headers\<close>

lemma headers_loop_ok:
  assumes "\<And>h. env_header E h = Inr (hdr h)"
  shows "headers_loop E hs acc n
    = Inr (acc @ concat (map (\<lambda>h. serialize_header_hex (env_bitcoin E) (the (hdr h)))
                             (takeWhile (\<lambda>h. hdr h \<noteq> None) hs)),
           n + of_nat (length (takeWhile (\<lambda>h. hdr h \<noteq> None) hs)))"
  using assms by (induction hs arbitrary: acc n) (auto split: option.split)

lemma u64_param_jnat:
  "i < length ps \<Longrightarrow> ps ! i = jnat (w :: u32) \<Longrightarrow> u64_param i (JArray ps) = Some (ucast w)"
proof -
  have "0 \<le> uint w \<and> uint w < 2 ^ 32" using uint_lt2p [of w] by simp
  moreover have "word_of_int (uint w) = (ucast w :: u64)" by (simp add: unsigned_ucast_eq)
  ultimately show "i < length ps \<Longrightarrow> ps ! i = jnat w \<Longrightarrow> u64_param i (JArray ps) = Some (ucast w)"
    by (simp add: u64_param_def jnat_def)
qed

lemma ucast_u64_u32 [simp]: "ucast (ucast (w :: u32) :: u64) = w"
  by (rule bit_word_eqI) (simp add: bit_simps)

lemma length_u32_range: "length (u32_range a b) < 2 ^ 32"
proof -
  have "unat b < 2 ^ LENGTH(32)" by (rule unsigned_less)
  then show ?thesis by (simp add: u32_range_def)
qed

text \<open>C31: A request for a range of headers answers the headers from the first height on, up to
  the first height that has none or the requested number, and counts them; the range ends
  at the largest height, and the announced maximum of 2016 headers bounds nothing.\<close>

theorem block_headers_range:
  assumes "\<And>h. env_header E h = Inr (hdr h)"
  shows "handle_block_headers E (JArray [jnat (start :: u32), jnat (number :: u32)])
    = (let hs = takeWhile (\<lambda>h. hdr h \<noteq> None)
                  (map of_nat [unat start ..< min (2 ^ 32 - 1) (unat start + unat number)])
       in Inr (JObject [(''count'', JInt (int (length hs))),
            (''hex'', JString (concat (map (\<lambda>h. serialize_header_hex (env_bitcoin E) (the (hdr h))) hs))),
            (''max'', JInt 2016)]))"
proof -
  let ?hs = "takeWhile (\<lambda>h. hdr h \<noteq> None) (u32_range start (saturating_add start number))"
  have "length ?hs < 2 ^ 32"
    using length_takeWhile_le [of "\<lambda>h. hdr h \<noteq> None"] length_u32_range by (rule order_le_less_trans)
  then have "uint (of_nat (length ?hs) :: u32) = int (length ?hs)"
    by (simp add: unsigned_of_nat take_bit_nat_eq_self uint_nat)
  moreover have "u32_range start (saturating_add start number)
      = map of_nat [unat start ..< min (2 ^ 32 - 1) (unat start + unat number)]"
    by (simp add: u32_range_def unat_saturating_add)
  ultimately show ?thesis
    by (simp add: handle_block_headers_def u64_param_jnat headers_loop_ok [OF assms] jnat_def Let_def)
qed

theorem block_headers_range_witness:
  "handle_block_headers ref_env (JArray [jnat (6 :: u32), jnat (5 :: u32)])
     = Inr (JObject [(''count'', JInt 2),
         (''hex'', JString (serialize_header_hex ref_bitcoin (ref_header 6)
                              @ serialize_header_hex ref_bitcoin (ref_header 7))), (''max'', JInt 2016)])"
proof -
  have "env_header ref_env h = Inr (if h \<le> 7 then Some (ref_header h) else None)" for h
    by (simp add: ref_env_def)
  from block_headers_range [OF this, of 6 5] show ?thesis
    by (simp add: upt_rec Let_def ref_env_def)
qed

section \<open>Broadcasting\<close>

lemma on_state_run:
  "on_state m sv = (fst (m (sv_state sv)), upd_state (snd (m (sv_state sv))) sv)"
  by (simp add: on_state_def zoomE_def split: prod.split)

lemma server_state [simp]:
  "sv_state (upd_state st sv) = st" "sv_state (upd_metrics f sv) = sv_state sv"
  "sv_state (broadcast_changes shs sv) = sv_state sv"
  "sv_changes (upd_state st sv) = sv_changes sv" "sv_changes (upd_metrics f sv) = sv_changes sv"
  "sv_changes (broadcast_changes shs sv) = broadcast shs (sv_changes sv)"
  by (simp_all add: sv_state_def upd_state_def upd_metrics_def broadcast_changes_def)

text \<open>The transaction that a request carries.\<close>

definition request_tx :: "bitcoin_lib \<Rightarrow> json \<Rightarrow> transaction option" where
  "request_tx B params =
     Option.bind (str_param 0 params) (\<lambda>hex.
       case bindR (hex_decode B hex) (deserialize_tx B) of Inl _ \<Rightarrow> None | Inr tx \<Rightarrow> Some tx)"

text \<open>What the handler does once the request carries a transaction.\<close>

lemma broadcast_run:
  "handle_transaction_broadcast S E params sv
    = (case request_tx (env_bitcoin E) params of
         None \<Rightarrow> (Inl (projl (fst (handle_transaction_broadcast S E params sv))), sv)
       | Some tx \<Rightarrow>
           let sv1 = upd_metrics inc_transactions_broadcast sv;
               run = track_pending_transaction_internal S (env_bitcoin E) tx (sv_state sv)
           in case env_broadcast E of
                None \<Rightarrow> (Inl ''transaction broadcast is only available in bridge mode'', sv1)
              | Some send_tx \<Rightarrow>
                  (case send_tx tx of
                     Inl e \<Rightarrow> (Inl (''broadcast failed: '' @ e), sv1)
                   | Inr _ \<Rightarrow>
                       (case fst run of
                          Inl e \<Rightarrow> (Inl (''failed to cache broadcast transaction: ''
                                            @ show_error (env_bitcoin E) e), upd_state (snd run) sv1)
                        | Inr shs \<Rightarrow>
                            (Inr (JString (txid_to_string (env_bitcoin E) (compute_txid (env_bitcoin E) tx))),
                             broadcast_changes shs (upd_state (snd run) sv1)))))"
  by (auto simp: handle_transaction_broadcast_def request_tx_def monad_defs bindR_def ok_or_def map_err_def
      string_err_def on_state_run Let_def split: option.splits sum.splits prod.splits)



end
