(* ===== verification/Recovery.thy ===== *)
theory Recovery
  imports Restart
begin

text \<open>
  The index can be opened again at any time. \<open>index_ok\<close> strengthens \<open>synced\<close> to an invariant
  that every operation of the indexer keeps; \<open>index_step\<close> is one such operation, and the
  states reached from an empty store are those a running program can leave behind.
\<close>

section \<open>The invariant\<close>

text \<open>
  Every stored history entry is in the journal of its height, and the journal of a height
  names history entries of that height only.
\<close>

definition history_logged :: "(bytes \<rightharpoonup> bytes) \<Rightarrow> (u32 \<times> block_action list) list \<Rightarrow> bool" where
  "history_logged H m \<longleftrightarrow>
     (\<forall>sh h k t i. H (history_key sh h k t i) \<noteq> None \<longrightarrow>
        (\<exists>key. (h, AHistory (history_key sh h k t i) key) \<in> journal_pairs m))
     \<and> (\<forall>h hk key. (h, AHistory hk key) \<in> journal_pairs m \<longrightarrow> (\<exists>sh k t i. hk = history_key sh h k t i))"

definition heights_ok :: "(script_hash \<times> tx_entry list) list \<Rightarrow> bool" where
  "heights_ok m \<longleftrightarrow> (\<forall>sh. \<forall>e \<in> set (cached m sh). te_height e \<noteq> - 1)"

definition unconfirmed :: "txid \<Rightarrow> 't index_state \<Rightarrow> bool" where
  "unconfirmed t st \<longleftrightarrow> (\<forall>h key. (h, ATx t key) \<notin> journal_pairs (by_height st))"

text \<open>What the invariant says apart from the pending view, which is rebuilt last.\<close>

definition index_core :: "'t sled \<Rightarrow> bitcoin_lib \<Rightarrow> 't index_state \<Rightarrow> bool" where
  "index_core S B st \<longleftrightarrow>
     journal_synced S st \<and> history_synced S st \<and> pending_synced S B st
     \<and> pindex_tip_height S (store st) = tip_height st
     \<and> outputs_wf (views S (store st)) \<and> history_logged (view S (ix_history (store st))) (by_height st)
     \<and> distinct (map fst (history st)) \<and> heights_ok (history st)
     \<and> (\<forall>(t, tx) \<in> set (pending_txs st). length (tx_output tx) \<le> 2 ^ 32)"

definition index_ok :: "'t sled \<Rightarrow> bitcoin_lib \<Rightarrow> 't index_state \<Rightarrow> bool" where
  "index_ok S B st \<longleftrightarrow> index_core S B st \<and> pending_ok B st"

lemma index_ok_synced: "index_ok S B st \<Longrightarrow> synced S B st"
  by (simp add: index_ok_def index_core_def synced_def)

lemma pending_synced_iff:
  "pending_synced S B st \<longleftrightarrow> list_synced S st
     \<and> (\<forall>(t, tx) \<in> set (pending_txs st). load_tx S B t (store st) = Inr (Some tx) \<and> unconfirmed t st)"
  by (simp add: pending_synced_def list_synced_def unconfirmed_def)

section \<open>Rolling back\<close>

lemma undo_action_trees:
  "v_history (undo_action a v) = (case a of AHistory k key \<Rightarrow> (v_history v)(k := None) | _ \<Rightarrow> v_history v)"
  "v_journal (undo_action a v) = (v_journal v)(action_journal_key a := None)"
  by (cases a; simp add: undo_action_def drop_journal_def split: option.split)+

lemma undo_history:
  "v_history (fold undo_action as v) k = (if \<exists>key. AHistory k key \<in> set as then None else v_history v k)"
proof (induction as arbitrary: v)
  case (Cons a as)
  show ?case unfolding fold_Cons comp_def Cons.IH undo_action_trees
    by (auto split: block_action.split)
qed simp

lemma undo_journal:
  "v_journal (fold undo_action as v) k
     = (if k \<in> action_journal_key ` set as then None else v_journal v k)"
proof (induction as arbitrary: v)
  case (Cons a as)
  show ?case unfolding fold_Cons comp_def Cons.IH undo_action_trees by auto
qed simp

lemma undo_wf: "outputs_wf v \<Longrightarrow> outputs_wf (fold undo_action as v)"
  by (induction as arbitrary: v) simp_all

lemma undone_other:
  "(\<forall>key. ATx t key \<notin> set as) \<Longrightarrow> fold undone_txs as m (arr32 t) = m (arr32 t)"
proof (induction as arbitrary: m)
  case (Cons a as)
  then show ?case by (cases a) auto
qed simp

lemma pairs_removed: "journal_pairs (hm_remove h m) = {(h', a) \<in> journal_pairs m. h' \<noteq> h}"
  by (auto simp: journal_pairs_def split: if_splits)

lemma journal_rollback:
  assumes sync: "journal_synced S st" and acts: "map_of (by_height st) h = Some as"
    and "by_height st' = hm_remove h (by_height st)"
    and "views S (store st') = fold undo_action (rev as) (views S (store st))"
  shows "journal_synced S st'"
proof -
  have key: "action_journal_key a = journal_key h' (action_sequence a)"
    if "(h', a) \<in> journal_pairs (by_height st)" for h' a
    using sync that by (auto simp: journal_synced_def journal_pairs_def)
  have pairs: "(h, a) \<in> journal_pairs (by_height st) \<longleftrightarrow> a \<in> set as" for a
    using acts by (simp add: journal_pairs_def)
  have "view S (ix_journal (store st')) k = Some v \<longleftrightarrow>
      (\<exists>(h', a) \<in> journal_pairs (by_height st'). k = action_journal_key a \<and> v = action_value a)" for k v
  proof -
    have "view S (ix_journal (store st')) k
        = (if k \<in> action_journal_key ` set as then None else view S (ix_journal (store st)) k)"
      using undo_journal [of "rev as" "views S (store st)" k] assms(4) by (metis set_rev views_simps(4))
    moreover have "view S (ix_journal (store st)) k = Some v \<longleftrightarrow>
        (\<exists>(h', a) \<in> journal_pairs (by_height st). k = action_journal_key a \<and> v = action_value a)"
      using sync by (simp add: journal_synced_def)
    moreover have "h' \<noteq> h \<longleftrightarrow> action_journal_key a \<notin> action_journal_key ` set as"
      if "(h', a) \<in> journal_pairs (by_height st)" for h' a
      using key [OF that] key pairs that by force
    ultimately show ?thesis by (auto simp: assms(3) pairs_removed)
  qed
  with sync show ?thesis by (simp add: journal_synced_def assms(3))
qed

lemma map_of_retain:
  assumes "distinct (map fst m)"
  shows "map_of (retain_history h m) sh
    = (case map_of m sh of None \<Rightarrow> None
       | Some es \<Rightarrow> let kept = filter (\<lambda>e. te_height e \<noteq> h) es in if kept = [] then None else Some kept)"
  using assms
proof (induction m)
  case (Cons x m)
  obtain sh' es where x: "x = (sh', es)" by (cases x)
  with Cons.prems have "map_of m sh' = None" by (simp add: map_of_eq_None_iff)
  with Cons x show ?case by (auto simp: retain_history_def Let_def)
qed (simp add: retain_history_def)

lemma cached_retain:
  "distinct (map fst m) \<Longrightarrow> cached (retain_history h m) sh = filter (\<lambda>e. te_height e \<noteq> h) (cached m sh)"
  by (simp add: cached_def map_of_retain Let_def split: option.split)

lemma retain_keys:
  assumes "distinct (map fst m)"
  shows "distinct (map fst (retain_history h m))" and "heights_ok m \<Longrightarrow> heights_ok (retain_history h m)"
proof -
  show "distinct (map fst (retain_history h m))"
    using assms unfolding retain_history_def
    by (intro distinct_map_filter) (simp add: comp_def case_prod_beta)
qed (auto simp: heights_ok_def cached_retain [OF assms])

lemma history_rollback:
  assumes "view_synced v m" and "history_logged (v_history v) b" and acts: "map_of b h = Some as"
    and "distinct (map fst m)"
  shows "view_synced (fold undo_action (rev as) v) (retain_history h m)"
proof -
  let ?v = "fold undo_action (rev as) v"
  have hist: "v_history ?v k = (if \<exists>key. AHistory k key \<in> set as then None else v_history v k)" for k
    by (simp add: undo_history)
  have gone: "(\<exists>key. AHistory (history_key sh h' k t i) key \<in> set as) \<longleftrightarrow> h' = h"
    if "v_history v (history_key sh h' k t i) \<noteq> None" for sh h' k t i
    using assms(2) acts that unfolding history_logged_def journal_pairs_def by fastforce
  have keys: "script_keys ?v sh = {k \<in> script_keys v sh. te_height (key_entry k) \<noteq> h}" for sh
  proof -
    have "v_history ?v k \<noteq> None \<longleftrightarrow> v_history v k \<noteq> None \<and> te_height (key_entry k) \<noteq> h" for k
    proof (cases "v_history v k")
      case (Some w)
      then obtain sh' h' kind t i where "k = history_key sh' h' kind t i"
        using assms(1) by (auto simp: view_synced_def)
      then show ?thesis using gone [of sh' h' kind t i] Some by (simp add: hist)
    qed (simp add: hist)
    then show ?thesis by (auto simp: script_keys_def)
  qed
  have "mset (cached (retain_history h m) sh) = image_mset key_entry (mset_set (script_keys ?v sh))" for sh
  proof -
    have fin: "finite (script_keys v sh)" and
      old: "mset (cached m sh) = image_mset key_entry (mset_set (script_keys v sh))"
      using assms(1) by (simp_all add: view_synced_def)
    have "mset (cached (retain_history h m) sh)
        = filter_mset (\<lambda>e. te_height e \<noteq> h) (image_mset key_entry (mset_set (script_keys v sh)))"
      by (simp add: cached_retain [OF assms(4)] flip: old)
    also have "\<dots> = image_mset key_entry
        (filter_mset (\<lambda>k. te_height (key_entry k) \<noteq> h) (mset_set (script_keys v sh)))"
      by (rule filter_mset_image_mset)
    finally show ?thesis by (simp add: filter_mset_mset_set fin keys)
  qed
  then show ?thesis
    using assms(1) by (auto simp: view_synced_def keys hist split: if_splits)
qed

lemma rollback_index_ok:
  assumes S: "sled_ok S" and ok: "index_ok S B st"
  shows "\<exists>st'. rollback_height S B h st = (Inr (), st') \<and> index_ok S B st'"
proof (cases "map_of (by_height st) h")
  case None
  obtain ix where ix: "rollback_tip S h st
      = (Inr (), st\<lparr>tip_height := (if tip_height st = h then saturating_sub h 1 else tip_height st), store := ix\<rparr>)"
    "views S ix = views S (store st)" "ix_txs ix = ix_txs (store st)"
    "pindex_tip_height S ix = (if tip_height st = h then saturating_sub h 1 else pindex_tip_height S (store st))"
    "load_pending_txids S ix = load_pending_txids S (store st)"
    using rollback_tip_ok [OF S] by blast
  let ?st' = "st\<lparr>tip_height := (if tip_height st = h then saturating_sub h 1 else tip_height st), store := ix\<rparr>"
  have run: "rollback_height S B h st = (Inr (), ?st')"
    using None ix(1) by (simp add: rollback_height_def bindE_def returnE_def)
  have trees: "view S (ix_journal ix) = view S (ix_journal (store st))"
    "view S (ix_history ix) = view S (ix_history (store st))"
    using ix(2) by (metis views_simps(4), metis views_simps(1))
  have "journal_synced S ?st'" "history_synced S ?st'"
    using ok trees ix(2)
    by (simp_all add: index_ok_def index_core_def journal_synced_def history_synced_view [OF S])
  moreover have "pending_synced S B ?st'"
    using ok ix(3,5) by (simp add: index_ok_def index_core_def pending_synced_def load_tx_def)
  ultimately have "index_ok S B ?st'"
    using ok ix(2,4) trees by (simp add: index_ok_def index_core_def)
  with run show ?thesis by blast
next
  case (Some as)
  have core: "journal_synced S st" "history_synced S st" "pending_synced S B st"
    "pindex_tip_height S (store st) = tip_height st" "outputs_wf (views S (store st))"
    "history_logged (view S (ix_history (store st))) (by_height st)" "distinct (map fst (history st))"
    "heights_ok (history st)" "\<forall>(t, tx) \<in> set (pending_txs st). length (tx_output tx) \<le> 2 ^ 32"
    and pend: "pending_ok B st"
    using ok by (simp_all add: index_ok_def index_core_def)
  obtain st' where st': "rollback_height S B h st = (Inr (), st')"
    "views S (store st') = fold undo_action (rev as) (views S (store st))"
    "by_height st' = hm_remove h (by_height st)" "history st' = retain_history h (history st)"
    "pending_txs st' = pending_txs st"
    "view S (ix_txs (store st')) = fold undone_txs (rev as) (view S (ix_txs (store st)))"
    "tip_height st' = (if tip_height st = h then saturating_sub h 1 else tip_height st)"
    "pindex_tip_height S (store st') = (if tip_height st = h then saturating_sub h 1 else pindex_tip_height S (store st))"
    "load_pending_txids S (store st') = load_pending_txids S (store st)"
    using rollback_height_ok [OF S core(5) Some] by blast
  have pairs: "journal_pairs (by_height st') = {(h', a) \<in> journal_pairs (by_height st). h' \<noteq> h}"
    by (simp add: st'(3) pairs_removed)
  have hist: "view S (ix_history (store st')) k
      = (if \<exists>key. AHistory k key \<in> set as then None else view S (ix_history (store st)) k)" for k
    using undo_history [of "rev as" "views S (store st)" k] st'(2) by (metis set_rev views_simps(1))
  have "history_synced S st'"
    using history_rollback [of "views S (store st)" "history st" "by_height st" h as] core(2,6,7) Some
    by (simp add: history_synced_view [OF S] st'(2,4))
  moreover have "history_logged (view S (ix_history (store st'))) (by_height st')"
    unfolding history_logged_def
  proof (intro conjI allI impI)
    fix sh h' k t i assume new: "view S (ix_history (store st')) (history_key sh h' k t i) \<noteq> None"
    then have old: "view S (ix_history (store st)) (history_key sh h' k t i) \<noteq> None"
      and "\<forall>key. AHistory (history_key sh h' k t i) key \<notin> set as" by (auto simp: hist split: if_splits)
    moreover from old obtain key where "(h', AHistory (history_key sh h' k t i) key) \<in> journal_pairs (by_height st)"
      using core(6) unfolding history_logged_def by blast
    moreover from calculation have "h' \<noteq> h" using Some by (auto simp: journal_pairs_def)
    ultimately show "\<exists>key. (h', AHistory (history_key sh h' k t i) key) \<in> journal_pairs (by_height st')"
      unfolding pairs by auto
  next
    fix h' hk key assume "(h', AHistory hk key) \<in> journal_pairs (by_height st')"
    then show "\<exists>sh k t i. hk = history_key sh h' k t i"
      using core(6) unfolding history_logged_def pairs by blast
  qed
  moreover have "load_tx S B t (store st') = Inr (Some tx) \<and> unconfirmed t st'"
    if "(t, tx) \<in> set (pending_txs st)" for t tx
  proof -
    have old: "load_tx S B t (store st) = Inr (Some tx)" "unconfirmed t st"
      using that core(3) by (auto simp: pending_synced_iff)
    then have "\<forall>key. ATx t key \<notin> set (rev as)"
      using Some by (auto simp: unconfirmed_def journal_pairs_def)
    then have "view S (ix_txs (store st')) (arr32 t) = view S (ix_txs (store st)) (arr32 t)"
      by (simp add: st'(6) undone_other)
    then show ?thesis
      using old load_tx_view [OF S, of "store st'" t "store st"] by (simp add: unconfirmed_def pairs)
  qed
  then have "pending_synced S B st'"
    using core(3) st'(5,9) by (auto simp: pending_synced_iff list_synced_def)
  moreover have "pending_ok B st'"
    using preservesD [OF preserves_rollback pend, of S h] st'(1) by simp
  ultimately have "index_ok S B st'"
    using core(4,5,7-9) journal_rollback [OF core(1) Some st'(3,2)] retain_keys [of "history st"]
    by (simp add: index_ok_def index_core_def st'(2,4,5,7,8) undo_wf)
  with st'(1) show ?thesis by blast
qed

section \<open>Connecting\<close>

lemma cached_pushes:
  "cached (history_push h r m) sh = cached m sh \<or> (\<exists>e. te_height e = h \<and> cached (history_push h r m) sh = cached m sh @ [e])"
  by (cases r) (auto simp: cached_def split: option.split)

lemma history_push_keys:
  assumes "distinct (map fst m)" and "heights_ok m" and "h \<noteq> - 1"
  shows "distinct (map fst (fold (history_push h) rs m)) \<and> heights_ok (fold (history_push h) rs m)"
  using assms(1,2)
proof (induction rs arbitrary: m)
  case (Cons r rs)
  have "distinct (map fst (hm_push sh e m))" for sh e
    using Cons.prems(1) by (simp add: hm_push_def distinct_update)
  then have "distinct (map fst (history_push h r m))"
    using Cons.prems(1) by (cases r) simp_all
  moreover have "heights_ok (history_push h r m)"
    unfolding heights_ok_def
  proof (intro allI ballI)
    fix sh e assume "e \<in> set (cached (history_push h r m) sh)"
    then show "te_height e \<noteq> - 1"
      using cached_pushes [of h r m sh] Cons.prems(2) assms(3) by (auto simp: heights_ok_def)
  qed
  ultimately show ?case using Cons.IH by simp
qed simp

lemma run_history:
  "v_history (fold (do_record h) xs v) k \<noteq> None \<longleftrightarrow>
     v_history v k \<noteq> None \<or> (\<exists>x \<in> set xs. \<exists>sh kd t i. snd x = RHistory sh kd t i \<and> k = history_key sh h kd t i)"
proof (induction xs arbitrary: v)
  case (Cons x xs)
  have "v_history (do_record h x v) k \<noteq> None \<longleftrightarrow>
      v_history v k \<noteq> None \<or> (\<exists>sh kd t i. snd x = RHistory sh kd t i \<and> k = history_key sh h kd t i)"
    by (cases "(h, x)" rule: record_action.cases) (auto simp: do_record_def Let_def split: option.splits)
  with Cons show ?case by auto
qed simp

lemma record_history:
  "AHistory hk key = record_action h x \<longleftrightarrow>
     (\<exists>sh k t i. snd x = RHistory sh k t i \<and> hk = history_key sh h k t i \<and> key = journal_key h (fst x))"
  by (cases "(h, x)" rule: record_action.cases) auto

lemma connect_index_ok:
  assumes S: "sled_ok S" and ok: "index_ok S B st" and h: "h \<noteq> - 1"
    and fresh: "fresh_block B h (txdata blk) (views S (store st))" and free: "map_of (by_height st) h = None"
  shows "\<exists>st'. apply_block S B blk h st = (Inr (), st') \<and> index_ok S B st'"
proof -
  let ?rs = "block_records B h (view S (ix_outputs (store st))) (txdata blk)"
  have core: "outputs_wf (views S (store st))" "history_logged (view S (ix_history (store st))) (by_height st)"
    "distinct (map fst (history st))" "heights_ok (history st)"
    "\<forall>(t, tx) \<in> set (pending_txs st). length (tx_output tx) \<le> 2 ^ 32"
    using ok by (simp_all add: index_ok_def index_core_def)
  obtain st' where st': "apply_block S B blk h st = (Inr (), st')"
    "views S (store st') = run_records h 0 ?rs (views S (store st))"
    "by_height st' = fold (hm_push h) (map (record_action h) (numbered 0 ?rs)) (by_height st)"
    "history st' = fold (history_push h) ?rs (history st)" "tx_settled S B (txdata blk) st st'"
    using apply_block_ok [OF S core(1)] by blast
  have "synced S B st'"
    using connect_synced [OF S core(1) index_ok_synced [OF ok] fresh free] st'(1) by auto
  moreover have pairs: "journal_pairs (by_height st')
      = journal_pairs (by_height st) \<union> (\<lambda>x. (h, record_action h x)) ` set (numbered 0 ?rs)"
    using pairs_connected [OF free] by (simp add: st'(3))
  have hist: "view S (ix_history (store st')) k \<noteq> None \<longleftrightarrow> view S (ix_history (store st)) k \<noteq> None
      \<or> (\<exists>x \<in> set (numbered 0 ?rs). \<exists>sh kd t i. snd x = RHistory sh kd t i \<and> k = history_key sh h kd t i)" for k
    using run_history [of h "numbered 0 ?rs" "views S (store st)" k] st'(2)
    by (metis run_records_def views_simps(1))
  have "history_logged (view S (ix_history (store st'))) (by_height st')"
    unfolding history_logged_def
  proof (intro conjI allI impI)
    fix sh h' k t i assume "view S (ix_history (store st')) (history_key sh h' k t i) \<noteq> None"
    then consider "view S (ix_history (store st)) (history_key sh h' k t i) \<noteq> None"
      | x where "x \<in> set (numbered 0 ?rs)" "snd x = RHistory sh k t i" "h' = h"
      unfolding hist by auto
    then show "\<exists>key. (h', AHistory (history_key sh h' k t i) key) \<in> journal_pairs (by_height st')"
    proof cases
      case 1
      then show ?thesis using core(2) unfolding history_logged_def pairs by blast
    next
      case 2
      then have "AHistory (history_key sh h k t i) (journal_key h (fst x)) = record_action h x"
        by (simp add: record_history)
      with 2 show ?thesis unfolding pairs by blast
    qed
  next
    fix h' hk key assume "(h', AHistory hk key) \<in> journal_pairs (by_height st')"
    then consider "(h', AHistory hk key) \<in> journal_pairs (by_height st)"
      | x where "h' = h" "AHistory hk key = record_action h x" unfolding pairs by auto
    then show "\<exists>sh k t i. hk = history_key sh h' k t i"
    proof cases
      case 1
      then show ?thesis using core(2) unfolding history_logged_def by blast
    next
      case 2
      then show ?thesis by (auto simp: record_history)
    qed
  qed
  moreover have "outputs_wf (views S (store st'))" using core(1) by (simp add: st'(2))
  moreover have "pending_txs st' = fold hm_remove (map (compute_txid B) (txdata blk)) (pending_txs st)"
    using st'(5) by (simp add: tx_settled_def fold_map comp_def)
  then have "set (pending_txs st') \<subseteq> set (pending_txs st)" by (auto simp: fold_hm_remove)
  ultimately have "index_ok S B st'"
    using history_push_keys [OF core(3,4) h, of ?rs] core(5)
    by (auto simp: index_ok_def index_core_def synced_def st'(4))
  with st'(1) show ?thesis by blast
qed

section \<open>Pending transactions\<close>

lemma core_pending:
  assumes "index_core S B st" and "same_chain (store st) (store st')"
    and "by_height st' = by_height st" "history st' = history st" "tip_height st' = tip_height st"
    and "list_synced S st'" and "pindex_tip_height S (store st') = pindex_tip_height S (store st)"
    and "\<forall>(t, tx) \<in> set (pending_txs st'). load_tx S B t (store st') = Inr (Some tx)
           \<and> unconfirmed t st \<and> length (tx_output tx) \<le> 2 ^ 32"
  shows "index_core S B st'"
proof -
  have trees: "ix_journal (store st') = ix_journal (store st)" "ix_history (store st') = ix_history (store st)"
    "views S (store st') = views S (store st)"
    using assms(2) same_chain_views [OF assms(2)] by (simp_all add: same_chain_def)
  have old: "journal_synced S st" "history_synced S st" using assms(1) by (simp_all add: index_core_def)
  then have "journal_synced S st'" unfolding journal_synced_def trees assms(3) by blast
  moreover have "history_synced S st'"
    using old(2)
    unfolding history_synced_def history_wf_def history_keys_of_def cached_history_def trees assms(4) .
  moreover have "pending_synced S B st'"
    using assms(3,6,8) by (auto simp: pending_synced_iff unconfirmed_def)
  moreover have "pindex_tip_height S (store st') = tip_height st'"
    using assms(1) by (simp add: index_core_def assms(5,7))
  moreover have "outputs_wf (views S (store st'))" "heights_ok (history st')" "distinct (map fst (history st'))"
    "history_logged (view S (ix_history (store st'))) (by_height st')"
    using assms(1) by (simp_all add: index_core_def trees assms(3,4))
  moreover have "\<forall>(t, tx) \<in> set (pending_txs st'). length (tx_output tx) \<le> 2 ^ 32"
    using assms(8) by blast
  ultimately show ?thesis by (simp only: index_core_def simp_thms)
qed

lemma core_rebuild [simp]:
  assumes "index_core S B st"
  shows "index_core S B (rebuild_pending_view B st)"
  by (rule core_pending [OF assms])
    (use assms in \<open>auto simp: same_chain_def index_core_def pending_synced_iff list_synced_def\<close>)

lemma pindex_tip_list [simp]:
  "sled_ok S \<Longrightarrow> pindex_tip_height S (ix\<lparr>ix_meta := ins S PENDING_TXIDS_KEY v (ix_meta ix)\<rparr>)
     = pindex_tip_height S ix"
  by (simp add: pindex_tip_height_def sled_simps)

named_theorems core_preserved \<open>operations that keep the invariant apart from the pending view\<close>

lemma core_drop [core_preserved]:
  assumes S: "sled_ok S"
  shows "preserves (index_core S B) (drop_pending S t)"
  unfolding preserves_def
proof (intro allI impI)
  fix st assume core: "index_core S B st"
  then obtain ts where ts: "load_pending_txids S (store st) = Inr ts" "set ts = fst ` set (pending_txs st)"
    by (auto simp: index_core_def pending_synced_iff list_synced_def)
  let ?st' = "snd (drop_pending S t st)"
  have st': "?st' = st\<lparr>pending_txs := hm_remove t (pending_txs st),
      store := (store st)\<lparr>ix_meta := ins S PENDING_TXIDS_KEY
                 (encode_txid_list (filter (\<lambda>e. e \<noteq> t) ts)) (ix_meta (store st))\<rparr>\<rparr>"
    using delete_pending_txid_ok [OF S ts(1)] by (simp add: drop_pending_def monad_defs on_store_def)
  have "{e. e \<in> fst ` set (pending_txs st) \<and> e \<noteq> t} = fst ` {p \<in> set (pending_txs st). fst p \<noteq> t}"
    by auto
  then have "list_synced S ?st'" using S ts(2) by (simp add: st' list_synced_def)
  moreover have "load_tx S B u (store ?st') = load_tx S B u (store st)" for u
    by (simp add: st' load_tx_def)
  ultimately show "index_core S B ?st'"
    using core S by (intro core_pending [OF core]) (auto simp: st' same_chain_def index_core_def pending_synced_iff)
qed

lemma core_modify_rebuild [core_preserved]: "preserves (index_core S B) (modifyE (rebuild_pending_view B))"
  by (rule preserves_modifyE) simp

lemma core_forget_internal [core_preserved]:
  "sled_ok S \<Longrightarrow> preserves (index_core S B) (forget_pending_transaction_internal S B t)"
  unfolding forget_pending_transaction_internal_def by (intro preserves_intros core_preserved)

lemma core_forget_chain_internal [core_preserved]:
  assumes "sled_ok S"
  shows "preserves (index_core S B) (forget_pending_transaction_chain_internal S B t)"
proof -
  have "preserves (index_core S B) (bindE (foldE (\<lambda>c _. drop_pending S c) removed ()) (\<lambda>_.
          bindE (modifyE (rebuild_pending_view B)) (\<lambda>_. returnE affected)))"
    for removed and affected :: "script_hash list"
    by (intro preserves_intros core_preserved assms)
  then show ?thesis
    by (simp add: preserves_def forget_pending_transaction_chain_internal_def case_prod_beta)
qed

lemma core_track:
  assumes S: "sled_ok S" and B: "bitcoin_ok B" and ok: "index_ok S B st"
    and new: "unconfirmed (compute_txid B tx) st" and len: "length (tx_output tx) \<le> 2 ^ 32"
  shows "index_core S B (snd (track_pending_transaction_internal S B tx st))"
proof -
  let ?t = "compute_txid B tx"
  let ?forget = "foldE (\<lambda>conflict affected.
        bindE (forget_pending_transaction_chain_internal S B conflict) (\<lambda>shs.
          returnE (List.union affected shs))) (pending_conflicting_txids B tx st) []"
  obtain aff st1 where st1: "?forget st = (Inr aff, st1)" and same: "by_height st1 = by_height st"
    using forget_conflicts [of S B "pending_conflicting_txids B tx st" "[]" st] by blast
  have "preserves (index_core S B) ?forget"
    by (intro preserves_intros core_preserved S)
  from preservesD [OF this, of st] ok st1 have core: "index_core S B st1"
    by (simp add: index_ok_def)
  have "preserves (pending_ok B) ?forget" by (intro preserves_intros pending_preserved)
  from preservesD [OF this, of st] ok st1 have "pending_ok B st1" by (simp add: index_ok_def)
  then have keyed: "distinct (map fst (pending_txs st1))" by (simp add: pending_ok_def pending_keyed_def)
  obtain ts where ts: "load_pending_txids S (store st1) = Inr ts" "set ts = fst ` set (pending_txs st1)"
    using core by (auto simp: index_core_def pending_synced_iff list_synced_def)
  let ?ts = "if ?t \<in> set ts then ts else ts @ [?t]"
  let ?ix = "(store st1)\<lparr>ix_txs := ins S (arr32 ?t) (serialize_tx B tx) (ix_txs (store st1)),
      ix_meta := ins S PENDING_TXIDS_KEY (encode_txid_list ?ts) (ix_meta (store st1))\<rparr>"
  let ?st2 = "st1\<lparr>store := ?ix, pending_txs := hm_insert ?t tx (pending_txs st1)\<rparr>"
  have "load_pending_txids S ((store st1)\<lparr>ix_txs := m\<rparr>) = Inr ts" for m
    using ts(1) by (simp add: load_pending_txids_def)
  note stored = store_pending_txid_ok [OF S this]
  have run: "snd (track_pending_transaction_internal S B tx st) = rebuild_pending_view B ?st2"
    unfolding track_pending_transaction_internal_def
    by (subst bindE_ok, rule st1) (use S in \<open>simp add: monad_defs on_store_def store_ok stored\<close>)
  have "list_synced S ?st2"
  proof -
    have "load_pending_txids S ?ix = Inr ?ts" using S by simp
    then show ?thesis using ts(2) by (auto simp: list_synced_def)
  qed
  moreover have "load_tx S B u ?ix = Inr (Some d) \<and> unconfirmed u st1 \<and> length (tx_output d) \<le> 2 ^ 32"
    if "(u, d) \<in> set (hm_insert ?t tx (pending_txs st1))" for u d
  proof (cases "u = ?t")
    case True
    then show ?thesis
      using that in_set_hm_insert [OF keyed] S B new len
      by (auto simp: load_tx_def sled_simps unconfirmed_def same)
  next
    case False
    then have "(u, d) \<in> set (pending_txs st1)" using that in_set_hm_insert [OF keyed] by auto
    then have "load_tx S B u (store st1) = Inr (Some d)" "unconfirmed u st1" "length (tx_output d) \<le> 2 ^ 32"
      using core by (auto simp: index_core_def pending_synced_iff)
    then show ?thesis
      using False S load_tx_view [OF S, of ?ix u "store st1"] by (simp add: sled_simps)
  qed
  moreover have "pindex_tip_height S ?ix = pindex_tip_height S (store st1)"
    using S by (simp add: pindex_tip_height_def sled_simps)
  ultimately have "index_core S B ?st2"
    by (intro core_pending [OF core]) (auto simp: same_chain_def)
  then show ?thesis unfolding run by (rule core_rebuild)
qed

section \<open>Opening the index again\<close>

lemma journal_synced_cong:
  assumes "store st' = store st" and "map_of (by_height st') = map_of (by_height st)"
  shows "journal_synced S st' = journal_synced S st"
  by (simp add: journal_synced_def journal_pairs_def assms)

lemma reopen_index_ok:
  assumes S: "sled_ok S" and ok: "index_ok S B st"
  shows "\<exists>st'. new_index_state S B (Inr (store st)) = Inr st' \<and> index_ok S B st'"
proof -
  obtain st' where st': "new_index_state S B (Inr (store st)) = Inr st'"
    "map_of (by_height st') = map_of (by_height st)"
    "\<forall>sh. mset (cached_history st' sh) = mset (cached_history st sh)"
    "map_of (pending_txs st') = map_of (pending_txs st)"
    "tip_height st' = tip_height st" "store st' = store st" "pending_ok B st'"
    "distinct (map fst (history st'))"
    using reopen_ok [OF S index_ok_synced [OF ok]] by blast
  have core: "index_core S B st" and pend: "pending_ok B st" using ok by (simp_all add: index_ok_def)
  have "set (pending_txs st') = set (pending_txs st)"
    using pend st'(4,7) unfolding pending_ok_def pending_keyed_def by (metis map_of_inject_set)
  moreover have "journal_pairs (by_height st') = journal_pairs (by_height st)"
    by (simp add: journal_pairs_def st'(2))
  moreover have "heights_ok (history st')"
  proof -
    have "set (cached (history st') sh) = set (cached (history st) sh)" for sh
      using st'(3) mset_eq_setD [of "cached (history st') sh" "cached (history st) sh"]
      by (simp add: cached_history_def cached_def)
    with core show ?thesis by (simp add: index_core_def heights_ok_def)
  qed
  ultimately have "index_core S B st'"
    using core st'(3,5,6,8) journal_synced_cong [OF st'(6,2), of S]
    by (simp add: index_core_def history_synced_def pending_synced_def history_logged_def)
  with st'(1,7) show ?thesis by (simp add: index_ok_def)
qed

section \<open>Everything that happens to an index\<close>

text \<open>
  A block that is connected is new on top of the index; a transaction becomes pending while
  no connected block contains it. Nothing is asked of what is disconnected or forgotten,
  nor of when the program ends and opens the index again.
\<close>

inductive index_step :: "'t sled \<Rightarrow> bitcoin_lib \<Rightarrow> 't index_state \<Rightarrow> 't index_state \<Rightarrow> bool" for S B where
  step_connect: "fresh_block B h (txdata blk) (views S (store st)) \<Longrightarrow> map_of (by_height st) h = None \<Longrightarrow>
    h \<noteq> - 1 \<Longrightarrow> index_step S B st (snd (apply_block S B blk h st))"
| step_disconnect: "index_step S B st (snd (rollback_height S B h st))"
| step_track: "unconfirmed (compute_txid B tx) st \<Longrightarrow> length (tx_output tx) \<le> 2 ^ 32 \<Longrightarrow>
    index_step S B st (snd (track_pending_transaction_internal S B tx st))"
| step_restore: "(\<And>tx. load_tx S B t (store st) = Inr (Some tx) \<Longrightarrow>
      unconfirmed (compute_txid B tx) st \<and> length (tx_output tx) \<le> 2 ^ 32) \<Longrightarrow>
    index_step S B st (snd (restore_pending_transaction S B t st))"
| step_store: "map_of (pending_txs st) (compute_txid B tx) \<in> {None, Some tx} \<Longrightarrow>
    index_step S B st (snd (store_transaction S B tx st))"
| step_forget: "index_step S B st (snd (forget_pending_transaction S B t st))"
| step_forget_chain: "index_step S B st (snd (forget_pending_transaction_chain S B t st))"
| step_reopen: "new_index_state S B (Inr (store st)) = Inr st' \<Longrightarrow> index_step S B st st'"

lemma track_index_ok:
  assumes "sled_ok S" and "bitcoin_ok B" and ok: "index_ok S B st"
    and "unconfirmed (compute_txid B tx) st" and "length (tx_output tx) \<le> 2 ^ 32"
  shows "index_ok S B (snd (track_pending_transaction_internal S B tx st))"
  using core_track [OF assms] preservesD [OF preserves_track, of B st S tx] ok
  by (simp add: index_ok_def)

lemma restore_index_ok:
  assumes "sled_ok S" and "bitcoin_ok B" and ok: "index_ok S B st"
    and guard: "\<And>tx. load_tx S B t (store st) = Inr (Some tx) \<Longrightarrow>
      unconfirmed (compute_txid B tx) st \<and> length (tx_output tx) \<le> 2 ^ 32"
  shows "index_ok S B (snd (restore_pending_transaction S B t st))"
proof -
  have "snd (restore_pending_transaction S B t st) = st
      \<or> (\<exists>tx. load_tx S B t (store st) = Inr (Some tx)
            \<and> snd (restore_pending_transaction S B t st) = snd (track_pending_transaction_internal S B tx st))"
  proof (cases "load_tx S B t (store st)")
    case (Inr r)
    then show ?thesis
      by (cases r) (auto simp: restore_pending_transaction_def bindE_def readE_def returnE_def
          split: prod.split sum.split)
  qed (simp add: restore_pending_transaction_def bindE_def readE_def)
  then show ?thesis using track_index_ok [OF assms(1-3)] guard ok by metis
qed

lemma store_index_ok:
  assumes S: "sled_ok S" and B: "bitcoin_ok B" and ok: "index_ok S B st"
    and guard: "map_of (pending_txs st) (compute_txid B tx) \<in> {None, Some tx}"
  shows "index_ok S B (snd (store_transaction S B tx st))"
proof -
  let ?t = "compute_txid B tx"
  let ?st' = "st\<lparr>store := (store st)\<lparr>ix_txs := ins S (arr32 ?t) (serialize_tx B tx) (ix_txs (store st))\<rparr>\<rparr>"
  have run: "snd (store_transaction S B tx st) = ?st'"
    using S by (simp add: store_transaction_def on_store_def monad_defs store_ok)
  have core: "index_core S B st" and pend: "pending_ok B st" using ok by (simp_all add: index_ok_def)
  have "load_tx S B u (store ?st') = Inr (Some d) \<and> unconfirmed u st \<and> length (tx_output d) \<le> 2 ^ 32"
    if mem: "(u, d) \<in> set (pending_txs st)" for u d
  proof -
    have old: "load_tx S B u (store st) = Inr (Some d)" "unconfirmed u st" "length (tx_output d) \<le> 2 ^ 32"
      using mem core by (auto simp: index_core_def pending_synced_iff)
    have "map_of (pending_txs st) u = Some d"
      using mem pend by (simp add: pending_ok_def pending_keyed_def)
    then have "u = ?t \<Longrightarrow> d = tx" using guard by auto
    then show ?thesis
      using old S B by (cases "u = ?t") (auto simp: load_tx_def sled_simps)
  qed
  then have "index_core S B ?st'"
    using core by (intro core_pending [OF core])
      (auto simp: same_chain_def index_core_def pending_synced_iff list_synced_def
        load_pending_txids_def pindex_tip_height_def)
  then show ?thesis using pend by (simp add: run index_ok_def)
qed

lemma forget_index_ok:
  assumes S: "sled_ok S" and ok: "index_ok S B st"
  shows "index_ok S B (snd (forget_pending_transaction S B t st))"
    and "index_ok S B (snd (forget_pending_transaction_chain S B t st))"
proof -
  have "snd (forget_pending_transaction S B t st) = st
      \<or> snd (forget_pending_transaction S B t st) = snd (forget_pending_transaction_internal S B t st)"
    by (auto simp: forget_pending_transaction_def forget_pending_transaction_internal_def drop_pending_def
        monad_defs split: option.split prod.splits)
  moreover have "index_ok S B (snd (forget_pending_transaction_internal S B t st))"
    using ok preservesD [OF core_forget_internal [OF S]] preservesD [OF preserves_forget_internal]
    by (auto simp: index_ok_def)
  ultimately show "index_ok S B (snd (forget_pending_transaction S B t st))" using ok by metis
  have "snd (forget_pending_transaction_chain S B t st) = st
      \<or> snd (forget_pending_transaction_chain S B t st) = snd (forget_pending_transaction_chain_internal S B t st)"
    by (auto simp: forget_pending_transaction_chain_def monad_defs split: prod.splits sum.splits)
  moreover have "index_ok S B (snd (forget_pending_transaction_chain_internal S B t st))"
    using ok preservesD [OF core_forget_chain_internal [OF S]] preservesD [OF preserves_forget_chain_internal]
    by (auto simp: index_ok_def)
  ultimately show "index_ok S B (snd (forget_pending_transaction_chain S B t st))" using ok by metis
qed

lemma index_step_ok:
  assumes "index_step S B st st'" and "sled_ok S \<and> bitcoin_ok B \<and> index_ok S B st"
  shows "sled_ok S \<and> bitcoin_ok B \<and> index_ok S B st'"
  using assms
proof (cases rule: index_step.cases)
  case (step_connect h blk)
  then show ?thesis using connect_index_ok [of S B st h blk] assms(2) by fastforce
next
  case (step_disconnect h)
  then show ?thesis using rollback_index_ok [of S B st h] assms(2) by fastforce
next
  case step_reopen
  then show ?thesis using reopen_index_ok [of S B st] assms(2) by fastforce
qed (use assms(2) track_index_ok restore_index_ok store_index_ok forget_index_ok in blast)+

interpretation index: machine "index_step S B" "\<lambda>st. sled_ok S \<and> bitcoin_ok B \<and> index_ok S B st" for S B
  by unfold_locales (rule index_step_ok)

section \<open>Property\<close>

lemma empty_index_ok:
  assumes S: "sled_ok S" and empty: "empty_index S ix"
  shows "index_ok S B (empty_state S ix)"
proof -
  have "view S (ix_history ix) = (\<lambda>_. None)" "view S (ix_outputs ix) = (\<lambda>_. None)"
    "view S (ix_journal ix) = (\<lambda>_. None)" "view S (ix_meta ix) = (\<lambda>_. None)"
    using empty by (simp_all add: empty_index_def)
  then show ?thesis
    using S
    by (auto simp: index_ok_def index_core_def empty_state_def journal_synced_def journal_pairs_def
        history_synced_view view_synced_def script_keys_def cached_def pending_synced_def
        load_pending_txids_def sled_simps outputs_wf_def history_logged_def heights_ok_def
        pending_ok_def pending_keyed_def pending_view_ok_def rebuild_pending_view_def)
qed


lemma ref_empty_index: "empty_index ref_sled ref_pindex"
  by (simp add: empty_index_def ref_pindex_def view_ref_nil)

lemma ref_empty_fresh:
  "fresh_block ref_bitcoin 7 [ref_tx 1 [ref_in 0 (- 1)] [ref_out [1] 25]]
     (views ref_sled (store (empty_state ref_sled ref_pindex)))"
proof -
  let ?tx = "ref_tx 1 [ref_in 0 (- 1)] [ref_out [1] 25]"
  have "length (block_records ref_bitcoin 7 O' [?tx]) \<le> 2 ^ 32" for O'
    using length_tx_records [of ref_bitcoin O' ?tx] by simp
  then show ?thesis
    by (simp add: fresh_block_def empty_state_def ref_pindex_def view_ref_nil tx_prevouts_def
        tx_outpoints_def absent_in_def)
qed


end
