(* ===== verification/ReorgSpec.thy ===== *)
theory ReorgSpec
  imports ChainSpec Indexer
begin

text \<open>
  Reorganisations: the events of a branch of blocks, and those that take the branch back,
  from its last block to its first, as the indexer's thread handles them.
\<close>

section \<open>Every event takes effect\<close>

text \<open>What the tip does, and which counter an event belongs to.\<close>

fun tip_step :: "block_event \<Rightarrow> u32 \<Rightarrow> u32" where
  "tip_step (Connected b h) tip = h"
| "tip_step (Disconnected bh h) tip = (if tip = h then saturating_sub h 1 else tip)"
| "tip_step (Synced h bh) tip = tip"

fun is_connected :: "block_event \<Rightarrow> bool" where
  "is_connected (Connected b h) = True"
| "is_connected e = False"

fun is_disconnected :: "block_event \<Rightarrow> bool" where
  "is_disconnected (Disconnected bh h) = True"
| "is_disconnected e = False"

lemma run_events_simps [simp]:
  "run_events S B [] ind = ind"
  "run_events S B (e # es) ind = run_events S B es (handle_event S B e ind)"
  "run_events S B (es @ es') ind = run_events S B es' (run_events S B es ind)"
  by (simp_all add: run_events_def)

lemma rollback_total:
  assumes S: "sled_ok S" and wf: "outputs_wf (views S (store st))"
  shows "\<exists>st'. rollback_height S B h st = (Inr (), st') \<and> outputs_wf (views S (store st'))
    \<and> tip_height st' = (if tip_height st = h then saturating_sub h 1 else tip_height st)"
proof (cases "map_of (by_height st) h")
  case None
  then show ?thesis
    using rollback_tip_ok [OF S, of h st] wf by (auto simp: rollback_height_def bindE_def returnE_def)
next
  case (Some as)
  have "outputs_wf (fold undo_action xs v)" if "outputs_wf v" for xs v
    using that by (induction xs arbitrary: v) simp_all
  then show ?thesis using rollback_height_ok [OF S wf Some] wf by metis
qed

lemma event_ok:
  assumes S: "sled_ok S" and wf: "outputs_wf (views S (store (state ind)))"
  shows "outputs_wf (views S (store (state (handle_event S B e ind))))"
    and "tip_height (state (handle_event S B e ind)) = tip_step e (tip_height (state ind))"
    and "ixr_metrics (handle_event S B e ind)
      = (if is_connected e then inc_blocks_indexed (ixr_metrics ind)
         else if is_disconnected e then inc_blocks_rolled_back (ixr_metrics ind) else ixr_metrics ind)"
proof -
  have "outputs_wf (views S (store (state (handle_event S B e ind))))
    \<and> tip_height (state (handle_event S B e ind)) = tip_step e (tip_height (state ind))
    \<and> ixr_metrics (handle_event S B e ind)
      = (if is_connected e then inc_blocks_indexed (ixr_metrics ind)
         else if is_disconnected e then inc_blocks_rolled_back (ixr_metrics ind) else ixr_metrics ind)"
  proof (cases e)
    case (Connected b h)
    obtain st' where "apply_block S B b h (state ind) = (Inr (), st')" "tip_height st' = h"
      "outputs_wf (views S (store st'))"
      using apply_block_ok [OF S wf, of B b h] wf by auto
    then show ?thesis by (simp add: Connected handle_event_def)
  next
    case (Disconnected bh h)
    then show ?thesis
      using rollback_total [OF S wf, of B h] by (auto simp: handle_event_def)
  next
    case (Synced h bh)
    then show ?thesis using wf by (simp add: handle_event_def)
  qed
  then show "outputs_wf (views S (store (state (handle_event S B e ind))))"
    and "tip_height (state (handle_event S B e ind)) = tip_step e (tip_height (state ind))"
    and "ixr_metrics (handle_event S B e ind)
      = (if is_connected e then inc_blocks_indexed (ixr_metrics ind)
         else if is_disconnected e then inc_blocks_rolled_back (ixr_metrics ind) else ixr_metrics ind)"
    by blast+
qed

lemma events_ok:
  assumes "sled_ok S" and "outputs_wf (views S (store (state ind)))"
  shows "tip_height (state (run_events S B es ind)) = fold tip_step es (tip_height (state ind))"
    and "m_blocks_indexed (ixr_metrics (run_events S B es ind))
      = m_blocks_indexed (ixr_metrics ind) + of_nat (length (filter is_connected es))"
    and "m_blocks_rolled_back (ixr_metrics (run_events S B es ind))
      = m_blocks_rolled_back (ixr_metrics ind) + of_nat (length (filter is_disconnected es))"
  using assms(2)
  by (induction es arbitrary: ind)
    (auto simp: event_ok [OF assms(1)] metric_defs elim!: is_connected.elims is_disconnected.elims)

section \<open>Branches\<close>

definition connect_op :: "'t sled \<Rightarrow> bitcoin_lib \<Rightarrow> u32 \<times> block \<Rightarrow> 't index_state \<Rightarrow> 't index_state" where
  "connect_op S B x st = snd (apply_block S B (snd x) (fst x) st)"

definition disconnect_op :: "'t sled \<Rightarrow> bitcoin_lib \<Rightarrow> u32 \<times> block \<Rightarrow> 't index_state \<Rightarrow> 't index_state" where
  "disconnect_op S B x st = snd (rollback_height S B (fst x) st)"

definition connectable :: "'t sled \<Rightarrow> bitcoin_lib \<Rightarrow> u32 \<times> block \<Rightarrow> 't index_state \<Rightarrow> bool" where
  "connectable S B x st \<longleftrightarrow> sled_ok S \<and> outputs_wf (views S (store st))
     \<and> fresh_block B (fst x) (txdata (snd x)) (views S (store st)) \<and> height_unused (fst x) st"

interpretation chain: undo_log "connect_op S B" "disconnect_op S B" "connectable S B" "same_index S" for S B
proof
  fix x st t assume ok: "connectable S B x st" and same: "same_index S t (connect_op S B x st)"
  then have pre: "sled_ok S" "outputs_wf (views S (store st))"
    "fresh_block B (fst x) (txdata (snd x)) (views S (store st))" "height_unused (fst x) st"
    by (simp_all add: connectable_def)
  obtain st1 where st1: "apply_block S B (snd x) (fst x) st = (Inr (), st1)"
    using apply_block_ok [OF pre(1,2)] by blast
  from disconnect_connected [OF pre st1, of t] same st1 show "same_index S (disconnect_op S B x t) st"
    by (auto simp: connect_op_def disconnect_op_def)
qed simp

text \<open>The blocks of a branch with their heights, and the events of its two directions.\<close>

fun branch_at :: "u32 \<Rightarrow> block list \<Rightarrow> (u32 \<times> block) list" where
  "branch_at h [] = []"
| "branch_at h (b # bs) = (h, b) # branch_at (h + 1) bs"

definition connect_event :: "u32 \<times> block \<Rightarrow> block_event" where
  "connect_event x = Connected (snd x) (fst x)"

definition disconnect_event :: "bitcoin_lib \<Rightarrow> u32 \<times> block \<Rightarrow> block_event" where
  "disconnect_event B x = Disconnected (block_hash B (header (snd x))) (fst x)"

definition reorg_events :: "bitcoin_lib \<Rightarrow> u32 \<Rightarrow> block list \<Rightarrow> block_event list" where
  "reorg_events B h bs
     = map connect_event (branch_at h bs) @ map (disconnect_event B) (rev (branch_at h bs))"

text \<open>Each block of the branch is fresh on top of the blocks before it.\<close>

definition fresh_branch :: "'t sled \<Rightarrow> bitcoin_lib \<Rightarrow> u32 \<Rightarrow> block list \<Rightarrow> 't index_state \<Rightarrow> bool" where
  "fresh_branch S B h bs st \<longleftrightarrow> allowed_run (connectable S B) (connect_op S B) (branch_at h bs) st"

lemma event_states:
  "state (run_events S B (map connect_event xs) ind) = fold (connect_op S B) xs (state ind)"
  "state (run_events S B (map (disconnect_event B) xs) ind) = fold (disconnect_op S B) xs (state ind)"
  by (induction xs arbitrary: ind)
    (simp_all add: connect_event_def disconnect_event_def connect_op_def disconnect_op_def
      handle_event_def split: prod.split sum.split)

lemma length_branch [simp]: "length (branch_at h bs) = length bs"
  by (induction h bs rule: branch_at.induct) simp_all

lemma reorg_counts:
  "length (filter is_connected (reorg_events B h bs)) = length bs"
  "length (filter is_disconnected (reorg_events B h bs)) = length bs"
  by (simp_all add: reorg_events_def connect_event_def disconnect_event_def filter_map comp_def)

lemma saturating_pred: "(h :: u32) + 1 \<noteq> 0 \<Longrightarrow> saturating_sub (h + 1) 1 = h"
  by (simp add: saturating_sub_def word_less_nat_alt unat_eq_zero word_le_nat_alt
      Suc_le_eq unat_gt_0)

lemma next_height:
  assumes "unat h + Suc (Suc n) \<le> 2 ^ 32"
  shows "h + 1 \<noteq> (0 :: u32)" and "unat (h + 1) + Suc n \<le> 2 ^ 32"
proof -
  have "unat (h + 1) = unat h + 1"
    using assms by (simp add: unat_word_ariths)
  then show "h + 1 \<noteq> (0 :: u32)" "unat (h + 1) + Suc n \<le> 2 ^ 32" using assms by auto
qed

lemma reorg_tip:
  "bs \<noteq> [] \<Longrightarrow> unat h + length bs \<le> 2 ^ 32 \<Longrightarrow> fold tip_step (reorg_events B h bs) tip = saturating_sub h 1"
proof (induction bs arbitrary: h tip)
  case (Cons b bs)
  have "fold tip_step (reorg_events B (h + 1) bs) h = h"
  proof (cases bs)
    case (Cons c cs)
    then have "h + 1 \<noteq> 0" "unat (h + 1) + length bs \<le> 2 ^ 32"
      using next_height [of h "length cs"] Cons.prems(2) by simp_all
    then show ?thesis using Cons.IH [of "h + 1" h] Cons saturating_pred [of h] by simp
  qed (simp add: reorg_events_def)
  then show ?case by (simp add: reorg_events_def connect_event_def disconnect_event_def)
qed simp


definition ref_branch :: "block list" where
  "ref_branch = [\<lparr>header = ref_header 6, txdata = []\<rparr>, ref_block]"

lemma ref_branch_fresh: "fresh_branch ref_sled ref_bitcoin 6 ref_branch ref_funded"
proof -
  let ?b = "\<lparr>header = ref_header 6, txdata = []\<rparr>"
  obtain st1 where st1: "apply_block ref_sled ref_bitcoin ?b 6 ref_funded = (Inr (), st1)"
    "views ref_sled (store st1) = views ref_sled (store ref_funded)"
    "by_height st1 = []" "history st1 = []"
    using apply_block_ok [OF ref_sled_ok ref_funded_wf, of ref_bitcoin ?b 6]
    by (auto simp: run_records_def ref_funded_store)
  have "fresh_block ref_bitcoin 6 [] (views ref_sled (store ref_funded))"
    by (simp add: fresh_block_def ref_funded_view del: view_ref_sled)
  moreover have "height_unused 6 ref_funded" "height_unused 7 st1"
    using st1(3,4) by (simp_all add: height_unused_def ref_funded_store)
  ultimately show ?thesis
    using ref_block_fresh st1(1,2) ref_sled_ok ref_funded_wf
    by (simp add: ref_branch_def fresh_branch_def connectable_def connect_op_def)
qed


end
