(* ===== verification/ServerFrame.thy ===== *)
theory ServerFrame
  imports NetSpec ReorgSpec
begin

text \<open>
  The contract between the server and the index: of the operations on the index, the server
  calls four, all on pending transactions. A property of index states that these four keep
  is kept by everything that clients and their threads do.
\<close>

section \<open>The interface\<close>

lemma sv_state_other [simp]:
  "sv_state (upd_metrics f sv) = sv_state sv" "sv_state (broadcast_changes shs sv) = sv_state sv"
  by (simp_all add: sv_state_def upd_metrics_def broadcast_changes_def)

locale index_client =
  fixes S :: "'t sled" and B :: bitcoin_lib and P :: "'t index_state \<Rightarrow> bool"
  assumes keeps_track: "preserves P (track_pending_transaction_internal S B tx)"
    and keeps_restore: "preserves P (restore_pending_transaction S B t)"
    and keeps_forget: "preserves P (forget_pending_transaction S B t)"
    and keeps_forget_chain: "preserves P (forget_pending_transaction_chain S B t)"
begin

lemma on_state_keeps: "preserves P m \<Longrightarrow> preserves (\<lambda>sv. P (sv_state sv)) (on_state m)"
  by (auto simp: preserves_def on_state_def zoomE_def sv_state_def upd_state_def split: prod.splits;
      metis snd_conv)

lemma broadcast_keeps:
  assumes "env_bitcoin E = B"
  shows "preserves (\<lambda>sv. P (sv_state sv)) (handle_transaction_broadcast S E params)"
proof -
  have "preserves (\<lambda>sv. P (sv_state sv)) (modifyE (upd_metrics f))"
    "preserves (\<lambda>sv. P (sv_state sv)) (modifyE (broadcast_changes shs))" for f shs
    by (rule preserves_modifyE; simp)+
  then show ?thesis
    unfolding handle_transaction_broadcast_def Let_def assms
    by (auto split: option.split intro!: preserves_bindE preserves_readE preserves_throwE
        preserves_returnE server_string_err on_state_keeps keeps_track)
qed

lemma on_server_keeps:
  "preserves (\<lambda>sv. P (sv_state sv)) m \<Longrightarrow> preserves (\<lambda>s. P (sv_state (snd s))) (on_server m)"
  by (auto simp: preserves_def on_server_def split: prod.splits; metis snd_conv)

lemma on_client_keeps: "preserves (\<lambda>s. P (sv_state (snd s))) (on_client m)"
  by (auto simp: preserves_def on_client_def split: prod.splits)

lemma run_method_keeps:
  "env_bitcoin E = B \<Longrightarrow> preserves (\<lambda>s. P (sv_state (snd s))) (run_method S E m params)"
  unfolding run_method_def Let_def query_def
  by (intro preserves_intros on_server_keeps on_client_keeps broadcast_keeps)

lemma line_keeps:
  assumes "env_bitcoin E = B" and "P (sv_state sv)"
  shows "P (sv_state (snd (fst (snd (handle_line S E line ((c, sv), cn))))))"
proof -
  have "P (sv_state (snd (snd (dispatch_request S E raw (c, sv)))))" if "P (sv_state sv)" for raw c sv
    using preservesD [OF run_method_keeps [OF assms(1)], of "(c, sv)"] that
    by (auto simp: dispatch_request_def split: sum.split prod.splits; metis snd_conv)
  from this [of "upd_metrics inc_electrum_requests sv" line c] assms(2) show ?thesis
    by (auto simp: handle_line_def split: prod.splits)
qed

lemma status_keeps:
  assumes "P (sv_state sv)"
  shows "P (sv_state (snd (apply_tx_status_change S B t status sv)))"
proof -
  have "preserves (\<lambda>sv. P (sv_state sv)) (apply_tx_status_kind S B u kind)" for u kind
    unfolding apply_tx_status_kind_def
    by (cases kind)
      (auto intro!: preserves_intros on_state_keeps keeps_restore keeps_forget keeps_forget_chain
        split: option.split)
  from preservesD [OF this, of sv] assms show ?thesis
    by (auto simp: apply_tx_status_change_def split: sum.split prod.splits) (metis snd_conv)
qed

end

interpretation pending_client: index_client S B "pending_ok B" for S B
  by unfold_locales (rule preserves_track preserves_restore preserves_forget preserves_forget_chain)+

section \<open>The confirmed index is out of reach\<close>

definition confirmed_as :: "'t sled \<Rightarrow> 't index_state \<Rightarrow> u32 \<Rightarrow> 't index_state \<Rightarrow> bool" where
  "confirmed_as S st0 tip st \<longleftrightarrow> same_index S st st0 \<and> tip_height st = tip"

named_theorems confirmed_kept \<open>operations that leave the confirmed index alone\<close>

lemma confirmed_on_store:
  assumes "\<And>ix. same_chain ix (snd (m ix))"
  shows "preserves (confirmed_as S st0 tip) (on_store m)"
  using same_chain_views [OF assms]
  by (auto simp: preserves_def confirmed_as_def same_index_def on_store_def zoomE_def split: prod.splits)
     (metis snd_conv)+

lemma confirmed_store_tx [confirmed_kept]:
  "preserves (confirmed_as S st0 tip) (on_store (store_tx S B tx))"
  "preserves (confirmed_as S st0 tip) (on_store (store_pending_txid S t))"
  "preserves (confirmed_as S st0 tip) (on_store (delete_pending_txid S t))"
  by (rule confirmed_on_store;
      auto simp: store_tx_def store_pending_txid_def delete_pending_txid_def monad_defs tree_insert_def
        same_chain_def split: sum.splits prod.splits)+

lemma confirmed_modify [confirmed_kept]:
  "preserves (confirmed_as S st0 tip) (modifyE (rebuild_pending_view B))"
  "preserves (confirmed_as S st0 tip) (modifyE (\<lambda>s. s\<lparr>pending_txs := f s\<rparr>))"
  "preserves (confirmed_as S st0 tip) (modifyE (\<lambda>s. rebuild_pending_view B (s\<lparr>pending_txs := f s\<rparr>)))"
  by (rule preserves_modifyE; simp add: confirmed_as_def same_index_def)+

lemma confirmed_drop [confirmed_kept]: "preserves (confirmed_as S st0 tip) (drop_pending S t)"
  unfolding drop_pending_def by (intro preserves_intros confirmed_kept)

lemma confirmed_forget_chain [confirmed_kept]:
  "preserves (confirmed_as S st0 tip) (forget_pending_transaction_chain_internal S B t)"
proof -
  have "preserves (confirmed_as S st0 tip) (bindE (foldE (\<lambda>c _. drop_pending S c) removed ()) (\<lambda>_.
          bindE (modifyE (rebuild_pending_view B)) (\<lambda>_. returnE affected)))"
    for removed and affected :: "script_hash list"
    by (intro preserves_intros confirmed_kept)
  then show ?thesis
    by (simp add: preserves_def forget_pending_transaction_chain_internal_def case_prod_beta)
qed

lemma confirmed_track [confirmed_kept]:
  "preserves (confirmed_as S st0 tip) (track_pending_transaction_internal S B tx)"
proof -
  have "preserves (confirmed_as S st0 tip) (bindE (foldE (\<lambda>conflict affected.
              bindE (forget_pending_transaction_chain_internal S B conflict) (\<lambda>shs.
                returnE (List.union affected shs))) ts []) (\<lambda>affected.
     bindE (on_store (store_tx S B tx)) (\<lambda>_.
     bindE (on_store (store_pending_txid S (compute_txid B tx))) (\<lambda>_.
     bindE (modifyE (\<lambda>s. rebuild_pending_view B
              (s\<lparr>pending_txs := hm_insert (compute_txid B tx) tx (pending_txs s)\<rparr>))) (\<lambda>_.
     bindE (readE (\<lambda>s. Inr (pending_affected_scripts_for_tx S B tx s))) (\<lambda>shs.
       returnE (List.union affected shs)))))))" for ts
    by (intro preserves_intros confirmed_kept)
  then show ?thesis
    unfolding preserves_def track_pending_transaction_internal_def by blast
qed

interpretation confirmed_client: index_client S B "confirmed_as S st0 tip" for S B st0 tip
proof
  show "preserves (confirmed_as S st0 tip) (track_pending_transaction_internal S B tx)" for tx
    by (rule confirmed_track)
  show "preserves (confirmed_as S st0 tip) (restore_pending_transaction S B t)" for t
    unfolding restore_pending_transaction_def
    by (intro preserves_intros) (auto split: option.split intro!: preserves_intros confirmed_track)
  have "preserves (confirmed_as S st0 tip)
      (bindE (modifyE (\<lambda>s. s\<lparr>pending_txs := hm_remove t (pending_txs s)\<rparr>)) (\<lambda>_.
          bindE (readE (\<lambda>s. Inr (pending_affected_scripts_for_tx S B tx s))) (\<lambda>affected.
          bindE (ignoreE (on_store (delete_pending_txid S t))) (\<lambda>_.
          bindE (modifyE (rebuild_pending_view B)) (\<lambda>_.
            returnE (Some affected))))))" for t tx
    by (intro preserves_intros confirmed_kept)
  then show "preserves (confirmed_as S st0 tip) (forget_pending_transaction S B t)" for t
    by (auto simp: preserves_def forget_pending_transaction_def split: option.split)
  have "preserves (confirmed_as S st0 tip) (bindE (forget_pending_transaction_chain_internal S B t)
      (\<lambda>affected. returnE (Some affected)))" for t
    by (intro preserves_intros confirmed_kept)
  then show "preserves (confirmed_as S st0 tip) (forget_pending_transaction_chain S B t)" for t
    by (auto simp: preserves_def forget_pending_transaction_chain_def)
qed

end
