(* ===== verification/SourceSpec.thy ===== *)
theory SourceSpec
  imports BlockSource UtxoSpec
begin

text \<open>
  The source of block events: what a subscriber receives, in which order, and what the order
  means for the indexer.
\<close>

section \<open>Delivery\<close>

text \<open>C28: A receiver loses, duplicates and reorders nothing: whatever other receivers do, the
  messages it has taken followed by those waiting in its queue are exactly the messages
  broadcast since it subscribed.\<close>

theorem channel_delivers:
  assumes "subscribers_ok subs"
    and "(chan_step (fst (subscribe subs)))\<^sup>*\<^sup>* (snd (subscribe subs), [], []) (subs', sent, got)"
  shows "\<exists>c. channel_of (fst (subscribe subs)) subs' = Some c \<and> ch_open c \<and> sent = got @ ch_queue c"
proof -
  have "delivered (fst (subscribe subs)) (snd (subscribe subs), [], [])"
    using assms(1) by (simp add: delivered_def channel_of_fresh)
  from channel.reach_inv [OF assms(2) this] show ?thesis by (simp add: delivered_def)
qed

theorem channel_delivers_witness:
  "channel_of 0 (broadcast 8 (broadcast (7 :: nat) (snd (subscribe new_subscribers)))) \<noteq> None"
proof -
  let ?subs = "new_subscribers :: nat subscribers"
  have "fst (subscribe ?subs) = 0" by (simp add: subscribe_def new_subscribers_def)
  moreover have "(chan_step 0)\<^sup>*\<^sup>* (snd (subscribe ?subs), [], [])
      (broadcast 8 (broadcast 7 (snd (subscribe ?subs))), ([] @ [7]) @ [8], [])"
    by (rule converse_rtranclp_into_rtranclp, rule step_broadcast, rule r_into_rtranclp, rule step_broadcast)
  ultimately show ?thesis
    using channel_delivers [of ?subs "broadcast 8 (broadcast 7 (snd (subscribe ?subs)))" "[7, 8]" "[]"]
    by auto
qed

section \<open>Events of the source\<close>

lemma source_subscribers_ok:
  "subscribers_ok (bs_subscribers bs) \<Longrightarrow> subscribers_ok (bs_subscribers (run_source B nk ms bs))"
proof (induction ms arbitrary: bs)
  case (Cons m ms)
  have "subscribers_ok (fold broadcast evs subs)" if "subscribers_ok subs" for evs :: "block_event list" and subs
    using that by (induction evs arbitrary: subs) simp_all
  then have "subscribers_ok (bs_subscribers (source_step B nk m bs))"
    using Cons.prems by (simp add: source_step_subscribers)
  with Cons.IH show ?case by (simp add: run_source_def)
qed (simp add: run_source_def)

lemma subscribed_cache [simp]: "block_cache (snd (source_subscribe bs)) = block_cache bs"
  by (simp add: source_subscribe_def)

text \<open>C22: A subscriber finds in its queue the events of all later messages of the client, in
  the order in which the two threads handled them, and a block is served from the cache
  only under its own hash.\<close>

theorem source_orders_events:
  "case source_subscribe (run_source B nk before new_block_source) of (i, bs) \<Rightarrow>
     queue_of i (run_source B nk msgs bs) = Some (concat (map (message_event B nk) msgs))
     \<and> (\<forall>h blk. source_block_by_hash h (run_source B nk msgs bs) = Inr (Some blk)
          \<longrightarrow> block_hash B (header blk) = h)"
proof -
  let ?bs = "run_source B nk before new_block_source"
  have "subscribers_ok (bs_subscribers ?bs)"
    by (rule source_subscribers_ok) (simp add: new_block_source_def)
  from channel_of_fresh [OF this]
  have "channel_of (fst (source_subscribe ?bs)) (bs_subscribers (snd (source_subscribe ?bs)))
      = Some \<lparr>ch_id = fst (source_subscribe ?bs), ch_open = True, ch_queue = []\<rparr>"
    by (simp add: source_subscribe_def)
  from run_source_channel [OF this, of B nk msgs]
  have queue: "queue_of (fst (source_subscribe ?bs)) (run_source B nk msgs (snd (source_subscribe ?bs)))
      = Some (concat (map (message_event B nk) msgs))"
    by (simp add: queue_of_def)
  have "cache_ok B ?bs" by (rule cache_ok_run) (simp add: cache_ok_def new_block_source_def)
  then have "cache_ok B (snd (source_subscribe ?bs))" by (simp add: cache_ok_def)
  from cache_ok_run [OF this, of nk msgs] queue show ?thesis
    by (auto simp: case_prod_beta source_block_by_hash_def cache_ok_def)
qed

definition ref_client :: "(unit, unit, unit) nk_client" where
  "ref_client = \<lparr>nk_serialize_block = (\<lambda>_. []), nk_serialize_header = (\<lambda>_. []), nk_hash_bytes = (\<lambda>_. arr32 7),
     btc_deserialize_block = (\<lambda>_. Inr ref_block), btc_deserialize_header = (\<lambda>_. Inr (ref_header 7)),
     nk_request_block = (\<lambda>_. Inr ()), nk_get_tip = Inr (6, ()),
     nk_tree = (\<lambda>h. Answer (if h \<le> 6 then Some () else None))\<rparr>"

lemma ref_client_conv [simp]:
  "conv_block ref_client b = Inr ref_block" "conv_hash ref_client h = Inr 7"
  by (simp_all add: ref_client_def conv_block_def conv_hash_def map_err_def from_be_be_bytes)

theorem source_orders_events_witness:
  "queue_of 0 (run_source ref_bitcoin ref_client [EventMsg (BlockDisconnected () 8), BlockMsg () 7]
       (snd (source_subscribe new_block_source)))
     = Some [Disconnected 7 8, Connected ref_block 7]
   \<and> source_block_by_hash (block_hash ref_bitcoin (header ref_block))
         (run_source ref_bitcoin ref_client [BlockMsg () 7]
            (snd (source_subscribe (new_block_source :: unit block_source)))) = Inr (Some ref_block)"
proof -
  have new: "fst (source_subscribe (run_source ref_bitcoin ref_client [] (new_block_source :: unit block_source))) = 0"
    by (simp add: run_source_def source_subscribe_def new_block_source_def subscribe_def new_subscribers_def)
  have nil: "run_source ref_bitcoin ref_client [] (new_block_source :: unit block_source) = new_block_source"
    by (simp add: run_source_def)
  have cached: "source_block_by_hash (block_hash ref_bitcoin (header ref_block))
      (run_source ref_bitcoin ref_client [BlockMsg () 7] (snd (source_subscribe (new_block_source :: unit block_source))))
      = Inr (Some ref_block)"
    by (simp add: run_source_def source_step_def on_block_def source_block_by_hash_def
        broadcast_event_def)
  show ?thesis
    using source_orders_events [of ref_bitcoin ref_client "[EventMsg (BlockDisconnected () 8), BlockMsg () 7]" "[]"]
      new cached unfolding nil
    by (simp add: case_prod_beta message_event_def)
qed

section \<open>A late block\<close>

text \<open>C37: The block of a disconnected header is indexed nonetheless when its download finishes
  after the disconnection: the indexer first rolls back nothing, then connects the block,
  and its tip and unspent outputs are those of the block that left the chain.\<close>

theorem late_block_is_indexed:
  assumes S: "sled_ok S" and wf: "outputs_wf (views S (store (state ind)))"
    and "map_of (by_height (state ind)) (ucast h) = None" and "tip_height (state ind) \<noteq> ucast h"
    and nk: "conv_block nk b = Inr blk" "conv_hash nk hs = Inr bh"
  shows "let evs = concat (map (message_event B nk)
               [EventMsg (BlockConnected hs h), EventMsg (BlockDisconnected hs h), BlockMsg b h]);
             st = state (run_events S B evs ind)
         in evs = [Disconnected bh (ucast h), Connected blk (ucast h)]
          \<and> tip_height st = ucast h
          \<and> utxos_of (views S (store st))
              = connect_utxos B (ucast h) (txdata blk) (utxos_of (views S (store (state ind))))"
proof -
  have "rollback_height S B (ucast h) (state ind) = (Inr (), state ind)"
    using assms(3,4) by (simp add: rollback_height_def rollback_tip_def monad_defs)
  then have none: "state (handle_event S B (Disconnected bh (ucast h)) ind) = state ind"
    by (simp add: handle_event_def)
  obtain st' where st': "apply_block S B blk (ucast h) (state ind) = (Inr (), st')" "tip_height st' = ucast h"
    using apply_block_ok [OF S wf, of B blk "ucast h"] by blast
  with connect_utxos_of(1) [OF S wf st'(1)] none nk show ?thesis
    by (simp add: message_event_def run_events_def handle_event_def Let_def)
qed

theorem late_block_is_indexed_witness:
  "tip_height (state (run_events ref_sled ref_bitcoin [Disconnected 7 7, Connected ref_block 7]
     \<lparr>state = ref_funded, ixr_metrics = new_metrics\<rparr>)) = 7"
proof -
  let ?ind = "\<lparr>state = ref_funded, ixr_metrics = new_metrics\<rparr>"
  have conv: "conv_block ref_client () = Inr ref_block" "conv_hash ref_client () = Inr 7"
    by simp_all
  have height: "(ucast (7 :: u64) :: u32) = 7" by simp
  have pre: "map_of (by_height (state ?ind)) (ucast (7 :: u64)) = None" "tip_height (state ?ind) \<noteq> ucast (7 :: u64)"
    by (simp_all add: height ref_funded_store)
  have wf: "outputs_wf (views ref_sled (store (state ?ind)))" using ref_funded_wf by simp
  from late_block_is_indexed [OF ref_sled_ok wf pre conv, of ref_bitcoin] show ?thesis
    unfolding Let_def height by metis
qed

end
