(* ===== verification/System.thy ===== *)
theory System
  imports ServerFrame SourceSpec
begin

text \<open>
  The running program: the light client's messages, the threads of the block source, the
  indexer's thread and the server. The subscriber list of the source is \<open>net_events\<close>, and \<open>rx\<close>
  is the receiver that \<open>Indexer::start\<close> obtains from it.
\<close>

section \<open>Steps\<close>

text \<open>
  The whole program, with the events that the source sent since the indexer subscribed and
  those the indexer took. A message of the light client is handled by \<open>source_step\<close> on the
  shared subscriber list.
\<close>

record ('t, 'h) system =
  sys_net :: "'t net"
  sys_source :: "'h block_source"
  sys_sent :: "block_event list"
  sys_taken :: "block_event list"

definition source_message ::
  "bitcoin_lib \<Rightarrow> ('b, 'hd, 'h) nk_client \<Rightarrow> ('b, 'h) nk_message \<Rightarrow> ('t, 'h) system \<Rightarrow> ('t, 'h) system" where
  "source_message B nk m s =
     (let bs = source_step B nk m (sys_source s\<lparr>bs_subscribers := net_events (sys_net s)\<rparr>)
      in s\<lparr>sys_net := (sys_net s)\<lparr>net_events := bs_subscribers bs\<rparr>, sys_source := bs,
           sys_sent := sys_sent s @ message_event B nk m\<rparr>)"

definition indexer_event ::
  "'t sled \<Rightarrow> bitcoin_lib \<Rightarrow> nat \<Rightarrow> ('t, 'h) system \<Rightarrow> ('t, 'h) system" where
  "indexer_event S B rx s =
     (case recv rx (net_events (sys_net s)) of
        (None, _) \<Rightarrow> s
      | (Some ev, events) \<Rightarrow>
          s\<lparr>sys_net := (sys_net s)\<lparr>net_events := events,
                net_server := (net_server (sys_net s))\<lparr>sv_indexer :=
                    handle_event S B ev (sv_indexer (net_server (sys_net s)))\<rparr>\<rparr>,
             sys_taken := sys_taken s @ [ev]\<rparr>)"

inductive sys_step ::
  "'t sled \<Rightarrow> server_env \<Rightarrow> ('b, 'hd, 'h) nk_client \<Rightarrow> nat \<Rightarrow> ('t, 'h) system \<Rightarrow> ('t, 'h) system \<Rightarrow> bool"
  for S E nk rx where
  sys_message: "sys_step S E nk rx s (source_message (env_bitcoin E) nk m s)"
| sys_index: "sys_step S E nk rx s (indexer_event S (env_bitcoin E) rx s)"
| sys_thread: "thread_step S E (sys_net s) n \<Longrightarrow> sys_step S E nk rx s (s\<lparr>sys_net := n\<rparr>)"

text \<open>
  The start. The source handles messages of the light client from its creation on, and the
  indexer subscribes only when the index has been opened: what the source sends \<open>before\<close>
  goes to nobody.
\<close>

definition sys_start ::
  "bitcoin_lib \<Rightarrow> ('b, 'hd, 'h) nk_client \<Rightarrow> ('b, 'h) nk_message list \<Rightarrow> 't indexer \<Rightarrow> nat \<times> ('t, 'h) system" where
  "sys_start B nk before ind =
     (case source_subscribe (run_source B nk before new_block_source) of
        (rx, bs) \<Rightarrow>
          (rx, \<lparr>sys_net = (new_net ind)\<lparr>net_events := bs_subscribers bs\<rparr>, sys_source = bs,
                sys_sent = [], sys_taken = []\<rparr>))"

section \<open>Delivery to the indexer\<close>

text \<open>The receiver of the indexer belongs to no client, now or later.\<close>

definition rx_reserved :: "nat \<Rightarrow> 't net \<Rightarrow> bool" where
  "rx_reserved rx n \<longleftrightarrow>
     rx < next_id (net_events n) \<and> (\<forall>(i, cl) \<in> set (net_clients n). cl_events cl \<noteq> rx)"

lemma next_id_other [simp]:
  "next_id (snd (recv j subs)) = next_id subs" "next_id (drop_receiver j subs) = next_id subs"
  "next_id (broadcast ev subs) = next_id subs" "next_id (snd (subscribe subs)) = Suc (next_id subs)"
  "fst (subscribe subs) = next_id subs"
  by (simp_all add: recv_def drop_receiver_def upd_channel_def broadcast_def subscribe_def
      split: option.split list.split)

lemma recv_dropped:
  assumes "j \<noteq> i"
  shows "(chan_step i)\<^sup>*\<^sup>* (subs, sent, got) (drop_receiver j (snd (recv j subs)), sent, got)"
  by (rule rtranclp.rtrancl_into_rtrancl, rule r_into_rtranclp)
    (rule step_other [OF assms], rule step_drop [OF assms])

lemma reserved_upd:
  "rx_reserved rx n \<Longrightarrow> cl_events cl' \<noteq> rx \<Longrightarrow> rx_reserved rx (upd_client i cl' n)"
  by (auto simp: rx_reserved_def upd_client_def split: if_splits)

lemma upd_client_fields [simp]:
  "net_events (upd_client i cl n) = net_events n" "net_server (upd_client i cl n) = net_server n"
  by (simp_all add: upd_client_def)

lemma reserved_client:
  "rx_reserved rx n \<Longrightarrow> map_of (net_clients n) i = Some cl \<Longrightarrow> cl_events cl \<noteq> rx"
  by (auto simp: rx_reserved_def dest!: map_of_SomeD)

lemma reserved_server [simp]: "rx_reserved rx (n\<lparr>net_server := sv\<rparr>) = rx_reserved rx n"
  by (simp add: rx_reserved_def)

lemma close_client_events [simp]: "net_events (close_client i n) = net_events n"
  by (simp add: close_client_def split: option.split)

lemma close_client_reserved: "rx_reserved rx n \<Longrightarrow> rx_reserved rx (close_client i n)"
  by (auto simp: close_client_def intro!: reserved_upd dest: reserved_client split: option.split)

lemma thread_delivery:
  assumes "thread_step S E n n'" and "rx_reserved rx n"
  shows "(chan_step rx)\<^sup>*\<^sup>* (net_events n, sent, got) (net_events n', sent, got) \<and> rx_reserved rx n'"
  using assms
proof (cases rule: thread_step.cases)
  case thread_accept
  have "net_events n' = snd (subscribe (net_events n))"
    by (simp add: thread_accept accept_client_def case_prod_beta)
  then show ?thesis
    using assms(2) r_into_rtranclp [of "chan_step rx", OF step_subscribe [of rx "net_events n" sent got]]
    by (auto simp: rx_reserved_def thread_accept accept_client_def case_prod_beta)
next
  case (thread_line i line)
  show ?thesis
  proof (cases "map_of (net_clients n) i")
    case None
    then show ?thesis using assms(2) by (simp add: thread_line client_line_def)
  next
    case (Some cl)
    note other = reserved_client [OF assms(2) Some]
    show ?thesis
      using assms(2) other
      by (auto simp: thread_line client_line_def Let_def Some intro!: reserved_upd close_client_reserved
          split: prod.split sum.split)
  qed
next
  case (thread_block i)
  show ?thesis
  proof (cases "map_of (net_clients n) i")
    case None
    then show ?thesis using assms(2) by (simp add: thread_block client_block_event_def)
  next
    case (Some cl)
    note other = reserved_client [OF assms(2) Some]
    obtain m events where recv: "recv (cl_events cl) (net_events n) = (m, events)" by fastforce
    have next_id: "next_id events = next_id (net_events n)"
      using next_id_other(1) [of "cl_events cl" "net_events n"] by (simp add: recv)
    have "net_events n' \<in> {net_events n, events, drop_receiver (cl_events cl) events} \<and> rx_reserved rx n'"
      using Some assms(2) other next_id
      by (auto simp: thread_block client_block_event_def recv stop_notify_def Let_def rx_reserved_def
          upd_client_def split: option.splits prod.splits)
    then show ?thesis
      using r_into_rtranclp [of "chan_step rx", OF step_other [OF other, of "net_events n" sent got]]
        recv_dropped [OF other, of "net_events n" sent got] by (auto simp: recv)
  qed
next
  case (thread_pending i)
  show ?thesis
  proof (cases "map_of (net_clients n) i")
    case None
    then show ?thesis using assms(2) by (simp add: thread_pending client_pending_event_def)
  next
    case (Some cl)
    note other = reserved_client [OF assms(2) Some]
    show ?thesis
      using assms(2) other
      by (auto simp: thread_pending client_pending_event_def Some intro!: reserved_upd
          split: option.split prod.split)
  qed
next
  case (thread_gone i cl)
  then show ?thesis
    using assms(2) reserved_client [OF assms(2) thread_gone(2)] by (auto intro!: reserved_upd)
qed (use assms(2) close_client_reserved in \<open>auto\<close>)

text \<open>Every step of the program is a run of the channels, and one of them is the indexer's.\<close>

lemma broadcasts_delivery:
  "(chan_step rx)\<^sup>*\<^sup>* (subs, sent, got) (fold broadcast evs subs, sent @ evs, got)"
proof (induction evs arbitrary: subs sent)
  case (Cons ev evs)
  from converse_rtranclp_into_rtranclp [OF step_broadcast Cons.IH [of "broadcast ev subs" "sent @ [ev]"]]
  show ?case by simp
qed simp

lemma next_id_broadcasts [simp]: "next_id (fold broadcast evs subs) = next_id subs"
  by (induction evs arbitrary: subs) simp_all

definition sys_channel :: "('t, 'h) system \<Rightarrow> block_event subscribers \<times> block_event list \<times> block_event list" where
  "sys_channel s = (net_events (sys_net s), sys_sent s, sys_taken s)"

lemma sys_delivery:
  assumes "sys_step S E nk rx s s'" and "rx_reserved rx (sys_net s)"
  shows "(chan_step rx)\<^sup>*\<^sup>* (sys_channel s) (sys_channel s') \<and> rx_reserved rx (sys_net s')"
  using assms
proof (cases rule: sys_step.cases)
  case (sys_message m)
  have "bs_subscribers (source_step (env_bitcoin E) nk m (sys_source s\<lparr>bs_subscribers := net_events (sys_net s)\<rparr>))
      = fold broadcast (message_event (env_bitcoin E) nk m) (net_events (sys_net s))"
    by (simp add: source_step_subscribers)
  then show ?thesis
    using assms(2) broadcasts_delivery [of rx "net_events (sys_net s)" "sys_sent s"]
    by (simp add: sys_message sys_channel_def source_message_def Let_def rx_reserved_def)
next
  case sys_index
  obtain m events where recv: "recv rx (net_events (sys_net s)) = (m, events)" by fastforce
  have next_id: "next_id events = next_id (net_events (sys_net s))"
    using next_id_other(1) [of rx "net_events (sys_net s)"] by (simp add: recv)
  show ?thesis
  proof (cases m)
    case None
    then show ?thesis using assms(2) by (simp add: sys_index indexer_event_def recv)
  next
    case (Some ev)
    then show ?thesis
      using assms(2) next_id r_into_rtranclp [of "chan_step rx", OF step_recv] recv
      by (simp add: sys_index indexer_event_def sys_channel_def rx_reserved_def)
  qed
next
  case (sys_thread n)
  then show ?thesis
    using thread_delivery [OF sys_thread(2) assms(2), of "sys_sent s" "sys_taken s"]
    by (simp add: sys_channel_def)
qed

section \<open>The threads leave the confirmed index alone\<close>

lemma close_client_state [simp]: "sv_state (net_server (close_client i n)) = sv_state (net_server n)"
  by (simp add: close_client_def split: option.split)

lemma sv_state_fields [simp]:
  "sv_state (sv\<lparr>sv_changes := ch\<rparr>) = sv_state sv" "sv_state (sv\<lparr>sv_fee_rate := r\<rparr>) = sv_state sv"
  "sv_state (sv\<lparr>sv_indexer := ind\<rparr>) = state ind"
  by (simp_all add: sv_state_def)

lemma thread_confirmed:
  assumes "thread_step S E n n'" and "confirmed_as S st0 tip (sv_state (net_server n))"
  shows "confirmed_as S st0 tip (sv_state (net_server n'))"
  using assms
proof (cases rule: thread_step.cases)
  case (thread_line i line)
  show ?thesis
  proof (cases "map_of (net_clients n) i")
    case None
    then show ?thesis using assms(2) by (simp add: thread_line client_line_def)
  next
    case (Some cl)
    show ?thesis
      using confirmed_client.line_keeps [OF refl assms(2), of E line "cl_state cl" "cl_conn cl"] assms(2) Some
      by (auto simp: thread_line client_line_def Let_def split: prod.split sum.split)
  qed
next
  case (thread_status txid_str status)
  then show ?thesis using confirmed_client.status_keeps [OF assms(2)] by simp
qed (use assms(2) in \<open>auto simp: accept_client_def client_block_event_def client_pending_event_def
    stop_notify_def Let_def update_sat_per_vb_def case_prod_beta split: option.split prod.split\<close>)

end
