(* ===== verification/SystemSpec.thy ===== *)
theory SystemSpec
  imports System
begin

text \<open>
  The running program as a whole: as long as the source's events describe a chain, the index
  that the clients read is the index of that chain, up to the events not yet taken.
\<close>

section \<open>The chain that the events describe\<close>

text \<open>The blocks on the chain after some events, first block first.\<close>

fun chain_after :: "(u32 \<times> block) list \<Rightarrow> block_event list \<Rightarrow> (u32 \<times> block) list" where
  "chain_after xs [] = xs"
| "chain_after xs (Connected b h # evs) = chain_after (xs @ [(h, b)]) evs"
| "chain_after xs (Disconnected bh h # evs) = chain_after (butlast xs) evs"
| "chain_after xs (Synced h bh # evs) = chain_after xs evs"

text \<open>An index that never saw a block leave the chain.\<close>

definition indexed_chain ::
  "'t sled \<Rightarrow> bitcoin_lib \<Rightarrow> (u32 \<times> block) list \<Rightarrow> 't index_state \<Rightarrow> 't index_state" where
  "indexed_chain S B xs st0 = fold (connect_op S B) xs st0"

text \<open>A block extends an index when it is fresh there and stands one above the tip.\<close>

definition extends :: "'t sled \<Rightarrow> bitcoin_lib \<Rightarrow> u32 \<times> block \<Rightarrow> 't index_state \<Rightarrow> bool" where
  "extends S B x st \<longleftrightarrow> connectable S B x st \<and> saturating_sub (fst x) 1 = tip_height st"

text \<open>
  The events describe a chain: a block connects on top of the last one, and only the last
  one is disconnected.
\<close>

fun describes_chain ::
  "'t sled \<Rightarrow> bitcoin_lib \<Rightarrow> 't index_state \<Rightarrow> (u32 \<times> block) list \<Rightarrow> block_event list \<Rightarrow> bool" where
  "describes_chain S B st0 xs [] = True"
| "describes_chain S B st0 xs (Connected b h # evs)
     = (extends S B (h, b) (indexed_chain S B xs st0) \<and> describes_chain S B st0 (xs @ [(h, b)]) evs)"
| "describes_chain S B st0 xs (Disconnected bh h # evs)
     = (xs \<noteq> [] \<and> Disconnected bh h = disconnect_event B (last xs) \<and> describes_chain S B st0 (butlast xs) evs)"
| "describes_chain S B st0 xs (Synced h bh # evs) = describes_chain S B st0 xs evs"

lemma chain_after_append: "chain_after xs (evs @ evs') = chain_after (chain_after xs evs) evs'"
  by (induction xs evs rule: chain_after.induct) simp_all

lemma describes_append:
  "describes_chain S B st0 xs (evs @ evs')
     = (describes_chain S B st0 xs evs \<and> describes_chain S B st0 (chain_after xs evs) evs')"
  by (induction S B st0 xs evs rule: describes_chain.induct) auto

lemma indexed_chain_snoc [simp]:
  "indexed_chain S B [] st0 = st0"
  "indexed_chain S B (xs @ [x]) st0 = connect_op S B x (indexed_chain S B xs st0)"
  by (simp_all add: indexed_chain_def)

lemma allowed_run_snoc:
  "allowed_run P f (xs @ [x]) s \<longleftrightarrow> allowed_run P f xs s \<and> P x (fold f xs s)"
  by (induction xs arbitrary: s) auto

text \<open>Connecting and disconnecting see the confirmed index only.\<close>

lemma connect_confirmed:
  assumes "connectable S B x st0" and "same_index S st st0"
  shows "confirmed_as S (connect_op S B x st0) (fst x) (connect_op S B x st)"
proof -
  have pre: "sled_ok S" "outputs_wf (views S (store st0))" "outputs_wf (views S (store st))"
    using assms by (simp_all add: connectable_def same_index_def)
  have "view S (ix_outputs (store st)) = view S (ix_outputs (store st0))"
    using assms(2) by (metis same_index_def store_view.select_convs(2) views_def)
  then show ?thesis
    using apply_block_ok [OF pre(1,2), of B "snd x" "fst x"] apply_block_ok [OF pre(1,3), of B "snd x" "fst x"]
      assms(2) by (auto simp: confirmed_as_def connect_op_def same_index_def)
qed

lemma connect_op_tip: "connectable S B x st0 \<Longrightarrow> tip_height (connect_op S B x st0) = fst x"
  using connect_confirmed [of S B x st0 st0] by (simp add: confirmed_as_def)

lemma disconnect_confirmed:
  assumes "extends S B x st0" and "same_index S st (connect_op S B x st0)" and "tip_height st = fst x"
  shows "confirmed_as S st0 (tip_height st0) (disconnect_op S B x st)"
proof -
  have ok: "connectable S B x st0" "saturating_sub (fst x) 1 = tip_height st0"
    using assms(1) by (simp_all add: extends_def)
  have "outputs_wf (views S (store (connect_op S B x st0)))"
    using ok(1) apply_block_ok [of S st0 B "snd x" "fst x"] by (auto simp: connectable_def connect_op_def)
  then have "outputs_wf (views S (store st))" using assms(2) by (simp add: same_index_def)
  then have "tip_height (disconnect_op S B x st) = saturating_sub (fst x) 1"
    using rollback_total [of S st B "fst x"] ok(1) assms(3) by (auto simp: connectable_def disconnect_op_def)
  then show ?thesis
    using chain.undo_applied [OF ok(1) assms(2)] ok(2) by (simp add: confirmed_as_def)
qed

text \<open>One event: the index goes on standing for the chain described.\<close>

definition stands_for :: "'t sled \<Rightarrow> bitcoin_lib \<Rightarrow> 't index_state \<Rightarrow> (u32 \<times> block) list \<Rightarrow> 't index_state \<Rightarrow> bool" where
  "stands_for S B st0 xs st \<longleftrightarrow>
     confirmed_as S (indexed_chain S B xs st0) (tip_height (indexed_chain S B xs st0)) st
     \<and> allowed_run (extends S B) (connect_op S B) xs st0"

lemma event_stands_for:
  assumes "stands_for S B st0 xs (state ind)" and "describes_chain S B st0 xs [ev]"
  shows "stands_for S B st0 (chain_after xs [ev]) (state (handle_event S B ev ind))"
proof (cases ev)
  case (Connected b h)
  have ext: "extends S B (h, b) (indexed_chain S B xs st0)" using assms(2) by (simp add: Connected)
  then have ok: "connectable S B (h, b) (indexed_chain S B xs st0)" by (simp add: extends_def)
  have "state (handle_event S B ev ind) = connect_op S B (h, b) (state ind)"
    by (simp add: Connected handle_event_def connect_op_def split: prod.split sum.split)
  then show ?thesis
    using assms(1) connect_confirmed [OF ok, of "state ind"] connect_op_tip [OF ok] ext
    by (simp add: Connected stands_for_def confirmed_as_def allowed_run_snoc indexed_chain_def)
next
  case (Disconnected bh h)
  then obtain ys x where xs: "xs = ys @ [x]" and h: "h = fst x"
    using assms(2) by (cases xs rule: rev_cases) (auto simp: disconnect_event_def)
  have ext: "extends S B x (indexed_chain S B ys st0)" and run: "allowed_run (extends S B) (connect_op S B) ys st0"
    using assms(1) by (simp_all add: stands_for_def xs allowed_run_snoc indexed_chain_def)
  then have "tip_height (connect_op S B x (indexed_chain S B ys st0)) = fst x"
    by (simp add: extends_def connect_op_tip)
  then have "confirmed_as S (indexed_chain S B ys st0) (tip_height (indexed_chain S B ys st0))
      (disconnect_op S B x (state ind))"
    using disconnect_confirmed [OF ext, of "state ind"] assms(1)
    by (simp add: stands_for_def confirmed_as_def xs)
  moreover have "state (handle_event S B ev ind) = disconnect_op S B x (state ind)"
    by (simp add: Disconnected h handle_event_def disconnect_op_def split: prod.split sum.split)
  ultimately show ?thesis using run by (simp add: Disconnected xs stands_for_def)
next
  case (Synced h bh)
  then show ?thesis using assms(1) by (simp add: handle_event_def)
qed

section \<open>The whole program\<close>

definition follows_chain :: "'t sled \<Rightarrow> bitcoin_lib \<Rightarrow> nat \<Rightarrow> 't index_state \<Rightarrow> ('t, 'h) system \<Rightarrow> bool" where
  "follows_chain S B rx st0 s \<longleftrightarrow>
     delivered rx (sys_channel s) \<and> rx_reserved rx (sys_net s) \<and>
     (describes_chain S B st0 [] (sys_sent s) \<longrightarrow>
        stands_for S B st0 (chain_after [] (sys_taken s)) (sv_state (net_server (sys_net s))))"

lemma recv_same:
  "channel_of i subs = Some c \<Longrightarrow> fst (recv i subs) = (case ch_queue c of [] \<Rightarrow> None | m # ms \<Rightarrow> Some m)"
  by (simp add: recv_def split: list.split)

lemma message_sent [simp]:
  "sys_sent (source_message B nk m s) = sys_sent s @ message_event B nk m"
  "sys_taken (source_message B nk m s) = sys_taken s"
  by (simp_all add: source_message_def Let_def)

lemma event_sent [simp]: "sys_sent (indexer_event S B rx s) = sys_sent s"
  by (simp add: indexer_event_def split: option.split prod.split)

lemma event_taken:
  assumes "delivered rx (sys_channel s)" and "sys_sent s = sys_taken s @ ev # evs"
  shows "sys_taken (indexer_event S B rx s) = sys_taken s @ [ev]"
proof -
  obtain c where c: "channel_of rx (net_events (sys_net s)) = Some c" "ch_queue c = ev # evs"
    using assms by (auto simp: delivered_def sys_channel_def)
  obtain m events where recv: "recv rx (net_events (sys_net s)) = (m, events)" by fastforce
  then have "m = Some ev" using recv_same [OF c(1)] c(2) by simp
  then show ?thesis by (simp add: indexer_event_def recv)
qed

lemma follows_step:
  assumes step: "sys_step S E nk rx s s'" and inv: "follows_chain S (env_bitcoin E) rx st0 s"
  shows "follows_chain S (env_bitcoin E) rx st0 s'"
proof -
  let ?B = "env_bitcoin E"
  have del: "delivered rx (sys_channel s)" and res: "rx_reserved rx (sys_net s)"
    and stands: "describes_chain S ?B st0 [] (sys_sent s) \<Longrightarrow>
      stands_for S ?B st0 (chain_after [] (sys_taken s)) (sv_state (net_server (sys_net s)))"
    using inv by (simp_all add: follows_chain_def)
  have "stands_for S ?B st0 (chain_after [] (sys_taken s')) (sv_state (net_server (sys_net s')))"
    if desc: "describes_chain S ?B st0 [] (sys_sent s')"
    using step
  proof (cases rule: sys_step.cases)
    case (sys_message m)
    then show ?thesis
      using desc stands by (simp add: source_message_def Let_def describes_append)
  next
    case sys_index
    obtain c where c: "channel_of rx (net_events (sys_net s)) = Some c" "sys_sent s = sys_taken s @ ch_queue c"
      using del by (auto simp: delivered_def sys_channel_def)
    obtain m events where recv: "recv rx (net_events (sys_net s)) = (m, events)" by fastforce
    show ?thesis
    proof (cases m)
      case None
      then show ?thesis using desc stands by (simp add: sys_index indexer_event_def recv)
    next
      case (Some ev)
      then have "ch_queue c = ev # tl (ch_queue c)"
        using recv_same [OF c(1)] recv by (cases "ch_queue c") simp_all
      then have sent: "sys_sent s = sys_taken s @ [ev] @ tl (ch_queue c)" using c(2) by simp
      have now: "describes_chain S ?B st0 [] (sys_sent s)"
        using desc Some by (simp add: sys_index indexer_event_def recv)
      from this [unfolded sent] have "describes_chain S ?B st0 (chain_after [] (sys_taken s)) [ev]"
        unfolding describes_append by blast
      from event_stands_for [OF _ this, of "sv_indexer (net_server (sys_net s))"] stands [OF now] Some
      show ?thesis by (simp add: sys_index indexer_event_def recv chain_after_append sv_state_def)
    qed
  next
    case (sys_thread n)
    then show ?thesis
      using desc stands thread_confirmed by (auto simp: stands_for_def)
  qed
  then show ?thesis
    using sys_delivery [OF step res] channel.reach_inv [OF _ del] by (auto simp: follows_chain_def)
qed

interpretation system: machine "sys_step S E nk rx" "follows_chain S (env_bitcoin E) rx st0" for S E nk rx st0
  by unfold_locales (rule follows_step)

lemma follows_start:
  assumes "sys_start B nk before ind = (rx, s)"
  shows "follows_chain S B rx (state ind) s"
proof -
  let ?bs = "run_source B nk before new_block_source"
  have start: "rx = fst (subscribe (bs_subscribers ?bs))" "net_events (sys_net s) = snd (subscribe (bs_subscribers ?bs))"
    "sys_net s = (new_net ind)\<lparr>net_events := net_events (sys_net s)\<rparr>" "sys_sent s = []" "sys_taken s = []"
    using assms by (auto simp: sys_start_def source_subscribe_def)
  have "subscribers_ok (bs_subscribers ?bs)"
    by (rule source_subscribers_ok) (simp add: new_block_source_def)
  from channel_of_fresh [OF this] have "delivered rx (sys_channel s)"
    using start(2,4,5) \<open>subscribers_ok (bs_subscribers ?bs)\<close> unfolding start(1)
    by (simp add: delivered_def sys_channel_def)
  moreover have "rx_reserved rx (sys_net s)"
    unfolding rx_reserved_def start(1,2) by (subst start(3)) (simp add: new_net_def)
  moreover have "sv_state (net_server (sys_net s)) = state ind"
    by (subst start(3)) (simp add: new_net_def new_server_def sv_state_def)
  ultimately show ?thesis
    using start(5) by (simp add: follows_chain_def stands_for_def confirmed_as_def)
qed

text \<open>The unspent outputs of a chain, block by block from those of the starting index.\<close>

definition chain_utxos ::
  "bitcoin_lib \<Rightarrow> (u32 \<times> block) list \<Rightarrow> (outpoint \<rightharpoonup> stored_output) \<Rightarrow> outpoint \<rightharpoonup> stored_output" where
  "chain_utxos B xs U = fold (\<lambda>(h, b). connect_utxos B h (txdata b)) xs U"

lemma extends_run:
  assumes "extends S B x st"
  shows "apply_block S B (snd x) (fst x) st = (Inr (), connect_op S B x st)"
  using assms apply_block_ok [of S st B "snd x" "fst x"]
  by (auto simp: extends_def connectable_def connect_op_def)

lemma indexed_chain_utxos:
  assumes "allowed_run (extends S B) (connect_op S B) xs st0"
  shows "utxos_of (views S (store (indexed_chain S B xs st0))) = chain_utxos B xs (utxos_of (views S (store st0)))"
  using assms
proof (induction xs rule: rev_induct)
  case (snoc x xs)
  then have ext: "extends S B x (indexed_chain S B xs st0)"
    by (simp add: allowed_run_snoc indexed_chain_def)
  then have "sled_ok S" "outputs_wf (views S (store (indexed_chain S B xs st0)))"
    by (simp_all add: extends_def connectable_def)
  from connect_utxos_of(1) [OF this extends_run [OF ext]] snoc show ?case
    by (simp add: allowed_run_snoc chain_utxos_def case_prod_beta)
qed (simp add: chain_utxos_def)

lemma indexed_chain_wf:
  assumes "allowed_run (extends S B) (connect_op S B) xs st0"
    and "outputs_wf (views S (store st0))" and "utxos_wf S (store st0)"
  shows "outputs_wf (views S (store (indexed_chain S B xs st0))) \<and> utxos_wf S (store (indexed_chain S B xs st0))"
  using assms(1)
proof (induction xs rule: rev_induct)
  case (snoc x xs)
  then have ext: "extends S B x (indexed_chain S B xs st0)"
    by (simp add: allowed_run_snoc indexed_chain_def)
  then have "sled_ok S" "fresh_block B (fst x) (txdata (snd x)) (views S (store (indexed_chain S B xs st0)))"
    by (simp_all add: extends_def connectable_def)
  with connect_utxos_of(2) [OF _ _ extends_run [OF ext]] connect_utxos_wf [OF _ _ _ _ extends_run [OF ext]] snoc
  show ?case by (simp add: allowed_run_snoc)
qed (use assms(2,3) in simp)

lemma indexed_chain_tip:
  "allowed_run (extends S B) (connect_op S B) xs st0 \<Longrightarrow> xs \<noteq> [] \<Longrightarrow>
     tip_height (indexed_chain S B xs st0) = fst (last xs)"
  by (cases xs rule: rev_cases)
    (auto simp: allowed_run_snoc extends_def connect_op_tip indexed_chain_def)

lemma system_stands:
  assumes "sys_start (env_bitcoin E) nk before ind = (rx, s\<^sub>0)" and "(sys_step S E nk rx)\<^sup>*\<^sup>* s\<^sub>0 s"
    and "describes_chain S (env_bitcoin E) (state ind) [] (sys_sent s)"
  shows "stands_for S (env_bitcoin E) (state ind) (chain_after [] (sys_taken s)) (sv_state (net_server (sys_net s)))"
    and "delivered rx (sys_channel s)"
proof -
  have "follows_chain S (env_bitcoin E) rx (state ind) s"
    by (rule system.reach_inv [OF assms(2) follows_start [OF assms(1)]])
  with assms(3) show
    "stands_for S (env_bitcoin E) (state ind) (chain_after [] (sys_taken s)) (sv_state (net_server (sys_net s)))"
    "delivered rx (sys_channel s)"
    by (simp_all add: follows_chain_def)
qed

text \<open>C1: However the light client's messages, the indexer, the clients' requests and threads and
  the transaction events interleave, as long as the events that the source sends once the
  indexer has subscribed describe a chain: the indexer has taken a prefix of them and finds
  the rest in its queue, and the index that the clients read is that of the chain described
  so far. Its unspent outputs are those of that chain alone, its caches are those of an index
  that never saw another block, and its tip is the last block.\<close>

theorem index_follows_chain:
  assumes "sys_start (env_bitcoin E) nk before ind = (rx, s\<^sub>0)" and "(sys_step S E nk rx)\<^sup>*\<^sup>* s\<^sub>0 s"
    and "describes_chain S (env_bitcoin E) (state ind) [] (sys_sent s)"
  shows "let chain = chain_after [] (sys_taken s); st = sv_state (net_server (sys_net s));
             ref = indexed_chain S (env_bitcoin E) chain (state ind)
         in (\<exists>c. channel_of rx (net_events (sys_net s)) = Some c \<and> sys_sent s = sys_taken s @ ch_queue c)
          \<and> utxos_of (views S (store st)) = chain_utxos (env_bitcoin E) chain (utxos_of (views S (store (state ind))))
          \<and> history st = history ref \<and> by_height st = by_height ref
          \<and> (chain \<noteq> [] \<longrightarrow> tip_height st = fst (last chain))"
  using system_stands [OF assms] indexed_chain_utxos indexed_chain_tip
  by (fastforce simp: stands_for_def confirmed_as_def same_index_def delivered_def sys_channel_def Let_def)

definition ref_below :: "(bytes \<times> bytes) list indexer" where
  "ref_below = \<lparr>state = ref_funded\<lparr>tip_height := 6\<rparr>, ixr_metrics = new_metrics\<rparr>"

definition ref_rx :: nat where
  "ref_rx = fst (sys_start ref_bitcoin ref_client [BlockMsg () 6] ref_below)"

definition ref_up :: "((bytes \<times> bytes) list, unit) system" where
  "ref_up = snd (sys_start ref_bitcoin ref_client [BlockMsg () 6] ref_below)"

definition ref_start :: "((bytes \<times> bytes) list, unit) system" where
  "ref_start =
     (let s = source_message ref_bitcoin ref_client (BlockMsg () 7) ref_up
      in s\<lparr>sys_net := accept_client (sys_net s)\<rparr>)"

definition ref_run :: "((bytes \<times> bytes) list, unit) system" where
  "ref_run = source_message ref_bitcoin ref_client (EventMsg (BlockDisconnected () 7))
     (indexer_event ref_sled ref_bitcoin ref_rx ref_start)"

lemma ref_env_bitcoin [simp]: "env_bitcoin ref_env = ref_bitcoin"
  by (simp add: ref_env_def)

lemma ref_run_up:
  "sys_start ref_bitcoin ref_client [BlockMsg () 6] ref_below = (ref_rx, ref_up)"
  "sys_start (env_bitcoin ref_env) ref_client [BlockMsg () 6] ref_below = (ref_rx, ref_up)"
  by (simp_all add: ref_rx_def ref_up_def)

lemma ref_run_steps:
  "sys_step ref_sled ref_env ref_client ref_rx s (source_message ref_bitcoin ref_client m s)"
  "sys_step ref_sled ref_env ref_client ref_rx s (indexer_event ref_sled ref_bitcoin ref_rx s)"
  "sys_step ref_sled ref_env ref_client ref_rx s (s\<lparr>sys_net := accept_client (sys_net s)\<rparr>)"
  using sys_message [of ref_sled ref_env ref_client ref_rx s m]
    sys_index [of ref_sled ref_env ref_client ref_rx s] sys_thread [OF thread_accept]
  by simp_all

lemma ref_run_reached:
  "(sys_step ref_sled ref_env ref_client ref_rx)\<^sup>*\<^sup>* ref_up ref_start"
  "(sys_step ref_sled ref_env ref_client ref_rx)\<^sup>*\<^sup>* ref_up ref_run"
proof -
  show start: "(sys_step ref_sled ref_env ref_client ref_rx)\<^sup>*\<^sup>* ref_up ref_start"
    unfolding ref_start_def Let_def
    by (rule rtranclp.rtrancl_into_rtrancl, rule r_into_rtranclp, rule ref_run_steps(1), rule ref_run_steps(3))
  show "(sys_step ref_sled ref_env ref_client ref_rx)\<^sup>*\<^sup>* ref_up ref_run"
    unfolding ref_run_def
    by (rule rtranclp.rtrancl_into_rtrancl, rule rtranclp.rtrancl_into_rtrancl, rule start, rule ref_run_steps(2),
        rule ref_run_steps(1))
qed

lemma ref_run_messages:
  "message_event ref_bitcoin ref_client (BlockMsg () 7) = [Connected ref_block 7]"
  "message_event ref_bitcoin ref_client (EventMsg (BlockDisconnected () 7)) = [Disconnected 7 7]"
  by (simp_all add: message_event_def)

lemma ref_run_events:
  "sys_sent ref_run = [Connected ref_block 7, Disconnected 7 7]" "sys_taken ref_run = [Connected ref_block 7]"
proof -
  have start: "sys_sent ref_start = [Connected ref_block 7]" "sys_taken ref_start = []"
    by (simp_all add: ref_start_def Let_def ref_run_messages)
      (simp_all add: ref_up_def sys_start_def case_prod_beta)
  have "delivered ref_rx (sys_channel ref_start)"
    using system.reach_inv [OF ref_run_reached(1) follows_start [OF ref_run_up(2)]] by (simp add: follows_chain_def)
  then show "sys_sent ref_run = [Connected ref_block 7, Disconnected 7 7]"
    "sys_taken ref_run = [Connected ref_block 7]"
    using start by (simp_all add: ref_run_def event_taken ref_run_messages)
qed

lemma ref_run_describes: "describes_chain ref_sled ref_bitcoin (state ref_below) [] (sys_sent ref_run)"
  using ref_block_fresh ref_sled_ok ref_funded_wf
  by (simp add: ref_run_events ref_below_def extends_def connectable_def height_unused_def ref_funded_store
      saturating_sub_def disconnect_event_def ref_block_def ref_header_def ref_bitcoin_def)

theorem index_follows_chain_witness:
  "tip_height (sv_state (net_server (sys_net ref_run))) = 7
   \<and> map_option so_value (utxos_of (views ref_sled (store (sv_state (net_server (sys_net ref_run)))))
       \<lparr>op_txid = 2, op_vout = 1\<rparr>) = Some 30"
proof -
  have utxos: "chain_utxos ref_bitcoin [(7, ref_block)] (utxos_of (views ref_sled (store (state ref_below))))
      \<lparr>op_txid = 2, op_vout = 1\<rparr> = Some \<lparr>so_script_hash = from_script ref_bitcoin [3], so_txid = 2, so_vout = 1,
         so_value = 30, so_height = 7\<rparr>"
    using ref_connected_utxos by (simp add: chain_utxos_def ref_below_def del: view_ref_sled)
  from index_follows_chain [OF ref_run_up(2) ref_run_reached(2), unfolded ref_env_bitcoin, OF ref_run_describes] utxos show ?thesis
    by (simp add: Let_def ref_run_events del: view_ref_sled)
qed

text \<open>C3: The confirmed balance that a client is told, at any point of any such interleaving, is the
  capped sum over the outputs that the chain described so far leaves unspent for the script:
  blocks that left the chain, pending transactions and other clients do not show in it.\<close>

theorem balance_follows_chain:
  assumes "sys_start (env_bitcoin E) nk before ind = (rx, s\<^sub>0)" and "(sys_step S E nk rx)\<^sup>*\<^sup>* s\<^sub>0 s"
    and "describes_chain S (env_bitcoin E) (state ind) [] (sys_sent s)"
    and "sled_ok S" and "outputs_wf (views S (store (state ind)))" and "utxos_wf S (store (state ind))"
  shows "\<exists>total. get_balance S sh (sv_state (net_server (sys_net s))) = Inr total
    \<and> unat total = min (2 ^ 64 - 1) (script_sum sh
        (chain_utxos (env_bitcoin E) (chain_after [] (sys_taken s)) (utxos_of (views S (store (state ind))))))"
proof -
  let ?xs = "chain_after [] (sys_taken s)" and ?st = "sv_state (net_server (sys_net s))"
  let ?ref = "indexed_chain S (env_bitcoin E) ?xs (state ind)"
  have run: "allowed_run (extends S (env_bitcoin E)) (connect_op S (env_bitcoin E)) ?xs (state ind)"
    and same: "views S (store ?st) = views S (store ?ref)"
    using system_stands(1) [OF assms(1-3)] by (simp_all add: stands_for_def confirmed_as_def same_index_def)
  from indexed_chain_wf [OF run assms(5,6)] have "outputs_wf (views S (store ?st))" "utxos_wf S (store ?st)"
    using same utxos_wf_view by metis+
  from balance_of_utxos [OF assms(4) this, of sh] show ?thesis
    by (simp add: same indexed_chain_utxos [OF run])
qed

theorem balance_follows_chain_witness:
  "get_balance ref_sled 5 (sv_state (net_server (sys_net ref_run))) = Inr 0"
proof -
  have below: "store (state ref_below) = store ref_funded" by (simp add: ref_below_def)
  have none: "script_sum 5 (chain_utxos ref_bitcoin [(7, ref_block)] (utxos_of (views ref_sled (store ref_funded)))) = 0"
    by (simp add: script_sum_def chain_utxos_def ref_unfunded del: view_ref_sled)
  obtain total where "get_balance ref_sled 5 (sv_state (net_server (sys_net ref_run))) = Inr total" "unat total = 0"
    using balance_follows_chain [OF ref_run_up(2) ref_run_reached(2), unfolded ref_env_bitcoin below, OF ref_run_describes ref_sled_ok
        ref_funded_wf ref_funded_keys, of 5] none
    by (auto simp: ref_run_events)
  then show ?thesis by (simp add: unat_eq_zero)
qed

end
