(* ===== verification/ResponseTypes.thy ===== *)
theory ResponseTypes
  imports NetSpec
begin

text \<open>
  The types of what the server writes: a table with the type of each method's result, the
  types of the two notifications, and the invariant that a connection receives nothing else.
\<close>

section \<open>Types of JSON values\<close>

text \<open>Unsigned and signed integers carry their width; an object has its fields in order.\<close>

datatype jtype =
    TJust json
  | TNat nat
  | TSigned nat
  | TFloat
  | TString
  | TEither jtype jtype
  | TArray jtype
  | TTuple "jtype list"
  | TObject "(string \<times> jtype) list"

fun has_type :: "jtype \<Rightarrow> json \<Rightarrow> bool"
  and have_types :: "jtype list \<Rightarrow> json list \<Rightarrow> bool"
  and have_fields :: "(string \<times> jtype) list \<Rightarrow> (string \<times> json) list \<Rightarrow> bool" where
  "has_type (TJust u) v = (v = u)"
| "has_type (TNat k) v = (case v of JInt i \<Rightarrow> 0 \<le> i \<and> i < 2 ^ k | _ \<Rightarrow> False)"
| "has_type (TSigned k) v = (case v of JInt i \<Rightarrow> - (2 ^ (k - 1)) \<le> i \<and> i < 2 ^ (k - 1) | _ \<Rightarrow> False)"
| "has_type TFloat v = (case v of JFloat f \<Rightarrow> True | _ \<Rightarrow> False)"
| "has_type TString v = (case v of JString s \<Rightarrow> True | _ \<Rightarrow> False)"
| "has_type (TEither t u) v = (has_type t v \<or> has_type u v)"
| "has_type (TArray t) v = (case v of JArray vs \<Rightarrow> list_all (has_type t) vs | _ \<Rightarrow> False)"
| "has_type (TTuple ts) v = (case v of JArray vs \<Rightarrow> have_types ts vs | _ \<Rightarrow> False)"
| "has_type (TObject fs) v = (case v of JObject gs \<Rightarrow> have_fields fs gs | _ \<Rightarrow> False)"
| "have_types [] vs = (vs = [])"
| "have_types (t # ts) vs = (case vs of [] \<Rightarrow> False | w # ws \<Rightarrow> has_type t w \<and> have_types ts ws)"
| "have_fields [] gs = (gs = [])"
| "have_fields ((k, t) # fs) gs =
     (case gs of [] \<Rightarrow> False | (l, w) # hs \<Rightarrow> l = k \<and> has_type t w \<and> have_fields fs hs)"

definition header_type :: jtype where
  "header_type = TObject [(''height'', TNat 32), (''hex'', TString)]"

definition status_type :: jtype where
  "status_type = TEither TString (TJust JNull)"

definition mempool_height_type :: jtype where
  "mempool_height_type = TEither (TJust (JInt 0)) (TJust (JInt (- 1)))"

text \<open>The type of the result of each method; an unknown method has none.\<close>

definition result_type :: "string \<Rightarrow> jtype option" where
  "result_type m =
     (if m = ''server.version'' then Some (TTuple [TString, TString])
      else if m = ''server.ping'' then Some (TJust JNull)
      else if m = ''server.banner'' then Some TString
      else if m = ''blockchain.headers.subscribe'' then Some header_type
      else if m = ''blockchain.scripthash.get_history''
        then Some (TArray (TObject [(''tx_hash'', TString), (''height'', TNat 32)]))
      else if m = ''blockchain.scripthash.get_balance''
        then Some (TObject [(''confirmed'', TNat 64), (''unconfirmed'', TSigned 64)])
      else if m = ''blockchain.scripthash.get_mempool''
        then Some (TArray (TObject [(''tx_hash'', TString), (''height'', mempool_height_type),
                                    (''fee'', TNat 64)]))
      else if m = ''blockchain.scripthash.listunspent''
        then Some (TArray (TObject [(''tx_hash'', TString), (''tx_pos'', TNat 32), (''height'', TNat 32),
                                    (''value'', TNat 64)]))
      else if m = ''blockchain.scripthash.subscribe'' then Some status_type
      else if m = ''blockchain.transaction.get'' then Some TString
      else if m = ''blockchain.transaction.broadcast'' then Some TString
      else if m = ''blockchain.estimatefee'' then Some (TEither TFloat (TJust (JInt (- 1))))
      else if m = ''blockchain.block.header'' then Some TString
      else if m = ''blockchain.block.headers''
        then Some (TObject [(''count'', TNat 32), (''hex'', TString), (''max'', TJust (JInt 2016))])
      else if m = ''blockchain.relayfee'' then Some TFloat
      else if m = ''mempool.get_fee_histogram'' then Some (TArray (TTuple [TNat 64, TNat 64]))
      else None)"

section \<open>Results\<close>

lemma word_types [simp]:
  "has_type (TNat 32) (jnat (w :: u32))" "has_type (TNat 64) (jnat (d :: u64))"
  "has_type (TSigned 64) (JInt (sint (d :: u64)))"
  using uint_lt2p [of w] uint_lt2p [of d] sint_range_size [of d]
  by (simp_all add: jnat_def word_size del: uint_lt2p)

declare has_type.simps(2,3) [simp del]

lemma array_type [simp]:
  "has_type (TArray t) (JArray (map f xs)) \<longleftrightarrow> (\<forall>x \<in> set xs. has_type t (f x))"
  by (simp add: list.pred_set)

definition yields :: "('s \<Rightarrow> (string + json) \<times> 's) \<Rightarrow> jtype option \<Rightarrow> bool" where
  "yields m T \<longleftrightarrow> (\<forall>s v s'. m s = (Inr v, s') \<longrightarrow> (\<exists>t. T = Some t \<and> has_type t v))"

named_theorems yields_intros \<open>typing rules of the request monad\<close>

lemma yields_basic [yields_intros]:
  "has_type t v \<Longrightarrow> yields (returnE v) (Some t)" "yields (throwE e) T"
  by (simp_all add: yields_def returnE_def throwE_def)

lemma yields_readE [yields_intros]:
  "(\<And>s v. f s = Inr v \<Longrightarrow> has_type t v) \<Longrightarrow> yields (readE f) (Some t)"
  by (auto simp: yields_def readE_def)

lemma yields_bindE [yields_intros]: "(\<And>x. yields (f x) T) \<Longrightarrow> yields (bindE m f) T"
  by (fastforce simp: yields_def bindE_def split: prod.splits sum.splits)

lemma yields_if: "yields m T \<Longrightarrow> yields m' T' \<Longrightarrow> yields (if c then m else m') (if c then T else T')"
  by simp

lemma yields_session [yields_intros]:
  "(\<And>st. yields (mc st) T) \<Longrightarrow> yields (on_client mc) T"
  "yields ms T \<Longrightarrow> yields (on_server ms) T"
  by (fastforce simp: yields_def on_client_def on_server_def split: prod.splits)+

lemma yields_query [yields_intros]:
  "(\<And>st v. q st = Inr v \<Longrightarrow> has_type t v) \<Longrightarrow> yields (query q) (Some t)"
  by (auto simp: query_def intro!: yields_readE)

text \<open>Each handler against its line of the table.\<close>

named_theorems result_typed \<open>types of the handlers' results\<close>

lemma header_typed [simp]: "has_type header_type (header_json current)"
  by (simp add: header_type_def header_json_def has_type.simps(2) [of 32 "JInt 0"] split: option.split prod.split)

lemma status_typed [simp]: "has_type status_type (json_of_status status)"
  by (simp add: status_type_def json_of_status_def split: option.split)

lemma mempool_heights:
  assumes "mempool S B sh st = Inr es"
  shows "\<forall>e \<in> set es. me_height e = 0 \<or> me_height e = - 1"
proof -
  obtain out where out: "foldR (\<lambda>tx out. if \<not> pending_tx_touches_script S B tx sh st then Inr out
          else bindR (foldR (mempool_input S B st) (tx_input tx) (0, False, []))
                 (\<lambda>(input_value, unconfirmed, _).
                    Inr (out @ [\<lparr>me_txid = compute_txid B tx, me_height = (if unconfirmed then - 1 else 0),
                                 me_fee = saturating_sub input_value (total_output_value tx)\<rparr>])))
        (map snd (pending_txs st)) [] = Inr out" "set es = set out"
    using assms by (auto simp: mempool_def pending_mempool_for_script_def bindR_Inr)
  show ?thesis
    unfolding out(2)
    by (rule foldR_keeps [OF out(1), where P = "\<lambda>out. \<forall>e \<in> set out. me_height e = 0 \<or> me_height e = - 1"])
      (auto simp: bindR_Inr split: if_splits)
qed

lemma found_Inr:
  "(case r of Inl e \<Rightarrow> Inl (f e) | Inr None \<Rightarrow> Inl e' | Inr (Some x) \<Rightarrow> Inr (g x)) = Inr v
     \<longleftrightarrow> (\<exists>x. r = Inr (Some x) \<and> g x = v)"
  by (auto split: sum.split option.split)

lemma query_types [result_typed]:
  "handle_server_version params = Inr v \<Longrightarrow> has_type (TTuple [TString, TString]) v"
  "handle_scripthash_get_history S B params st = Inr v \<Longrightarrow>
     has_type (TArray (TObject [(''tx_hash'', TString), (''height'', TNat 32)])) v"
  "handle_scripthash_get_balance S B params st = Inr v \<Longrightarrow>
     has_type (TObject [(''confirmed'', TNat 64), (''unconfirmed'', TSigned 64)]) v"
  "handle_scripthash_listunspent S B params st = Inr v \<Longrightarrow>
     has_type (TArray (TObject [(''tx_hash'', TString), (''tx_pos'', TNat 32), (''height'', TNat 32),
                                (''value'', TNat 64)])) v"
  "handle_transaction_get S B params st = Inr v \<Longrightarrow> has_type TString v"
  "handle_fee_histogram S B st = Inr v \<Longrightarrow> has_type (TArray (TTuple [TNat 64, TNat 64])) v"
  unfolding handle_server_version_def handle_scripthash_get_history_def handle_scripthash_get_balance_def
    handle_scripthash_listunspent_def handle_transaction_get_def handle_fee_histogram_def
  by (auto simp: bindR_Inr found_Inr simp del: has_type.simps(7))

lemma mempool_type [result_typed]:
  assumes "handle_scripthash_get_mempool S B params st = Inr v"
  shows "has_type (TArray (TObject [(''tx_hash'', TString), (''height'', mempool_height_type),
                                    (''fee'', TNat 64)])) v"
proof -
  obtain sh es where es: "mempool S B sh st = Inr es"
    "v = JArray (map (\<lambda>e. JObject [(''tx_hash'', JString (txid_to_string B (me_txid e))),
                                (''height'', JInt (sint (me_height e))), (''fee'', jnat (me_fee e))]) es)"
    using assms by (auto simp: handle_scripthash_get_mempool_def bindR_Inr map_err_Inr)
  have "has_type mempool_height_type (JInt (sint (me_height e)))" if "e \<in> set es" for e
    using mempool_heights [OF es(1)] that by (auto simp: mempool_height_type_def)
  then show ?thesis by (simp add: es(2) del: has_type.simps(7))
qed

lemma chain_types [result_typed]:
  "handle_estimatefee params sv = Inr v \<Longrightarrow> has_type (TEither TFloat (TJust (JInt (- 1)))) v"
  "handle_block_header E params = Inr v \<Longrightarrow> has_type TString v"
  "handle_block_headers E params = Inr v \<Longrightarrow>
     has_type (TObject [(''count'', TNat 32), (''hex'', TString), (''max'', TJust (JInt 2016))]) v"
  "handle_relayfee = Inr v \<Longrightarrow> has_type TFloat v"
  unfolding handle_estimatefee_def handle_block_header_def handle_block_headers_def handle_relayfee_def
  by (auto simp: bindR_Inr found_Inr Let_def split: option.split_asm)

lemma change_types [result_typed]:
  "yields (handle_headers_subscribe E st) (Some header_type)"
  "yields (handle_scripthash_subscribe S B params st) (Some status_type)"
  "yields (handle_transaction_broadcast S E params) (Some TString)"
  unfolding handle_headers_subscribe_def handle_scripthash_subscribe_def handle_transaction_broadcast_def Let_def
  by (auto intro!: yields_intros split: option.split)

lemma run_method_typed: "yields (run_method S E m params) (result_type m)"
  unfolding run_method_def result_type_def Let_def
  by (intro yields_if yields_intros)
    (auto simp del: has_type.simps(4-9) intro: result_typed simp: has_type.simps(5) [of "JString BANNER"])

text \<open>C9: A request that succeeds returns a value of the type that the table gives for its method:
  heights and counts fit their words, amounts are 64 bits wide, a mempool height is 0 or -1, an
  object has exactly its fields. A method that is not in the table never succeeds.\<close>

theorem result_has_type:
  assumes "run_method S E m params s = (Inr v, s')"
  shows "\<exists>t. result_type m = Some t \<and> has_type t v"
  using run_method_typed [of S E m params] assms unfolding yields_def by blast

lemma ref_subscribe:
  "run_method ref_sled ref_env ''blockchain.headers.subscribe'' JNull
      (new_client_state, new_server \<lparr>state = ref_chain, ixr_metrics = new_metrics\<rparr>)
     = (Inr (header_json (Some (0, serialize_header_hex ref_bitcoin (ref_header 0)))),
        new_client_state\<lparr>headers_subscribed := True,
          header_subscription := Some (0, serialize_header_hex ref_bitcoin (ref_header 0))\<rparr>,
        new_server \<lparr>state = ref_chain, ixr_metrics = new_metrics\<rparr>)"
proof -
  have "tip_height ref_chain = 0" by (simp add: ref_chain_def ref_state_def)
  then show ?thesis
    by (simp add: run_method_def Let_def on_client_def handle_headers_subscribe_def monad_defs
        current_header_status_def ref_env_def new_server_def sv_state_def bindR_def)
qed

theorem result_has_type_witness:
  "\<exists>t. result_type ''blockchain.headers.subscribe'' = Some t
     \<and> has_type t (header_json (Some (0, serialize_header_hex ref_bitcoin (ref_header 0))))"
  by (rule result_has_type [OF ref_subscribe])

section \<open>The wire\<close>

definition note_type :: "string \<Rightarrow> jtype list \<Rightarrow> jtype" where
  "note_type m ts = TObject [(''jsonrpc'', TJust (JString ''2.0'')), (''method'', TJust (JString m)),
                             (''params'', TTuple ts)]"

text \<open>A message to a client: an error, a result of a method, or one of the two notifications.\<close>

definition server_message :: "json \<Rightarrow> bool" where
  "server_message v \<longleftrightarrow>
     (\<exists>i code msg. v = rpc_error i code msg)
     \<or> (\<exists>i m t r. result_type m = Some t \<and> has_type t r \<and> v = rpc_result i r)
     \<or> has_type (note_type ''blockchain.headers.subscribe'' [header_type]) v
     \<or> has_type (note_type ''blockchain.scripthash.subscribe'' [TString, status_type]) v"

definition conn_typed :: "server_env \<Rightarrow> conn \<Rightarrow> bool" where
  "conn_typed E cn \<longleftrightarrow> (\<forall>line \<in> set (conn_out cn). \<exists>v. line = env_print E v @ [CHR 0x0A] \<and> server_message v)"

definition net_typed :: "server_env \<Rightarrow> 't net \<Rightarrow> bool" where
  "net_typed E n \<longleftrightarrow> (\<forall>(i, cl) \<in> set (net_clients n). conn_typed E (cl_conn cl))"

lemma write_typed:
  assumes "conn_typed E cn" and "server_message v"
  shows "conn_typed E (snd (write_json E v cn))"
  using assms by (auto simp: write_json_def conn_typed_def)

lemma response_intros:
  "server_message (rpc_error i code msg)"
  "yields (run_method S E m params) T \<Longrightarrow> T = result_type m \<Longrightarrow>
     run_method S E m params s = (Inr r, s') \<Longrightarrow> server_message (rpc_result i r)"
  by (unfold server_message_def yields_def) (blast, metis)

lemma response_message: "server_message (fst (dispatch_request S E raw s))"
proof (cases "env_parse E raw")
  case (Inl e)
  then show ?thesis by (simp add: dispatch_request_def response_intros)
next
  case (Inr req)
  obtain r s' where "run_method S E (request_method req) (field_or_null ''params'' req) s = (r, s')"
    by (rule prod.exhaust)
  with Inr show ?thesis
    by (cases r) (auto simp: dispatch_request_def intro: response_intros(1) response_intros(2) [OF run_method_typed refl])
qed

lemma notifications [simp]:
  "server_message (header_notification current)" "server_message (status_notification x)"
  by (simp_all add: server_message_def note_type_def header_notification_def status_notification_def
      notification_def)

lemma statuses_typed: "conn_typed E cn \<Longrightarrow> conn_typed E (write_statuses E xs cn)"
proof (induction xs arbitrary: cn)
  case (Cons x xs)
  then show ?case
    using write_typed [OF Cons.prems notifications(2) [of x]] by (auto split: prod.split sum.split)
qed simp

lemma notify_typed:
  assumes "conn_typed E cn"
  shows "conn_typed E (snd (snd (notify_block S E st ev (c, cn))))"
    and "conn_typed E (snd (snd (notify_pending S E st shs (c, cn))))"
  using assms write_typed [OF assms notifications(1)]
  by (auto simp: notify_block_def notify_pending_def Let_def statuses_typed
      split: block_event.split prod.split sum.split) (metis snd_conv statuses_typed)+

lemma line_typed:
  assumes "conn_typed E cn"
  shows "conn_typed E (snd (snd (handle_line S E line (s, cn))))"
  using assms write_typed [OF assms response_message [of S E line "(fst s, upd_metrics inc_electrum_requests (snd s))"]]
  by (auto simp: handle_line_def split: prod.split) (metis fst_conv snd_conv)?

lemma net_typed_client: "net_typed E n \<Longrightarrow> map_of (net_clients n) i = Some cl \<Longrightarrow> conn_typed E (cl_conn cl)"
  by (auto simp: net_typed_def dest!: map_of_SomeD)

lemma net_typed_upd: "net_typed E n \<Longrightarrow> conn_typed E (cl_conn cl) \<Longrightarrow> net_typed E (upd_client i cl n)"
  by (auto simp: net_typed_def upd_client_def)

lemma net_typed_other [simp]:
  "net_typed E (n\<lparr>net_server := sv\<rparr>) = net_typed E n" "net_typed E (n\<lparr>net_events := ev\<rparr>) = net_typed E n"
  "net_typed E (stop_notify cl n) = net_typed E n"
  by (simp_all add: net_typed_def stop_notify_def)

lemma net_typed_close: "net_typed E n \<Longrightarrow> net_typed E (close_client i n)"
  by (auto simp: close_client_def intro!: net_typed_upd dest: net_typed_client split: option.split)


lemma thread_step_typed:
  assumes "thread_step S E n n'" and "net_typed E n"
  shows "net_typed E n'"
  using assms
proof (cases rule: thread_step.cases)
  case thread_accept
  then show ?thesis
    using assms(2) by (auto simp: net_typed_def accept_client_def conn_typed_def case_prod_beta)
next
  case (thread_close i)
  then show ?thesis using assms(2) net_typed_close by simp
next
  case (thread_line i line)
  show ?thesis
  proof (cases "map_of (net_clients n) i")
    case None
    then show ?thesis using assms(2) by (simp add: thread_line client_line_def)
  next
    case (Some cl)
    show ?thesis
      using assms(2) Some line_typed [OF net_typed_client [OF assms(2) Some], of S line "(cl_state cl, net_server n)"]
      by (auto simp: thread_line client_line_def Let_def intro!: net_typed_upd net_typed_close
          split: prod.split sum.split)
  qed
next
  case (thread_block i)
  show ?thesis
  proof (cases "map_of (net_clients n) i")
    case None
    then show ?thesis using assms(2) by (simp add: thread_block client_block_event_def)
  next
    case (Some cl)
    show ?thesis
      using assms(2) Some notify_typed(1) [OF net_typed_client [OF assms(2) Some], of S "sv_state (net_server n)" _ "cl_state cl"]
      by (auto simp: thread_block client_block_event_def Let_def intro!: net_typed_upd split: option.split prod.split)
        (metis snd_conv)+
  qed
next
  case (thread_pending i)
  show ?thesis
  proof (cases "map_of (net_clients n) i")
    case None
    then show ?thesis using assms(2) by (simp add: thread_pending client_pending_event_def)
  next
    case (Some cl)
    show ?thesis
      using assms(2) Some notify_typed(2) [OF net_typed_client [OF assms(2) Some], of S "sv_state (net_server n)" _ "cl_state cl"]
      by (auto simp: thread_pending client_pending_event_def Let_def intro!: net_typed_upd split: option.split prod.split)
        (metis snd_conv)+
  qed
next
  case (thread_gone i cl)
  then show ?thesis
    using assms(2) net_typed_client [OF assms(2) thread_gone(2)] by (auto simp: conn_typed_def intro!: net_typed_upd)
qed (use assms(2) in simp_all)

lemma net_step_typed: "net_step S E n n' \<Longrightarrow> net_typed E n \<Longrightarrow> net_typed E n'"
  by (cases rule: net_step.cases) (auto intro: thread_step_typed)

interpretation wire: machine "net_step S E" "net_typed E" for S E
  by unfold_locales (rule net_step_typed)

text \<open>C8: Every line that any client has ever received, in whatever way the threads interleave, is
  one printed message followed by a line feed: an error, the typed result of a method, or a
  header or status notification of its type.\<close>

theorem wire_lines_typed:
  assumes "(net_step S E)\<^sup>*\<^sup>* (new_net ind) n" and "(i, cl) \<in> set (net_clients n)"
    and "line \<in> set (conn_out (cl_conn cl))"
  shows "\<exists>v. line = env_print E v @ [CHR 0x0A] \<and> server_message v"
proof -
  have "net_typed E n" by (rule wire.reach_inv [OF assms(1)]) (simp add: net_typed_def new_net_def)
  with assms(2,3) show ?thesis by (auto simp: net_typed_def conn_typed_def)
qed

definition ref_wire_env :: server_env where
  "ref_wire_env = ref_env\<lparr>
     env_parse := (\<lambda>s. Inr (JObject [(''id'', JInt 1), (''method'', JString s)])),
     env_print := (\<lambda>v. if json_field ''result'' v = Some JNull then ''pong'' else ''other'')\<rparr>"

definition ref_pinged :: "(bytes \<times> bytes) list net" where
  "ref_pinged = client_line ref_sled ref_wire_env 0 ''server.ping''
     (accept_client (new_net \<lparr>state = ref_chain, ixr_metrics = new_metrics\<rparr>))"

lemma ref_pinged_out: "\<exists>cl. (0, cl) \<in> set (net_clients ref_pinged) \<and> conn_out (cl_conn cl) = [''pong'' @ [CHR 0x0A]]"
proof -
  have "run_method ref_sled ref_wire_env ''server.ping'' p s = (Inr JNull, s)" for p s
    by (simp add: run_method_def Let_def returnE_def)
  then show ?thesis
    by (simp add: ref_pinged_def client_line_def accept_client_def new_net_def Let_def handle_line_def
        dispatch_request_def write_json_def upd_client_def ref_wire_env_def request_method_def rpc_result_def
        case_prod_beta)
qed

theorem wire_lines_typed_witness:
  "\<exists>v. ''pong'' @ [CHR 0x0A] = env_print ref_wire_env v @ [CHR 0x0A] \<and> server_message v"
proof -
  have "(net_step ref_sled ref_wire_env)\<^sup>*\<^sup>* (new_net \<lparr>state = ref_chain, ixr_metrics = new_metrics\<rparr>) ref_pinged"
    unfolding ref_pinged_def
    by (rule converse_rtranclp_into_rtranclp, rule net_accept, rule r_into_rtranclp, rule net_line)
  with ref_pinged_out show ?thesis
    using wire_lines_typed [of ref_sled ref_wire_env "\<lparr>state = ref_chain, ixr_metrics = new_metrics\<rparr>" ref_pinged]
    by (metis list.set_intros(1))
qed

end
