(* ===== verification/Races.thy ===== *)
theory Races
  imports UtxoSpec QuerySpec Electrum
begin

text \<open>
  A request that takes the read lock of the index twice: \<open>handle_scripthash_get_balance\<close> reads
  the confirmed balance and the unconfirmed balance under separate locks, and the indexer's
  thread may connect a block in between.
\<close>

section \<open>The two reads\<close>

text \<open>The answer after the parameters, each read with the index that it finds.\<close>

definition balance_answer ::
  "'t sled \<Rightarrow> bitcoin_lib \<Rightarrow> script_hash \<Rightarrow> 't index_state \<Rightarrow> 't index_state \<Rightarrow> string + json" where
  "balance_answer S B sh st1 st2 =
     bindR (map_err (\<lambda>e. ''balance lookup failed: '' @ show_error B e) (get_balance S sh st1)) (\<lambda>confirmed.
     bindR (map_err (\<lambda>e. ''balance lookup failed: '' @ show_error B e)
              (get_unconfirmed_balance_delta S B sh st2)) (\<lambda>unconfirmed.
       Inr (JObject [(''confirmed'', jnat confirmed), (''unconfirmed'', JInt (sint unconfirmed))])))"

text \<open>When nothing happens in between, this is the handler.\<close>

lemma balance_undisturbed:
  "handle_scripthash_get_balance S B params st = bindR (parse_scripthash params) (\<lambda>sh. balance_answer S B sh st st)"
  by (simp add: handle_scripthash_get_balance_def balance_answer_def)

lemma removed_all:
  assumes "set (map fst m) \<subseteq> g ` set txs"
  shows "fold (\<lambda>tx. hm_remove (g tx)) txs m = []"
proof -
  have delete: "set (map fst (hm_remove k m)) = set (map fst m) - {k}" for k m
    by (simp only: hm_remove_def delete_keys set_filter) auto
  have "set (map fst (fold (\<lambda>tx. hm_remove (g tx)) txs m)) = set (map fst m) - g ` set txs" for txs m
  proof (induction txs arbitrary: m)
    case (Cons tx txs)
    then show ?case using delete [of "g tx" m] by (simp del: set_map) blast
  qed simp
  with assms show ?thesis by (metis Diff_eq_empty_iff map_is_Nil_conv set_empty)
qed

lemma delta_none_pending:
  assumes "pending_txs st = []" and "pending_view_ok B st"
  shows "get_unconfirmed_balance_delta S B sh st = Inr 0"
proof -
  have "pending_outputs st = []"
    using assms by (simp add: pending_view_ok_def rebuild_pending_view_def)
  with assms(1) show ?thesis
    by (simp add: get_unconfirmed_balance_delta_def unconfirmed_balance_delta_for_script_def bindR_def)
qed


text \<open>In the witness the pending transaction pays 30 to a script: before, between and after.\<close>

definition ref_torn :: "(bytes \<times> bytes) list index_state" where
  "ref_torn = rebuild_pending_view ref_bitcoin
     (ref_funded\<lparr>pending_txs := [(2, ref_tx 2 [ref_in 9 0] [ref_out [2] 20, ref_out [3] 30])]\<rparr>)"

lemma ref_scripts3:
  "from_script ref_bitcoin [3] \<noteq> from_script ref_bitcoin [1]"
  "from_script ref_bitcoin [3] \<noteq> from_script ref_bitcoin [2]"
proof -
  have inj: "a = b" if "(from_be (rev (arr32 a)) :: u256) = from_be (rev (arr32 b))" for a b
    using be_bytes_from_be [of "rev (arr32 a)", where 'a = 256] be_bytes_from_be [of "rev (arr32 b)", where 'a = 256]
    by (simp add: that)
  have "from_script ref_bitcoin [b] = from_be (rev (arr32 (ucast b)))" for b
    using from_be_snoc [of "[]" b, where 'a = 256] by (simp add: from_script_def)
  then show "from_script ref_bitcoin [3] \<noteq> from_script ref_bitcoin [1]"
    "from_script ref_bitcoin [3] \<noteq> from_script ref_bitcoin [2]"
    using inj [of 3 1] inj [of 3 2] by auto
qed

lemma ref_torn_sums:
  "script_sum (from_script ref_bitcoin [3]) (utxos_of (views ref_sled (store ref_funded))) = 0"
  "script_sum (from_script ref_bitcoin [3])
     (connect_utxos ref_bitcoin 7 (txdata ref_block) (utxos_of (views ref_sled (store ref_funded)))) = 30"
proof -
  let ?sh = "from_script ref_bitcoin [3]"
  let ?out = "\<lparr>so_script_hash = ?sh, so_txid = 2, so_vout = 1, so_value = 30, so_height = 7\<rparr>"
  have none: "{out. so_script_hash out = ?sh \<and> utxos_of (views ref_sled (store ref_funded))
      \<lparr>op_txid = so_txid out, op_vout = so_vout out\<rparr> = Some out} = {}"
    using ref_scripts(3) by (auto simp: ref_funded_utxos split: if_splits)
  show "script_sum ?sh (utxos_of (views ref_sled (store ref_funded))) = 0"
    by (simp add: script_sum_def none del: view_ref_sled)
  have one: "{out. so_script_hash out = ?sh
      \<and> connect_utxos ref_bitcoin 7 (txdata ref_block) (utxos_of (views ref_sled (store ref_funded)))
          \<lparr>op_txid = so_txid out, op_vout = so_vout out\<rparr> = Some out} = {?out}"
    using ref_scripts3 by (auto simp: ref_connected_utxos split: if_splits)
  show "script_sum ?sh (connect_utxos ref_bitcoin 7 (txdata ref_block)
      (utxos_of (views ref_sled (store ref_funded)))) = 30"
    by (simp add: script_sum_def one)
qed


end
