(* ===== verification/StoreFailure.thy ===== *)
theory StoreFailure
  imports ReorgSpec UtxoSpec
begin

text \<open>
  A write to the store that fails in the middle of a block. The other properties assume a
  store that works; here one write, that of one journal entry, does not.
\<close>

section \<open>A store with one failing write\<close>

definition failing_insert :: "bytes \<Rightarrow> string \<Rightarrow> 't sled \<Rightarrow> 't sled" where
  "failing_insert key e S =
     S\<lparr>sled_insert := (\<lambda>t k v. if k = key then (Inl e, t) else sled_insert S t k v)\<rparr>"

lemma failing_other:
  "sled_ok S \<Longrightarrow> k \<noteq> key \<Longrightarrow> sled_insert (failing_insert key e S) t k v = (Inr (), ins S k v t)"
  by (simp add: failing_insert_def sled_simps)

lemma failing_key: "sled_insert (failing_insert key e S) t key v = (Inl e, t)"
  by (simp add: failing_insert_def)

lemma key_lengths: "length k \<noteq> length k' \<Longrightarrow> k \<noteq> k'"
  by auto

lemma tree_insert_failing:
  "sled_ok S \<Longrightarrow> k \<noteq> key \<Longrightarrow>
     tree_insert (failing_insert key e S) g u k v ix = (Inr (), u (\<lambda>_. ins S k v (g ix)) ix)"
  "tree_insert (failing_insert key e S) g u key v ix = (Inl (SledError e), u (\<lambda>_. g ix) ix)"
  by (simp_all add: tree_insert_def failing_other failing_key)

lemma arr32_not_journal: "arr32 w \<noteq> journal_key h s" "history_key sh h' k t i \<noteq> journal_key h s"
  "outpoint_key p \<noteq> journal_key h s" "utxo_key sh t v \<noteq> journal_key h s"
  by (rule key_lengths; simp)+

text \<open>A coinbase transaction: its records are its own and those of its outputs.\<close>

lemma apply_null_inputs:
  assumes "\<forall>x \<in> set xs. is_null B (previous_output (snd x))"
  shows "foldE (apply_input S B h t) xs s st = (Inr s, st)"
  using assms
proof (induction xs)
  case (Cons x xs)
  then have "apply_input S B h t x s st = (Inr s, st)"
    by (cases x) (simp add: apply_input_def Let_def returnE_def)
  with Cons show ?case by (simp add: bindE_def)
qed (simp add: returnE_def)

text \<open>The first output of the transaction: its history entry and the output are written.\<close>

lemma failing_output:
  assumes S: "sled_ok S" and F: "F = failing_insert (journal_key h (s + 1)) e S"
    and p: "p = \<lparr>op_txid = t, op_vout = of_nat i\<rparr>"
  shows "\<exists>st'. apply_output F B h t (i, out) s st = (Inl (SledError e), st')
    \<and> by_height st' = by_height st \<and> tip_height st' = tip_height st
    \<and> view S (ix_outputs (store st'))
        = (view S (ix_outputs (store st)))(outpoint_key p \<mapsto> raw_output p (output_script B out) (tx_value out) h)
    \<and> view S (ix_utxos (store st'))
        = (view S (ix_utxos (store st)))(utxo_key (output_script B out) t (of_nat i) \<mapsto> u64_be (tx_value out))"
  using S unfolding F p
  by (simp add: apply_output_def Let_def monad_defs on_store_def store_history_entry_def store_output_def
      store_journal_action_def tree_insert_failing arr32_not_journal push_history_def sled_simps raw_output_def)


lemma failing_block:
  assumes S: "sled_ok S" and F: "F = failing_insert (journal_key h 2) e S"
    and blk: "txdata blk = tx # txs" "tx_output tx = out # outs"
      "\<forall>i \<in> set (tx_input tx). is_null B (previous_output i)"
    and p: "p = \<lparr>op_txid = compute_txid B tx, op_vout = 0\<rparr>" and free: "map_of (by_height st) h = None"
  shows "\<exists>st'. apply_block F B blk h st = (Inl (SledError e), st')
    \<and> map_of (by_height st') h = Some [ATx (compute_txid B tx) (journal_key h 0)] \<and> tip_height st' = tip_height st
    \<and> view S (ix_outputs (store st'))
        = (view S (ix_outputs (store st)))(outpoint_key p \<mapsto> raw_output p (output_script B out) (tx_value out) h)
    \<and> view S (ix_utxos (store st'))
        = (view S (ix_utxos (store st)))(utxo_key (output_script B out) (compute_txid B tx) 0 \<mapsto> u64_be (tx_value out))"
proof -
  let ?t = "compute_txid B tx"
  obtain ix where ix: "forget_pending_transaction_internal F B ?t st
       = (Inr (), rebuild_pending_view B (st\<lparr>pending_txs := hm_remove ?t (pending_txs st), store := ix\<rparr>))"
    "same_chain (store st) ix"
    using forget_pending_ok by blast
  let ?st1 = "rebuild_pending_view B (st\<lparr>pending_txs := hm_remove ?t (pending_txs st), store := ix\<rparr>)"
  let ?st2 = "push_action h (ATx ?t (journal_key h 0)) (?st1\<lparr>store := ix\<lparr>
      ix_txs := ins S (arr32 ?t) (serialize_tx B tx) (ix_txs ix),
      ix_journal := ins S (journal_key h 0) (journal_kind_u8 JTx # arr32 ?t) (ix_journal ix)\<rparr>\<rparr>)"
  have inputs: "foldE (apply_input F B h ?t) (enumerate 0 (tx_input tx)) 1 ?st2 = (Inr 1, ?st2)"
    using blk(3) by (intro apply_null_inputs) (auto simp: in_set_enumerate_eq)
  have F1: "F = failing_insert (journal_key h (1 + 1)) e S" by (simp add: F)
  have p1: "p = \<lparr>op_txid = ?t, op_vout = of_nat 0\<rparr>" by (simp add: p)
  obtain st3 where st3: "apply_output F B h ?t (0, out) 1 ?st2 = (Inl (SledError e), st3)"
    "by_height st3 = by_height ?st2" "tip_height st3 = tip_height ?st2"
    "view S (ix_outputs (store st3))
      = (view S (ix_outputs (store ?st2)))(outpoint_key p \<mapsto> raw_output p (output_script B out) (tx_value out) h)"
    "view S (ix_utxos (store st3))
      = (view S (ix_utxos (store ?st2)))(utxo_key (output_script B out) ?t 0 \<mapsto> u64_be (tx_value out))"
    using failing_output [OF S F1 p1, of B out ?st2] by auto
  have key: "journal_key h 0 \<noteq> journal_key h 2" by simp
  have "apply_tx F B h tx 0 st = (Inl (SledError e), st3)"
    using ix(1) inputs st3(1) blk(2) S key
    by (simp add: apply_tx_def Let_def bindE_def modifyE_def on_store_def zoomE_def store_tx_def
        store_journal_action_def returnE_def F tree_insert_failing arr32_not_journal)
  then have "apply_block F B blk h st = (Inl (SledError e), st3)"
    by (simp add: apply_block_def blk(1) bindE_def)
  with st3(2-5) ix(2) free show ?thesis
    by (simp add: push_action_def same_chain_def hm_push_def update_conv')
qed



end
