(* ===== verification/TreeOrder.thy ===== *)
theory TreeOrder
  imports StoreSpec
begin

text \<open>
  The order in which a tree is iterated. Writes and removals keep the list of entries
  sorted, and big-endian keys sort like the numbers they encode: the journal is read in
  the order of height and sequence, the history of a script in the order of height.
\<close>

section \<open>Entries under updates\<close>

lemma entries_eq:
  assumes S: "sled_ok S" and sorted: "sorted_wrt (\<lambda>a b. fst a < fst b) es"
    and content: "\<And>k v. (k, v) \<in> set es \<longleftrightarrow> view S t k = Some v"
  shows "entries S t = es"
proof (rule map_sorted_distinct_set_unique)
  have strict: "sorted_wrt (<) (map fst es)" using sorted by (simp add: sorted_wrt_map)
  show "set (entries S t) = set es"
    using content by (auto simp: sled_entries(3) [OF S])
  then show "inj_on fst (set (entries S t) \<union> set es)"
    using entries_distinct [OF S, of t] by (simp add: distinct_map)
  show "sorted (map fst es)" "distinct (map fst es)"
    using strict by (simp_all add: strict_sorted_iff)
qed (use S in \<open>auto intro: entries_sorted entries_distinct\<close>)

lemma entries_empty:
  "sled_ok S \<Longrightarrow> view S t = (\<lambda>_. None) \<Longrightarrow> entries S t = []"
  by (rule entries_eq) simp_all

lemma entries_ins:
  assumes "sled_ok S"
  shows "entries S (ins S k v t)
    = filter (\<lambda>e. fst e < k) (entries S t) @ (k, v) # filter (\<lambda>e. k < fst e) (entries S t)"
  using assms sled_entries(2) [OF assms, of t]
  by (intro entries_eq)
    (auto simp: sorted_wrt_append sorted_wrt_filter sled_entries(3) view_ins split: if_splits
      dest: less_trans intro: linorder_neqE)

lemma entries_del:
  assumes "sled_ok S"
  shows "entries S (del S k t) = filter (\<lambda>e. fst e \<noteq> k) (entries S t)"
  using assms sled_entries(2) [OF assms, of t]
  by (intro entries_eq) (auto simp: sorted_wrt_filter sled_entries(3) view_del split: if_splits)

section \<open>Numbers and keys\<close>

lemma append_less_iff:
  "length xs = length ys \<Longrightarrow>
     xs @ us < ys @ vs \<longleftrightarrow> xs < ys \<or> xs = ys \<and> us < (vs :: 'a::linorder list)"
  by (induction xs ys rule: list_induct2) auto

lemma take_bit_byte: "take_bit (8 * Suc n) (unat w) = 256 * take_bit (8 * n) (unat w div 256) + unat w mod 256"
  by (simp add: take_bit_eq_mod power_add mod_mult2_eq mult.commute)

lemma digits_less:
  fixes a b r s :: nat
  assumes "r < 256" and "s < 256"
  shows "a < b \<or> a = b \<and> r < s \<longleftrightarrow> 256 * a + r < 256 * b + s"
  using assms by (cases a b rule: linorder_cases) linarith+

lemma be_bytes_less_take:
  "be_bytes n (v :: 'a::len word) < be_bytes n (w :: 'a word)
     \<longleftrightarrow> take_bit (8 * n) (unat v) < take_bit (8 * n) (unat w)"
proof (induction n arbitrary: v w)
  case 0
  then show ?case by simp
next
  case (Suc n)
  let ?q = "\<lambda>w :: 'a word. take_bit (8 * n) (unat w div 256)"
  have less: "be_bytes n (drop_bit 8 x) < be_bytes n (drop_bit 8 y) \<longleftrightarrow> ?q x < ?q y"
    for x y :: "'a word"
    by (simp only: Suc.IH unat_drop_bit_eq) (simp add: drop_bit_eq_div)
  have same: "be_bytes n (drop_bit 8 v) = be_bytes n (drop_bit 8 w) \<longleftrightarrow> ?q v = ?q w"
    using less [of v w] less [of w v] by (metis less_irrefl linorder_neqE)
  have byte: "unat (ucast x :: u8) = unat x mod 256" for x :: "'a word"
    by (simp add: unsigned_ucast_eq take_bit_eq_mod)
  have "be_bytes (Suc n) v < be_bytes (Suc n) w
      \<longleftrightarrow> ?q v < ?q w \<or> ?q v = ?q w \<and> unat v mod 256 < unat w mod 256"
    by (simp add: append_less_iff less same word_less_nat_alt byte)
  also have "\<dots> \<longleftrightarrow> 256 * ?q v + unat v mod 256 < 256 * ?q w + unat w mod 256"
    by (rule digits_less) simp_all
  finally show ?case by (simp only: take_bit_byte)
qed

lemma be_bytes_less:
  "LENGTH('a) \<le> 8 * n \<Longrightarrow> be_bytes n (v :: 'a::len word) < be_bytes n w \<longleftrightarrow> v < w"
  by (simp add: be_bytes_less_take word_less_nat_alt take_bit_nat_eq_self
      less_le_trans [OF unsigned_less])

lemma journal_key_less:
  "journal_key h s < journal_key h' s' \<longleftrightarrow> h < h' \<or> h = h' \<and> s < s'"
  by (simp add: journal_key_def append_less_iff be_bytes_less)

lemma utxo_key_less:
  "utxo_key sh t v < utxo_key sh' t' v'
     \<longleftrightarrow> sh < sh' \<or> sh = sh' \<and> (t < t' \<or> t = t' \<and> v < v')"
  by (simp add: utxo_key_def append_less_iff be_bytes_less)

lemma utxo_key_parts:
  "from_be (bslice 32 32 (utxo_key sh t v)) = t" "from_be (bslice 64 4 (utxo_key sh t v)) = v"
  by (simp_all add: utxo_key_def codec_simps from_be_be_bytes)

lemma history_key_less:
  "history_key sh h k t s < history_key sh' h' k' t' s'
     \<longleftrightarrow> sh < sh' \<or> sh = sh' \<and> (h < h' \<or> h = h' \<and> (history_kind_u8 k < history_kind_u8 k'
          \<or> k = k' \<and> (t < t' \<or> t = t' \<and> s < s')))"
  by (auto simp: history_key_def append_less_iff be_bytes_less)

end
