(* ===== verification/LibTests.thy ===== *)
theory LibTests
  imports Config Metrics "HOL-Library.Sublist"
begin

text \<open>
  The unit tests of \<open>lib.rs\<close>, \<open>config.rs\<close> and \<open>metrics.rs\<close>, carried over to the model: each
  definition lists the tests of one section by name, with what the test asserts, and the
  lemma after it shows that the model passes them. The tests of \<open>config.rs\<close> that go through
  the argument parser are left out.
\<close>

type_synonym test = "string \<times> bool"

definition passes :: "test list \<Rightarrow> bool" where
  "passes ts = list_all snd ts"

lemma passes_simps [simp]:
  "passes []" "passes ((n, b) # ts) \<longleftrightarrow> b \<and> passes ts" "passes (ts @ us) \<longleftrightarrow> passes ts \<and> passes us"
  by (auto simp: passes_def)

section \<open>The tests of \<open>lib.rs\<close>\<close>

text \<open>One test is compiled only in a build without overflow checks.\<close>

definition test_arithmetic :: "bool \<Rightarrow> test list" where
  "test_arithmetic overflow_checks =
     [(''add_zero'', add overflow_checks 0 0 = Some 0),
      (''add_basic'', add overflow_checks 2 2 = Some 4),
      (''add_large'', add overflow_checks (- 1 - 1) 1 = Some (- 1))]
     @ (if overflow_checks then []
        else [(''add_overflow_wraps_in_release'', add overflow_checks (- 1) 1 = Some 0)]) @
     [(''saturating_sub_normal'', lib_saturating_sub 10 3 = 7),
      (''saturating_sub_underflow'', lib_saturating_sub 3 10 = 0),
      (''saturating_sub_equal'', lib_saturating_sub 5 5 = 0)]"

definition test_network_from_str :: "test list" where
  "test_network_from_str =
     [(''network_parse_mainnet_variants'',
        list_all (\<lambda>s. network_from_str s = Some Mainnet)
          [''mainnet'', ''bitcoin'', ''main'', ''MAINNET'', ''Bitcoin'']),
      (''network_parse_testnet'',
        network_from_str ''testnet'' = Some Testnet \<and> network_from_str ''test'' = Some Testnet),
      (''network_parse_signet'', network_from_str ''signet'' = Some Signet),
      (''network_parse_regtest'', network_from_str ''regtest'' = Some Regtest),
      (''network_parse_unknown'',
        network_from_str [] = None \<and> network_from_str ''foonet'' = None)]"

definition test_production :: "test list" where
  "test_production =
     [(''mainnet_is_production'', is_production Mainnet),
      (''non_mainnet_not_production'',
        \<not> is_production Testnet \<and> \<not> is_production Signet \<and> \<not> is_production Regtest)]"

definition test_ports :: "test list" where
  "test_ports =
     [(''electrum_ports_are_distinct'',
        let ports = map default_electrum_port [Mainnet, Testnet, Signet, Regtest]
        in card (set ports) = length ports),
      (''mainnet_electrum_port'', default_electrum_port Mainnet = 50001),
      (''mainnet_p2p_port'', default_p2p_port Mainnet = 8333),
      (''p2p_ports_are_distinct'',
        let ports = map default_p2p_port [Mainnet, Testnet, Signet, Regtest]
        in card (set ports) = length ports)]"

definition test_script_hex :: "test list" where
  "test_script_hex =
     [(''valid_script_hex_p2pkh'',
        is_valid_script_hex ''76a914000000000000000000000000000000000000000088ac''),
      (''valid_script_hex_op_return'', is_valid_script_hex ''6a''),
      (''invalid_script_hex_odd_length'', \<not> is_valid_script_hex ''76a''),
      (''invalid_script_hex_non_hex_chars'', \<not> is_valid_script_hex ''76zz''),
      (''invalid_script_hex_empty'', \<not> is_valid_script_hex [])]"

definition test_txid_bytes :: "test list" where
  "test_txid_bytes =
     [(''txid_reversal_all_zeros'',
        map_option arr32 (txid_to_electrum_bytes (replicate 64 (CHR ''0''))) = Some (replicate 32 0)),
      (''txid_reversal_known_value'',
        case txid_to_electrum_bytes (''ab'' @ concat (replicate 31 ''00'')) of
          None \<Rightarrow> False
        | Some h \<Rightarrow> arr32 h ! 31 = 0xab \<and> list_all (\<lambda>b. b = 0) (take 31 (arr32 h))),
      (''txid_reversal_wrong_length'',
        txid_to_electrum_bytes ''deadbeef'' = None \<and> txid_to_electrum_bytes [] = None),
      (''txid_reversal_invalid_hex'',
        txid_to_electrum_bytes (''zz'' @ concat (replicate 31 ''00'')) = None)]"

definition test_fee_rate :: "test list" where
  "test_fee_rate =
     [(''fee_rate_formatting'',
        format_fee_rate (Finite False 1 0) = ''1.00 sat/vB'' \<and>
        format_fee_rate (Finite False 21 (- 1)) = ''10.50 sat/vB'' \<and>
        format_fee_rate (Finite False 0 0) = ''0.00 sat/vB'')]"

definition test_heights :: "test list" where
  "test_heights =
     [(''halving_heights_are_multiples_of_210000'',
        is_halving_height 210000 \<and> is_halving_height 420000 \<and> is_halving_height 840000),
      (''non_halving_heights'',
        \<not> is_halving_height 0 \<and> \<not> is_halving_height 1 \<and> \<not> is_halving_height 209999
        \<and> \<not> is_halving_height 210001),
      (''genesis_block_reward'', block_reward_sats 0 = 5000000000),
      (''first_halving_block_reward'', block_reward_sats 210000 = 2500000000),
      (''second_halving_block_reward'', block_reward_sats 420000 = 1250000000),
      (''reward_after_64_halvings_is_zero'', block_reward_sats (64 * 210000) = 0),
      (''reward_decreases_monotonically'',
        let rewards = map block_reward_sats [0, 210000, 420000, 630000, 840000]
        in list_all (\<lambda>(a, b). b < a) (zip rewards (tl rewards)))]"

lemma arithmetic_passes: "passes (test_arithmetic overflow_checks)"
  by (cases overflow_checks)
    (simp_all add: test_arithmetic_def add_def lib_saturating_sub_def saturating_sub_def)

lemma network_passes: "passes test_network_from_str" "passes test_production" "passes test_ports"
  by code_simp+

lemma script_hex_passes: "passes test_script_hex"
  by code_simp

lemma txid_bytes_passes: "passes test_txid_bytes"
  by code_simp

lemma fee_rate_passes: "passes test_fee_rate"
  by (simp add: test_fee_rate_def fee_rate_texts format_fee_rate_def hundredths_def
      two_decimals_def Let_def dec.simps char_of_def bit_0)

lemma heights_passes: "passes test_heights"
  by code_simp

section \<open>The tests of \<open>config.rs\<close>\<close>

text \<open>\<open>HOME\<close> may have any value, or none.\<close>

definition test_config :: "string option \<Rightarrow> test list" where
  "test_config home =
     [(''default_config_has_correct_port'',
        addr_port (electrum_listen_addr (config_new home Mainnet)) = 50001 \<and>
        addr_port (electrum_listen_addr (config_new home Testnet)) = 60001),
      (''default_reorg_depth'',
        max_reorg_depth (config_new home Testnet) = DEFAULT_REORG_DEPTH),
      (''default_no_peers'', nakamoto_peers (config_new home Mainnet) = []),
      (''index_dir_contains_network_name'',
        sublist ''regtest'' (index_dir (config_new home Regtest)) \<and>
        sublist ''mainnet'' (index_dir (config_new home Mainnet))),
      (''signet_and_testnet_use_distinct_data_dirs'',
        sublist ''signet'' (index_dir (config_new home Signet)) \<and>
        sublist ''testnet'' (index_dir (config_new home Testnet)) \<and>
        index_dir (config_new home Signet) \<noteq> index_dir (config_new home Testnet))]"

definition test_levels :: "test list" where
  "test_levels =
     [(''parse_level_all_variants'',
        level_of_arg ArgError = LError \<and> level_of_arg ArgWarn = LWarn \<and>
        level_of_arg ArgInfo = LInfo \<and> level_of_arg ArgDebug = LDebug \<and>
        level_of_arg ArgTrace = LTrace)]"

definition test_nakamoto_config :: "string option \<Rightarrow> test list" where
  "test_nakamoto_config home =
     [(''nakamoto_config_new_has_correct_network'',
        nk_network (nakamoto_config_new home Mainnet) = Mainnet \<and>
        nk_network (nakamoto_config_new home Signet) = Signet),
      (''nakamoto_config_new_has_empty_peers'', nk_peers (nakamoto_config_new home Testnet) = []),
      (''nakamoto_config_index_dir_contains_network_name'',
        sublist ''signet'' (nk_index_dir (nakamoto_config_new home Signet)) \<and>
        sublist ''mainnet'' (nk_index_dir (nakamoto_config_new home Mainnet))),
      (''nakamoto_config_default_log_level_is_info'',
        nk_log_level (nakamoto_config_new home Testnet) = LInfo),
      (''config_new_signet_port'',
        addr_port (electrum_listen_addr (config_new home Signet)) = 60601),
      (''config_new_regtest_port'',
        addr_port (electrum_listen_addr (config_new home Regtest)) = 60401)]"

lemma sublist_path_push: "sublist p (path_push dir p)"
proof -
  have "suffix p (path_push dir p)"
    by (simp add: path_push_def suffix_appendI suffix_ConsI)
  then show ?thesis by (rule suffix_imp_sublist)
qed

lemma index_dir_names_network: "sublist (network_dir n) (default_index_dir home n)"
  by (simp only: default_index_dir_def sublist_path_push)

lemma index_dir_inject: "default_index_dir home m = default_index_dir home n \<longleftrightarrow> m = n"
  by (simp add: default_index_dir_def path_push_inject)

lemma config_passes:
  "passes (test_config home)" "passes test_levels" "passes (test_nakamoto_config home)"
  using index_dir_names_network [of _ home]
  by (simp_all add: test_config_def test_levels_def test_nakamoto_config_def config_new_def
      nakamoto_config_new_def default_electrum_addr_def index_dir_inject
      network_dir.simps [symmetric] del: network_dir.simps)

section \<open>The tests of \<open>metrics.rs\<close>\<close>

text \<open>A clone shares the counters, so that a test with two names has one record.\<close>

definition test_metrics :: "test list" where
  "test_metrics =
     [(''counters_start_at_zero'',
        m_blocks_indexed new_metrics = 0 \<and> m_blocks_rolled_back new_metrics = 0 \<and>
        m_electrum_connections new_metrics = 0 \<and> m_electrum_requests new_metrics = 0 \<and>
        m_transactions_broadcast new_metrics = 0),
      (''inc_blocks_indexed'',
        m_blocks_indexed (inc_blocks_indexed (inc_blocks_indexed new_metrics)) = 2),
      (''inc_blocks_rolled_back'',
        m_blocks_rolled_back (inc_blocks_rolled_back new_metrics) = 1),
      (''connection_lifecycle'',
        let m = inc_electrum_connections (inc_electrum_connections new_metrics)
        in m_electrum_connections m = 2
           \<and> m_electrum_connections (dec_electrum_connections m) = 1),
      (''requests_counter'',
        m_electrum_requests ((inc_electrum_requests ^^ 5) new_metrics) = 5),
      (''clone_shares_state'', m_blocks_indexed (inc_blocks_indexed new_metrics) = 1)]"

lemma metrics_passes: "passes test_metrics"
  by (simp add: test_metrics_def metric_defs numeral_eq_Suc)

end
