(* ===== verification/StoreTests.thy ===== *)
theory StoreTests
  imports TreeOrder LibTests
begin

text \<open>
  The unit tests of \<open>store.rs\<close>, carried over to the model. A test is a computation on a
  freshly opened index: it fails when an operation that it \<open>expect\<close>s to succeed returns an
  error, and otherwise returns whether its assertions hold. The lemmas show that the model
  passes each of them over every store and transaction library that meet their contracts.
\<close>

type_synonym 's run_test = "string \<times> ('s \<Rightarrow> (error + bool) \<times> 's)"

definition passes_on :: "'s \<Rightarrow> 's run_test list \<Rightarrow> bool" where
  "passes_on s ts = list_all (\<lambda>(_, t). fst (t s) = Inr True) ts"

text \<open>
  Operations in a row, of which the results are not used; an assertion on what a query
  returns, and on the state.
\<close>

definition after ::
  "('s \<Rightarrow> (error + unit) \<times> 's) list \<Rightarrow> ('s \<Rightarrow> (error + bool) \<times> 's) \<Rightarrow> 's \<Rightarrow> (error + bool) \<times> 's" where
  "after ms t = foldr (\<lambda>m k. bindE m (\<lambda>_. k)) ms t"

definition discard :: "('s \<Rightarrow> (error + 'a) \<times> 's) \<Rightarrow> 's \<Rightarrow> (error + unit) \<times> 's" where
  "discard m = bindE m (\<lambda>_. returnE ())"

definition assert_on :: "('s \<Rightarrow> error + 'a) \<Rightarrow> ('a \<Rightarrow> bool) \<Rightarrow> 's \<Rightarrow> (error + bool) \<times> 's" where
  "assert_on q p = readE (\<lambda>s. bindR (q s) (\<lambda>r. Inr (p r)))"

definition assert_that :: "('s \<Rightarrow> bool) \<Rightarrow> 's \<Rightarrow> (error + bool) \<times> 's" where
  "assert_that p = readE (\<lambda>s. Inr (p s))"

lemma passes_on_simps [simp]:
  "passes_on s []"
  "passes_on s ((n, t) # ts) \<longleftrightarrow> fst (t s) = Inr True \<and> passes_on s ts"
  by (simp_all add: passes_on_def)

lemma after_simps [simp]: "after [] t = t" "after (m # ms) t = bindE m (\<lambda>_. after ms t)"
  by (simp_all add: after_def)

lemmas test_run = assert_on_def assert_that_def bindE_def returnE_def readE_def

section \<open>Fixtures\<close>

definition make_txid :: "u8 \<Rightarrow> txid" where
  "make_txid b = from_be (replicate 32 b)"

definition make_script_hash :: "u8 \<Rightarrow> script_hash" where
  "make_script_hash b = from_be (replicate 32 b)"

definition null_outpoint :: outpoint where
  "null_outpoint = \<lparr>op_txid = 0, op_vout = - 1\<rparr>"

definition make_tx :: transaction where
  "make_tx = \<lparr>tx_version = 1, lock_time = 0,
     tx_input = [\<lparr>previous_output = null_outpoint, script_sig = [], tx_sequence = - 1, witness = []\<rparr>],
     tx_output = [\<lparr>tx_value = 1000, script_pubkey = []\<rparr>]\<rparr>"

definition first_output :: "u8 \<Rightarrow> outpoint" where
  "first_output b = \<lparr>op_txid = make_txid b, op_vout = 0\<rparr>"

lemma make_txid_inject [simp]: "make_txid a = make_txid b \<longleftrightarrow> a = b"
proof -
  have "be_bytes 32 (make_txid c) = replicate 32 c" for c
    using be_bytes_from_be [of "replicate 32 c", where 'a = 256] by (simp add: make_txid_def)
  then have "make_txid a = make_txid b \<Longrightarrow> replicate 32 a = replicate 32 b" by metis
  then show ?thesis by auto
qed

lemma make_txid_less: "make_txid a < make_txid b \<longleftrightarrow> a < b"
proof -
  have "be_bytes 32 (make_txid c) = replicate 32 c" for c
    using be_bytes_from_be [of "replicate 32 c", where 'a = 256] by (simp add: make_txid_def)
  then have "make_txid a < make_txid b \<longleftrightarrow> replicate 32 a < replicate 32 b"
    using be_bytes_less [of 32 "make_txid a" "make_txid b"] by simp
  also have "replicate n a < replicate n b \<longleftrightarrow> 0 < n \<and> a < b" for n
    by (induction n) auto
  finally show ?thesis by simp
qed

lemma make_script_hash_txid: "make_script_hash = make_txid"
  by (simp add: make_script_hash_def make_txid_def fun_eq_iff)

section \<open>Tip height and transactions\<close>

definition test_tip :: "'t sled \<Rightarrow> 't pindex run_test list" where
  "test_tip S =
     [(''tip_height_is_zero_when_unset'', assert_that (\<lambda>ix. pindex_tip_height S ix = 0)),
      (''tip_height_round_trips'',
        after [set_tip_height S 42] (assert_that (\<lambda>ix. pindex_tip_height S ix = 42))),
      (''tip_height_can_be_overwritten'',
        after [set_tip_height S 1, set_tip_height S 100]
          (assert_that (\<lambda>ix. pindex_tip_height S ix = 100)))]"

definition test_txs :: "'t sled \<Rightarrow> bitcoin_lib \<Rightarrow> 't pindex run_test list" where
  "test_txs S B =
     [(''store_and_load_tx_round_trip'',
        after [store_tx S B make_tx]
          (assert_on (load_tx S B (compute_txid B make_tx))
            (\<lambda>r. case r of None \<Rightarrow> False | Some tx \<Rightarrow> compute_txid B tx = compute_txid B make_tx))),
      (''load_tx_returns_none_for_unknown_txid'',
        assert_on (load_tx S B (make_txid 0xff)) (\<lambda>r. r = None)),
      (''delete_tx_removes_entry'',
        after [store_tx S B make_tx, delete_tx S (compute_txid B make_tx)]
          (assert_on (load_tx S B (compute_txid B make_tx)) (\<lambda>r. r = None)))]"

definition test_pending :: "'t sled \<Rightarrow> 't pindex run_test list" where
  "test_pending S =
     [(''load_pending_txids_empty_by_default'', assert_on (load_pending_txids S) (\<lambda>r. r = [])),
      (''store_and_load_pending_txid_round_trip'',
        after [store_pending_txid S (make_txid 1)]
          (assert_on (load_pending_txids S) (\<lambda>r. r = [make_txid 1]))),
      (''store_pending_txid_deduplicates'',
        after [store_pending_txid S (make_txid 1), store_pending_txid S (make_txid 1)]
          (assert_on (load_pending_txids S) (\<lambda>r. length r = 1))),
      (''delete_pending_txid_removes_entry'',
        after [store_pending_txid S (make_txid 1), delete_pending_txid S (make_txid 1)]
          (assert_on (load_pending_txids S) (\<lambda>r. r = []))),
      (''pending_txid_list_preserves_order'',
        after (map (\<lambda>b. store_pending_txid S (make_txid b)) [1, 2, 3])
          (assert_on (load_pending_txids S) (\<lambda>r. r = map make_txid [1, 2, 3])))]"

lemma tip_passes:
  assumes "sled_ok S" and "empty_index S ix"
  shows "passes_on ix (test_tip S)"
  using assms
  by (simp add: test_tip_def test_run store_ok sled_simps pindex_tip_height_def empty_index_def
      from_be_be_bytes)

lemma txs_pass:
  assumes "sled_ok S" and "bitcoin_ok B" and "empty_index S ix"
  shows "passes_on ix (test_txs S B)"
  using assms
  by (simp add: test_txs_def test_run store_ok sled_simps load_tx_def empty_index_def)

lemma pending_passes:
  assumes "sled_ok S" and "empty_index S ix"
  shows "passes_on ix (test_pending S)"
  using assms
  by (simp add: test_pending_def test_run store_ok sled_simps store_pending_txid_def
      delete_pending_txid_def load_pending_txids_def decode_encode_txid_list empty_index_def)

section \<open>Outputs and balances\<close>

definition test_outputs :: "'t sled \<Rightarrow> 't pindex run_test list" where
  "test_outputs S =
     [(''store_and_load_output_round_trip'',
        after [store_output S (first_output 2) (make_script_hash 0x10) 5000 1]
          (assert_on (load_output S (first_output 2))
            (\<lambda>r. case r of None \<Rightarrow> False
               | Some out \<Rightarrow> so_value out = 5000 \<and> so_height out = 1
                   \<and> so_script_hash out = make_script_hash 0x10))),
      (''load_output_returns_none_for_unknown_outpoint'',
        assert_on (load_output S (first_output 0xaa)) (\<lambda>r. r = None)),
      (''delete_output_removes_entry'',
        after [store_output S (first_output 3) (make_script_hash 0x11) 1000 1, delete_output S (first_output 3)]
          (assert_on (load_output S (first_output 3)) (\<lambda>r. r = None))),
      (''delete_utxo_removes_entry_from_balance'',
        after [store_output S (first_output 4) (make_script_hash 0x12) 2000 1]
          (bindE (assert_on (balance_for_script S (make_script_hash 0x12)) (\<lambda>r. r = 2000)) (\<lambda>before.
           after [delete_utxo S (make_script_hash 0x12) (make_txid 4) 0]
             (assert_on (balance_for_script S (make_script_hash 0x12)) (\<lambda>r. before \<and> r = 0)))))]"

definition test_balances :: "'t sled \<Rightarrow> 't pindex run_test list" where
  "test_balances S =
     [(''balance_for_script_is_zero_when_empty'',
        assert_on (balance_for_script S (make_script_hash 0xaa)) (\<lambda>r. r = 0)),
      (''balance_for_script_sums_multiple_outputs'',
        after (map (\<lambda>(i, v). store_output S (first_output (of_nat i + 1)) (make_script_hash 0x20) v 1)
                (enumerate 0 [1000, 2000, 3000]))
          (assert_on (balance_for_script S (make_script_hash 0x20)) (\<lambda>r. r = 6000)))]"

definition test_unspent :: "'t sled \<Rightarrow> 't pindex run_test list" where
  "test_unspent S =
     [(''list_unspent_for_script_returns_stored_outputs'',
        after [store_output S (first_output 5) (make_script_hash 0x30) 9000 2]
          (assert_on (list_unspent_for_script S (make_script_hash 0x30))
            (\<lambda>us. length us = 1 \<and> su_txid (us ! 0) = make_txid 5 \<and> su_vout (us ! 0) = 0
               \<and> su_value (us ! 0) = 9000 \<and> su_height (us ! 0) = 2))),
      (''list_unspent_for_script_empty_when_none_stored'',
        assert_on (list_unspent_for_script S (make_script_hash 0xbb)) (\<lambda>us. us = []))]"

lemmas scan_run =
  sled_scan_ok entries_ins entries_del entries_empty utxo_key_less history_key_less
  make_txid_less make_script_hash_txid

lemma outputs_pass:
  assumes "sled_ok S" and "empty_index S ix"
  shows "passes_on ix (test_outputs S)"
  using assms
  by (simp add: test_outputs_def test_run store_ok sled_simps load_output_def first_output_def
      decode_encode_output balance_for_script_def scan_run saturating_add_def empty_index_def
      from_be_be_bytes)

lemma balances_pass:
  assumes "sled_ok S" and "empty_index S ix"
  shows "passes_on ix (test_balances S)"
  using assms
  by (simp add: test_balances_def test_run store_ok sled_simps first_output_def
      balance_for_script_def scan_run saturating_add_def empty_index_def from_be_be_bytes)

lemma unspent_passes:
  assumes "sled_ok S" and "empty_index S ix"
  shows "passes_on ix (test_unspent S)"
  using assms
  by (simp add: test_unspent_def test_run store_ok sled_simps load_output_def first_output_def
      list_unspent_for_script_def scan_run decode_encode_output empty_index_def utxo_key_parts
      from_be_be_bytes)

section \<open>History\<close>

definition test_history :: "'t sled \<Rightarrow> 't pindex run_test list" where
  "test_history S =
     [(''has_history_returns_false_when_empty'',
        assert_that (\<lambda>ix. \<not> pindex_has_history S (make_script_hash 0xcc) ix)),
      (''store_and_has_history_round_trip'',
        bindE (store_history_entry S (make_script_hash 0x40) 1 (make_txid 6) 0 Fund) (\<lambda>_.
          assert_that (\<lambda>ix. pindex_has_history S (make_script_hash 0x40) ix))),
      (''load_history_for_script_returns_entries_sorted_by_height'',
        bindE (store_history_entry S (make_script_hash 0x41) 5 (make_txid 0x0b) 0 Fund) (\<lambda>_.
        bindE (store_history_entry S (make_script_hash 0x41) 1 (make_txid 0x0a) 0 Fund) (\<lambda>_.
          assert_on (load_history_for_script S (make_script_hash 0x41))
            (\<lambda>es. length es = 2 \<and> te_height (es ! 0) = 1 \<and> te_height (es ! 1) = 5)))),
      (''delete_history_key_removes_entry'',
        bindE (store_history_entry S (make_script_hash 0x42) 1 (make_txid 7) 0 Fund) (\<lambda>key.
        bindE (delete_history_key S key) (\<lambda>_.
          assert_that (\<lambda>ix. \<not> pindex_has_history S (make_script_hash 0x42) ix)))),
      (''load_history_entries_returns_all_entries'',
        bindE (store_history_entry S (make_script_hash 0x50) 1 (make_txid 8) 0 Fund) (\<lambda>_.
        bindE (store_history_entry S (make_script_hash 0x51) 2 (make_txid 9) 0 Spend) (\<lambda>_.
          assert_on (load_history_entries S) (\<lambda>es. length es = 2))))]"

lemma history_passes:
  assumes "sled_ok S" and "empty_index S ix"
  shows "passes_on ix (test_history S)"
  using assms
  by (simp add: test_history_def test_run store_ok sled_entries(1) scan_run empty_index_def
      pindex_has_history_def load_history_for_script_def load_history_entries_def
      parse_history_key_make confirmed_first_def)

section \<open>The journal\<close>

definition test_journal :: "'t sled \<Rightarrow> 't pindex run_test list" where
  "test_journal S =
     [(''store_and_load_journal_action_round_trip'',
        bindE (store_journal_action S 10 0 JTx [1, 2]) (\<lambda>key.
          assert_on (load_journal_actions S)
            (\<lambda>as. length as = 1 \<and> ja_height (as ! 0) = 10 \<and> ja_sequence (as ! 0) = 0
               \<and> ja_kind (as ! 0) = JTx \<and> ja_payload (as ! 0) = [1, 2]
               \<and> ja_journal_key (as ! 0) = key))),
      (''delete_journal_key_removes_entry'',
        bindE (store_journal_action S 1 0 JHistory []) (\<lambda>key.
        bindE (delete_journal_key S key) (\<lambda>_.
          assert_on (load_journal_actions S) (\<lambda>as. as = [])))),
      (''journal_actions_sorted_by_height_then_sequence'',
        bindE (store_journal_action S 2 1 JOutput []) (\<lambda>_.
        bindE (store_journal_action S 1 0 JTx []) (\<lambda>_.
        bindE (store_journal_action S 2 0 JSpend []) (\<lambda>_.
          assert_on (load_journal_actions S)
            (\<lambda>as. ja_height (as ! 0) = 1 \<and> ja_height (as ! 1) = 2 \<and> ja_sequence (as ! 1) = 0
               \<and> ja_height (as ! 2) = 2 \<and> ja_sequence (as ! 2) = 1)))))]"

lemma journal_passes:
  assumes "sled_ok S" and "empty_index S ix"
  shows "passes_on ix (test_journal S)"
  using assms
  by (simp add: test_journal_def test_run store_ok sled_entries(1) scan_run journal_key_less
      empty_index_def load_journal_actions_def
      parse_journal_action_make [of _ _ JTx, simplified]
      parse_journal_action_make [of _ _ JOutput, simplified]
      parse_journal_action_make [of _ _ JSpend, simplified])

section \<open>Malformed data\<close>

definition is_err :: "'e + 'a \<Rightarrow> bool" where
  "is_err r = (case r of Inl _ \<Rightarrow> True | Inr _ \<Rightarrow> False)"

definition test_txid_list :: "test list" where
  "test_txid_list =
     [(''decode_txid_list_rejects_misaligned_data'',
        is_err (decode_txid_list (replicate 31 0)) \<and> is_err (decode_txid_list (replicate 33 0))),
      (''decode_txid_list_accepts_empty'', decode_txid_list [] = Inr [])]"

definition test_decode_output :: "test list" where
  "test_decode_output =
     [(''decode_output_rejects_wrong_length'',
        is_err (decode_output null_outpoint (replicate 43 0))
        \<and> is_err (decode_output null_outpoint (replicate 45 0))
        \<and> is_err (decode_output null_outpoint [])),
      (''decode_output_accepts_exactly_44_bytes'',
        \<not> is_err (decode_output null_outpoint (replicate 44 0)))]"

definition test_parse_history_key :: "test list" where
  "test_parse_history_key =
     [(''parse_history_key_rejects_wrong_length'',
        is_err (parse_history_key (replicate 72 0)) \<and> is_err (parse_history_key (replicate 74 0))),
      (''parse_history_key_accepts_exactly_73_bytes'',
        \<not> is_err (parse_history_key (replicate 73 0)))]"

definition test_parse_journal_action :: "test list" where
  "test_parse_journal_action =
     [(''parse_journal_action_rejects_wrong_key_length'',
        is_err (parse_journal_action (replicate 7 0) [0])
        \<and> is_err (parse_journal_action (replicate 9 0) [0])),
      (''parse_journal_action_rejects_empty_value'', is_err (parse_journal_action (replicate 8 0) [])),
      (''parse_journal_action_rejects_unknown_kind'',
        is_err (parse_journal_action (replicate 8 0) [0xff])),
      (''parse_journal_action_recognises_all_kinds'',
        list_all (\<lambda>(b, expected).
            case parse_journal_action (replicate 8 0) [b] of
              Inl _ \<Rightarrow> False | Inr a \<Rightarrow> ja_kind a = expected)
          [(0, JTx), (1, JHistory), (2, JOutput), (3, JSpend)])]"

lemma malformed_data_passes:
  "passes test_txid_list" "passes test_decode_output"
  "passes test_parse_history_key" "passes test_parse_journal_action"
  by (simp_all add: test_txid_list_def test_decode_output_def test_parse_history_key_def
      test_parse_journal_action_def is_err_def decode_txid_list_def chunks_exact.simps
      decode_output_def parse_history_key_def parse_journal_action_def)

end
