(* ===== verification/IndexTests.thy ===== *)
theory IndexTests
  imports Indexer StoreTests
begin

text \<open>
  The unit tests of \<open>indexer.rs\<close>, carried over to the model. The lemmas show that the model
  passes each of them when the index is new, over every store that meets its contract and
  every transaction library in which the transactions and scripts of the tests have
  different ids; \<open>tests_bitcoin\<close> is such a library.
\<close>

section \<open>Fixtures\<close>

definition p2pkh_script :: bytes where
  "p2pkh_script = [0x76, 0xa9, 0x14] @ replicate 20 0 @ [0x88, 0xac]"

text \<open>The transactions of the tests have equal inputs up to the output that they spend.\<close>

definition test_tx :: "i32 \<Rightarrow> outpoint list \<Rightarrow> (u64 \<times> bytes) list \<Rightarrow> transaction" where
  "test_tx version prevouts outs =
     \<lparr>tx_version = version, lock_time = 0,
      tx_input = map (\<lambda>p. \<lparr>previous_output = p, script_sig = [], tx_sequence = - 1, witness = []\<rparr>)
        prevouts,
      tx_output = map (\<lambda>(v, s). \<lparr>tx_value = v, script_pubkey = s\<rparr>) outs\<rparr>"

definition test_header :: "u32 \<Rightarrow> block_header" where
  "test_header height =
     \<lparr>header_version = 1, prev_blockhash = 0, merkle_root = 0, header_time = height,
      header_bits = 0x1d00ffff, header_nonce = 0\<rparr>"

definition make_block :: "u32 \<Rightarrow> bytes list \<Rightarrow> block" where
  "make_block height scripts =
     \<lparr>header = test_header height,
      txdata = [test_tx 1 [null_outpoint] (map (\<lambda>s. (1000, s)) scripts)]\<rparr>"

definition make_spend_block :: "u32 \<Rightarrow> outpoint \<Rightarrow> bytes \<Rightarrow> block" where
  "make_spend_block height prevout script =
     \<lparr>header = test_header height, txdata = [test_tx 1 [prevout] [(900, script)]]\<rparr>"

definition outpoint_of :: "bitcoin_lib \<Rightarrow> transaction \<Rightarrow> u32 \<Rightarrow> outpoint" where
  "outpoint_of B tx v = \<lparr>op_txid = compute_txid B tx, op_vout = v\<rparr>"

lemma test_tx_simps [simp]:
  "tx_input (test_tx version prevouts outs)
     = map (\<lambda>p. \<lparr>previous_output = p, script_sig = [], tx_sequence = - 1, witness = []\<rparr>) prevouts"
  "tx_output (test_tx version prevouts outs)
     = map (\<lambda>(v, s). \<lparr>tx_value = v, script_pubkey = s\<rparr>) outs"
  by (simp_all add: test_tx_def)

text \<open>An outpoint of a test transaction stays folded, so that chains of them stay small.\<close>

lemma outpoint_of_simps [simp]:
  "\<lparr>op_txid = compute_txid B tx, op_vout = v\<rparr> = outpoint_of B tx v"
  "op_txid (outpoint_of B tx v) = compute_txid B tx" "op_vout (outpoint_of B tx v) = v"
  "outpoint_of B tx u = outpoint_of B tx' v \<longleftrightarrow> compute_txid B tx = compute_txid B tx' \<and> u = v"
  "v \<noteq> - 1 \<Longrightarrow> outpoint_of B tx v \<noteq> null_outpoint"
  by (auto simp: outpoint_of_def null_outpoint_def)

lemma output_script_make [simp]: "output_script B \<lparr>tx_value = v, script_pubkey = s\<rparr> = from_script B s"
  by (simp add: output_script_def)

lemma first_output_not_null [simp]: "first_output b \<noteq> null_outpoint"
  by (simp add: first_output_def null_outpoint_def)

text \<open>The funding transaction of most tests, and its first output spent for a script.\<close>

definition fund_tx :: "bytes list \<Rightarrow> transaction" where
  "fund_tx scripts = hd (txdata (make_block 1 scripts))"

definition spend_tx :: "bitcoin_lib \<Rightarrow> u32 \<Rightarrow> transaction \<Rightarrow> bytes \<Rightarrow> transaction" where
  "spend_tx B height tx script = hd (txdata (make_spend_block height (outpoint_of B tx 0) script))"

text \<open>A transaction with a null input, as the tests write it.\<close>

definition coin_tx :: "u64 \<Rightarrow> bytes \<Rightarrow> transaction" where
  "coin_tx val script = test_tx 1 [null_outpoint] [(val, script)]"

definition second_tx :: "bitcoin_lib \<Rightarrow> transaction \<Rightarrow> transaction" where
  "second_tx B fund = test_tx 2 [outpoint_of B fund 1] [(850, [0x51])]"

definition duplicated_tx :: "bitcoin_lib \<Rightarrow> transaction \<Rightarrow> transaction" where
  "duplicated_tx B fund = test_tx 1 [outpoint_of B fund 0, outpoint_of B fund 0] [(900, [0x51])]"

definition unknown_tx :: transaction where
  "unknown_tx = test_tx 1 [first_output 1] [(900, [0x51])]"

section \<open>Running the model\<close>

text \<open>
  The crate calls one outpoint null, and the ids of the transactions and of the scripts of
  a test do not collide.
\<close>

fun pairwise_distinct :: "'a list \<Rightarrow> bool" where
  "pairwise_distinct [] \<longleftrightarrow> True"
| "pairwise_distinct (x # xs) \<longleftrightarrow> list_all (\<lambda>y. x \<noteq> y \<and> y \<noteq> x) xs \<and> pairwise_distinct xs"

lemma pairwise_distinct_iff: "pairwise_distinct xs \<longleftrightarrow> distinct xs"
  by (induction xs) (auto simp: list_all_iff)

definition distinct_ids :: "bitcoin_lib \<Rightarrow> transaction list \<Rightarrow> bytes list \<Rightarrow> bool" where
  "distinct_ids B txs scripts \<longleftrightarrow>
     bitcoin_ok B \<and> (\<forall>p. is_null B p \<longleftrightarrow> p = null_outpoint)
     \<and> pairwise_distinct (map (compute_txid B) txs)
     \<and> pairwise_distinct (map (from_script B) scripts)"

lemma new_index_empty:
  assumes "sled_ok S" and "empty_index S ix"
  shows "new_index_state S B (Inr ix) = Inr (empty_state S ix)"
  using assms
  by (simp add: new_index_state_def load_history_from_store_def load_history_entries_def
      load_journal_from_store_def load_journal_actions_def load_pending_from_store_def
      load_pending_txids_def sled_simps sled_entries(1) entries_empty empty_index_def
      empty_state_def rebuild_pending_view_def monad_defs)

text \<open>
  A run of the model is a chain of binds; under this congruence rule the simplifier
  evaluates the first computation before it looks at the rest.
\<close>

lemma bindE_lazy: "m = m' \<Longrightarrow> bindE m f = bindE m' f"
  by simp

lemma bindE_run: "bindE m f s = (case m s of (Inl e, s') \<Rightarrow> (Inl e, s') | (Inr x, s') \<Rightarrow> f x s')"
  by (simp add: bindE_def)

lemmas run_monad =
  bindE_run monad_simps on_store_def zoomE_def discard_def assert_on_def assert_that_def
  sled_simps store_ok Let_def

lemmas run_pending =
  track_pending_transaction_internal_def pending_conflicting_txids_def rebuild_pending_view_def
  pending_spent_outpoints_def add_pending_outputs_def store_pending_txid_def
  delete_pending_txid_def load_pending_txids_def decode_encode_txid_list
  pending_affected_scripts_for_tx_def affected_loop.simps removal_loop.simps unseen_children_def
  pending_descendants_def tx_spends_def touch_inputs_def touch_outputs_def drop_pending_def
  forget_pending_transaction_chain_internal_def forget_pending_transaction_internal_def
  script_hash_for_outpoint_def pending_output_for_outpoint_def output_at_def ok_flatten_def
  load_output_def decode_encode_output hm_insert_def hm_remove_def List.union_def

lemmas run_block =
  make_block_def make_spend_block_def apply_block_def apply_tx_def apply_input_def
  apply_output_def push_history_def push_action_def hm_push_def

lemmas run_start = distinct_ids_def empty_index_def empty_state_def pindex_tip_height_def

definition track :: "'t sled \<Rightarrow> bitcoin_lib \<Rightarrow> transaction \<Rightarrow> 't index_state \<Rightarrow> (error + unit) \<times> 't index_state" where
  "track S B tx = discard (track_pending_transaction_internal S B tx)"

text \<open>The state is dropped and the index opened again on what the store holds.\<close>

definition reopen :: "'t sled \<Rightarrow> bitcoin_lib \<Rightarrow> 't index_state \<Rightarrow> (error + unit) \<times> 't index_state" where
  "reopen S B st =
     (case new_index_state S B (Inr (store st)) of
        Inl e \<Rightarrow> (Inl e, st) | Inr st' \<Rightarrow> (Inr (), st'))"

lemma journal_key_sequence: "from_be (bslice 4 4 (journal_key h s)) = s"
  by (simp add: journal_key_def codec_simps from_be_be_bytes)

lemmas run_queries =
  get_transaction_def load_tx_def confirmed_unspent_def list_unspent_for_script_def scan_run
  utxo_key_parts from_be_be_bytes

lemmas run_mempool =
  mempool_def pending_mempool_for_script_def pending_tx_touches_script_def mempool_input_def
  total_output_value_def saturating_add_def saturating_sub_def list_unspent_def
  pending_unspent_for_script_def

lemmas run_public =
  store_transaction_def restore_pending_transaction_def get_balance_def
  balance_for_script_def get_unconfirmed_balance_delta_def
  unconfirmed_balance_delta_for_script_def delta_input_def forget_pending_transaction_def
  forget_pending_transaction_chain_def

lemmas run_reopen =
  reopen_def new_index_state_def load_history_from_store_def load_history_entries_def
  load_journal_from_store_def load_journal_actions_def load_pending_from_store_def
  load_action_def confirmed_by_def parse_history_key_make outpoint_bytes_roundtrip
  sled_entries(1) journal_key_less journal_key_sequence parse_txid_def action_sequence_def
  action_journal_key_def rollback_height_def rollback_tip_def retain_history_def get_history_def
  pending_history_for_script_def confirmed_first_def
  parse_journal_action_make [of _ _ JTx, simplified]
  parse_journal_action_make [of _ _ JHistory, simplified]
  parse_journal_action_make [of _ _ JOutput, simplified]
  parse_journal_action_make [of _ _ JSpend, simplified]

lemmas run_txs =
  fund_tx_def spend_tx_def coin_tx_def second_tx_def duplicated_tx_def unknown_tx_def track_def

lemmas run_model =
  run_monad run_block run_pending run_start run_queries run_txs run_mempool run_public run_reopen

section \<open>Script hashes\<close>

definition display_script_hash :: "script_hash \<Rightarrow> string" where
  "display_script_hash sh = to_hex sh"

definition test_script_hashes :: "bitcoin_lib \<Rightarrow> test list" where
  "test_script_hashes B =
     [(''script_hash_from_raw_bytes_round_trips_as_bytes'',
        arr32 (make_script_hash 0xab) = replicate 32 0xab),
      (''script_hash_to_hex_is_64_lowercase_hex_chars'',
        let hex = to_hex (make_script_hash 0xff)
        in length hex = 64 \<and> list_all (\<lambda>c. hex_value c \<noteq> None) hex
           \<and> hex = concat (replicate 32 ''ff'')),
      (''script_hash_display_matches_to_hex'',
        display_script_hash (make_script_hash 0x1a) = to_hex (make_script_hash 0x1a)),
      (''same_script_yields_equal_script_hashes'', from_script B [0x51] = from_script B [0x51]),
      (''different_scripts_yield_different_script_hashes'',
        from_script B [0x51] \<noteq> from_script B [0x52]),
      (''script_hash_from_script_is_reversed_sha256'',
        from_script B [0x51] = from_be (rev (arr32 (sha256 B [0x51]))))]"

definition test_script_hex_text :: "bitcoin_lib \<Rightarrow> test list" where
  "test_script_hex_text B =
     [(''script_hash_hex_length'', length (to_hex (from_script B p2pkh_script)) = 64),
      (''script_hash_all_hex_chars'',
        list_all (\<lambda>c. hex_value c \<noteq> None) (to_hex (from_script B p2pkh_script)))]"

lemma hex_of_bytes_digits: "list_all (\<lambda>c. hex_value c \<noteq> None) (hex_of_bytes bs)"
proof (induction bs)
  case Nil
  then show ?case by (simp add: hex_of_bytes_def)
next
  case (Cons b bs)
  have "unat b < 2 ^ LENGTH(8)" by (rule unsigned_less)
  then have "unat b div 16 < 16" by (simp add: less_mult_imp_div_less)
  with Cons show ?case by (simp add: hex_of_bytes_def hex_byte_def)
qed

lemma arr32_make_script_hash [simp]: "arr32 (make_script_hash b) = replicate 32 b"
  using be_bytes_from_be [of "replicate 32 b", where 'a = 256] by (simp add: make_script_hash_def)

lemma hex_of_ff: "hex_of_bytes (replicate n 0xff) = concat (replicate n ''ff'')"
proof -
  have "hex_byte 0xff = ''ff''" by code_simp
  then show ?thesis by (simp add: hex_of_bytes_def)
qed

lemma script_hashes_pass:
  assumes "distinct_ids B [] [[0x51], [0x52]]"
  shows "passes (test_script_hashes B)"
proof -
  have "list_all (\<lambda>c. hex_value c \<noteq> None) (concat (replicate 32 ''ff''))"
    using hex_of_bytes_digits [of "replicate 32 0xff"] by (simp only: hex_of_ff)
  moreover have "length (concat (replicate 32 ''ff'')) = 64"
    using length_hex_of_bytes [of "replicate 32 0xff"] by (simp only: hex_of_ff length_replicate)
  ultimately show ?thesis
    using assms hex_of_ff [of 32]
    by (simp add: test_script_hashes_def display_script_hash_def distinct_ids_def to_hex_def Let_def
        from_script_def [of B "[0x51]"] del: not_None_eq)
qed

lemma script_hex_text_passes: "passes (test_script_hex_text B)"
  by (simp add: test_script_hex_text_def to_hex_def hex_of_bytes_digits del: not_None_eq)

section \<open>Blocks\<close>

definition history_of :: "script_hash \<Rightarrow> 't index_state \<Rightarrow> tx_entry list" where
  "history_of sh st = (case map_of (history st) sh of None \<Rightarrow> [] | Some es \<Rightarrow> es)"

definition test_blocks :: "'t sled \<Rightarrow> bitcoin_lib \<Rightarrow> 't index_state run_test list" where
  "test_blocks S B =
     (let script = p2pkh_script; sh = from_script B script; blk = make_block 1 [script] in
     [(''apply_and_query_block'',
        after [apply_block S B blk 1]
          (assert_that (\<lambda>st. map_of (history st) sh \<noteq> None \<and> length (history_of sh st) = 1
             \<and> te_height (history_of sh st ! 0) = 1))),
      (''rollback_removes_entries'',
        after [apply_block S B blk 1]
          (bindE (assert_that (\<lambda>st. map_of (history st) sh \<noteq> None)) (\<lambda>before.
             after [rollback_height S B 1]
               (assert_that (\<lambda>st. before \<and> map_of (history st) sh = None))))),
      (''rollback_only_removes_target_height'',
        after [apply_block S B blk 1, apply_block S B (make_block 2 [[0x6a]]) 2,
               rollback_height S B 1]
          (assert_that (\<lambda>st. map_of (history st) (from_script B [0x6a]) \<noteq> None)))])"

definition test_confirmed :: "'t sled \<Rightarrow> bitcoin_lib \<Rightarrow> 't index_state run_test list" where
  "test_confirmed S B =
     (let script = p2pkh_script; sh = from_script B script; blk = make_block 1 [script] in
     [(''indexer_tip_tracks_latest_block'',
        after [apply_block S B (make_block 5 [script]) 5]
          (bindE (assert_that (\<lambda>st. tip_height st = 5)) (\<lambda>before.
             after [apply_block S B (make_block 6 [script]) 6]
               (assert_that (\<lambda>st. before \<and> tip_height st = 6))))),
      (''persisted_transaction_round_trips'',
        after [apply_block S B blk 1]
          (assert_on (get_transaction S B (compute_txid B (hd (txdata blk)))) (\<lambda>r. r \<noteq> None))),
      (''list_unspent_returns_funded_output'',
        after [apply_block S B blk 1]
          (assert_on (confirmed_unspent S sh)
            (\<lambda>us. length us = 1 \<and> su_value (us ! 0) = 1000 \<and> su_height (us ! 0) = 1)))])"

lemma blocks_pass:
  assumes "sled_ok S" and "empty_index S ix"
    and "distinct_ids B [] [p2pkh_script, [0x6a]]"
  shows "passes_on (empty_state S ix) (test_blocks S B)"
  using assms
  by (simp add: test_blocks_def history_of_def run_model cong: bindE_lazy)

lemma confirmed_passes:
  assumes "sled_ok S" and "empty_index S ix" and "distinct_ids B [] [p2pkh_script]"
  shows "passes_on (empty_state S ix) (test_confirmed S B)"
  using assms
  by (simp add: test_confirmed_def run_model cong: bindE_lazy)

section \<open>The pending view\<close>

definition test_mempool :: "'t sled \<Rightarrow> bitcoin_lib \<Rightarrow> 't index_state run_test list" where
  "test_mempool S B =
     (let fund = fund_tx [p2pkh_script] in
     [(''list_unspent_hides_confirmed_outputs_spent_in_pending_tx'',
        after [apply_block S B (make_block 1 [p2pkh_script]) 1, track S B (spend_tx B 2 fund [0x6a])]
          (assert_on (list_unspent S B (from_script B p2pkh_script)) (\<lambda>us. us = []))),
      (''get_mempool_marks_unconfirmed_ancestors'',
        after [apply_block S B (make_block 1 [p2pkh_script]) 1, track S B (spend_tx B 2 fund [0x51])]
          (bindE (assert_on (mempool S B (from_script B p2pkh_script))
              (\<lambda>ms. length ms = 1 \<and> me_height (ms ! 0) = 0 \<and> me_fee (ms ! 0) = 100)) (\<lambda>a.
           assert_on (mempool S B (from_script B [0x51]))
             (\<lambda>ms. a \<and> length ms = 1 \<and> me_height (ms ! 0) = 0 \<and> me_fee (ms ! 0) = 100)))),
      (''get_mempool_marks_pending_input_as_unconfirmed'',
        after [track S B fund, track S B (spend_tx B 2 fund [0x51])]
          (assert_on (mempool S B (from_script B [0x51]))
            (\<lambda>ms. length ms = 1 \<and> me_height (ms ! 0) = - 1 \<and> me_fee (ms ! 0) = 100)))])"

lemma mempool_passes:
  assumes "sled_ok S" and "empty_index S ix"
    and "let fund = fund_tx [p2pkh_script] in
      distinct_ids B [fund, spend_tx B 2 fund [0x6a], spend_tx B 2 fund [0x51]]
        [p2pkh_script, [0x6a], [0x51]]"
  shows "passes_on (empty_state S ix) (test_mempool S B)"
  using assms
  by (simp add: test_mempool_def run_model cong: bindE_lazy)

text \<open>Entries of several transactions, repeated inputs and unknown inputs.\<close>

definition test_mempool_entries :: "'t sled \<Rightarrow> bitcoin_lib \<Rightarrow> 't index_state run_test list" where
  "test_mempool_entries S B =
     (let sh = from_script B [0x51]; fund = fund_tx [p2pkh_script];
          fund2 = fund_tx [p2pkh_script, [0x52]];
          first = spend_tx B 2 fund2 [0x51]; second = second_tx B fund2;
          expected = sort_key (\<lambda>(t, _). txid_to_string B t)
            [(compute_txid B first, 100), (compute_txid B second, 150)]
      in
     [(''get_mempool_returns_multiple_entries_for_same_script_sorted_by_txid'',
        after [apply_block S B (make_block 1 [p2pkh_script, [0x52]]) 1,
               track S B first, track S B second]
          (assert_on (mempool S B sh)
            (\<lambda>ms. length ms = 2
               \<and> me_txid (ms ! 0) = fst (expected ! 0) \<and> me_fee (ms ! 0) = snd (expected ! 0)
               \<and> me_txid (ms ! 1) = fst (expected ! 1) \<and> me_fee (ms ! 1) = snd (expected ! 1)))),
      (''get_mempool_returns_empty_for_script_with_no_pending_activity'',
        after [apply_block S B (make_block 1 [p2pkh_script]) 1]
          (assert_on (mempool S B (from_script B p2pkh_script)) (\<lambda>ms. ms = []))),
      (''get_mempool_deduplicates_duplicate_inputs_in_fee_calculation'',
        after [apply_block S B (make_block 1 [p2pkh_script]) 1, track S B (duplicated_tx B fund)]
          (assert_on (mempool S B sh)
            (\<lambda>ms. length ms = 1 \<and> me_fee (ms ! 0) = 100 \<and> me_height (ms ! 0) = 0))),
      (''get_mempool_unknown_prevout_reports_zero_fee_and_unconfirmed_height'',
        after [track S B unknown_tx]
          (assert_on (mempool S B sh)
            (\<lambda>ms. length ms = 1 \<and> me_fee (ms ! 0) = 0 \<and> me_height (ms ! 0) = - 1)))])"

lemma mempool_entries_pass:
  assumes "sled_ok S" and "empty_index S ix"
    and "let fund = fund_tx [p2pkh_script] in
      distinct_ids B [fund, duplicated_tx B fund] [p2pkh_script, [0x51]]"
    and "let fund2 = fund_tx [p2pkh_script, [0x52]] in
      distinct_ids B [fund2, spend_tx B 2 fund2 [0x51], second_tx B fund2]
        [p2pkh_script, [0x51], [0x52]]"
    and "compute_txid B unknown_tx \<noteq> make_txid 1"
  shows "passes_on (empty_state S ix) (test_mempool_entries S B)"
  using assms
  by (simp add: test_mempool_entries_def run_model cong: bindE_lazy)

text \<open>A replacement evicts the transaction it conflicts with, and what builds on it.\<close>

definition test_replacement :: "'t sled \<Rightarrow> bitcoin_lib \<Rightarrow> 't index_state run_test list" where
  "test_replacement S B =
     (let fund = fund_tx [p2pkh_script]; sh = from_script B;
          first = spend_tx B 2 fund [0x51]; child = spend_tx B 3 first [0x52];
          third = spend_tx B 4 child [0x53]
      in
     [(''track_pending_transaction_replaces_conflicting_pending_chain'',
        after [apply_block S B (make_block 1 [p2pkh_script]) 1, track S B first, track S B child,
               track S B (spend_tx B 4 fund [0x53])]
          (bindE (assert_on (mempool S B (sh [0x51])) (\<lambda>ms. ms = [])) (\<lambda>a.
           bindE (assert_on (mempool S B (sh [0x52])) (\<lambda>ms. ms = [])) (\<lambda>b.
             assert_on (mempool S B (sh [0x53])) (\<lambda>ms. a \<and> b \<and> length ms = 1))))),
      (''track_pending_transaction_replaces_deep_conflicting_chain'',
        after [apply_block S B (make_block 1 [p2pkh_script]) 1, track S B first, track S B child,
               track S B third, track S B (spend_tx B 5 fund [0x54])]
          (bindE (assert_on (mempool S B (sh [0x51])) (\<lambda>ms. ms = [])) (\<lambda>a.
           bindE (assert_on (mempool S B (sh [0x52])) (\<lambda>ms. ms = [])) (\<lambda>b.
           bindE (assert_on (mempool S B (sh [0x53])) (\<lambda>ms. ms = [])) (\<lambda>c.
             assert_on (mempool S B (sh [0x54])) (\<lambda>ms. a \<and> b \<and> c \<and> length ms = 1))))))])"

lemma replacement_passes:
  assumes "sled_ok S" and "empty_index S ix"
    and "let fund = fund_tx [p2pkh_script]; first = spend_tx B 2 fund [0x51];
           child = spend_tx B 3 first [0x52]
         in distinct_ids B [fund, first, child, spend_tx B 4 child [0x53], spend_tx B 4 fund [0x53],
              spend_tx B 5 fund [0x54]]
            [p2pkh_script, [0x51], [0x52], [0x53], [0x54]]"
  shows "passes_on (empty_state S ix) (test_replacement S B)"
  using assms
  by (simp add: test_replacement_def run_model cong: bindE_lazy)

section \<open>The public operations on pending transactions\<close>

definition test_restore_forget :: "'t sled \<Rightarrow> bitcoin_lib \<Rightarrow> 't index_state run_test list" where
  "test_restore_forget S B =
     (let tx = coin_tx 750 p2pkh_script; sh = from_script B p2pkh_script in
     [(''restore_and_forget_pending_transaction_round_trip'',
        after [store_transaction S B tx]
          (bindE (restore_pending_transaction S B (compute_txid B tx)) (\<lambda>restored.
           bindE (readE (get_balance S sh)) (\<lambda>balance.
           bindE (readE (get_unconfirmed_balance_delta S B sh)) (\<lambda>delta.
           bindE (readE (list_unspent S B sh)) (\<lambda>unspent.
           bindE (forget_pending_transaction S B (compute_txid B tx)) (\<lambda>forgotten.
           bindE (readE (get_unconfirmed_balance_delta S B sh)) (\<lambda>delta'.
             assert_on (list_unspent S B sh)
               (\<lambda>us. restored = Some [sh] \<and> balance = 0 \<and> delta = 750 \<and> length unspent = 1
                  \<and> forgotten = Some [sh] \<and> delta' = 0 \<and> us = []))))))))),
      (''restore_and_forget_missing_pending_transaction_are_none'',
        bindE (restore_pending_transaction S B 0) (\<lambda>restored.
        bindE (forget_pending_transaction S B 0) (\<lambda>forgotten.
          returnE (restored = None \<and> forgotten = None))))])"

definition test_forget_parent :: "'t sled \<Rightarrow> bitcoin_lib \<Rightarrow> 't index_state run_test list" where
  "test_forget_parent S B =
     (let parent = coin_tx 1000 [0x51]; child = spend_tx B 0 parent [0x52];
          parent_sh = from_script B [0x51]; child_sh = from_script B [0x52]
      in
     [(''forget_pending_transaction_keeps_descendants_and_returns_affected_scripts'',
        after [track S B parent, track S B child]
          (bindE (forget_pending_transaction S B (compute_txid B parent)) (\<lambda>forgotten.
           bindE (readE (mempool S B parent_sh)) (\<lambda>parent_mempool.
           bindE (readE (mempool S B child_sh)) (\<lambda>child_mempool.
           bindE (readE (list_unspent S B child_sh)) (\<lambda>child_unspent.
             assert_on (list_unspent S B parent_sh)
               (\<lambda>us. (case forgotten of None \<Rightarrow> False
                        | Some shs \<Rightarrow> parent_sh \<in> set shs \<and> child_sh \<in> set shs)
                  \<and> parent_mempool = [] \<and> length child_mempool = 1
                  \<and> me_height (child_mempool ! 0) = - 1 \<and> me_fee (child_mempool ! 0) = 0
                  \<and> length child_unspent = 1 \<and> su_height (child_unspent ! 0) = 0 \<and> us = []))))))),
      (''public_forget_pending_transaction_chain_removes_descendants'',
        after [track S B parent, track S B child]
          (bindE (forget_pending_transaction_chain S B (compute_txid B parent)) (\<lambda>affected.
           bindE (readE (mempool S B child_sh)) (\<lambda>child_mempool.
           bindE (readE (list_unspent S B child_sh)) (\<lambda>child_unspent.
           bindE (forget_pending_transaction_chain S B (compute_txid B parent)) (\<lambda>again.
             returnE ((case affected of None \<Rightarrow> False | Some shs \<Rightarrow> child_sh \<in> set shs)
                \<and> child_mempool = [] \<and> child_unspent = [] \<and> again = None)))))))])"

lemma restore_forget_passes:
  assumes "sled_ok S" and "empty_index S ix" and "distinct_ids B [] []"
  shows "passes_on (empty_state S ix) (test_restore_forget S B)"
  using assms
  by (simp add: test_restore_forget_def run_model cong: bindE_lazy)

lemma forget_parent_passes:
  assumes "sled_ok S" and "empty_index S ix"
    and "let parent = coin_tx 1000 [0x51]
         in distinct_ids B [parent, spend_tx B 0 parent [0x52]] [[0x51], [0x52]]"
  shows "passes_on (empty_state S ix) (test_forget_parent S B)"
  using assms
  by (simp add: test_forget_parent_def run_model cong: bindE_lazy)

definition test_forget_confirm :: "'t sled \<Rightarrow> bitcoin_lib \<Rightarrow> 't index_state run_test list" where
  "test_forget_confirm S B =
     (let tx = coin_tx 750 [0x51]; fund = fund_tx [p2pkh_script]; sh = from_script B [0x51];
          pending = spend_tx B 0 fund [0x51]
      in
     [(''restore_pending_transaction_returns_none_after_forget_and_store_delete'',
        after [store_transaction S B tx]
          (bindE (restore_pending_transaction S B (compute_txid B tx)) (\<lambda>restored.
           bindE (forget_pending_transaction S B (compute_txid B tx)) (\<lambda>forgotten.
           bindE (on_store (delete_tx S (compute_txid B tx))) (\<lambda>_.
           bindE (restore_pending_transaction S B (compute_txid B tx)) (\<lambda>again.
             returnE (restored \<noteq> None \<and> forgotten \<noteq> None \<and> again = None))))))),
      (''apply_block_clears_confirmed_pending_transaction_from_mempool'',
        after [apply_block S B (make_block 1 [p2pkh_script]) 1, track S B pending]
          (bindE (readE (mempool S B sh)) (\<lambda>before.
           bindE (apply_block S B \<lparr>header = test_header 2, txdata = [pending]\<rparr> 2) (\<lambda>_.
           bindE (readE (mempool S B sh)) (\<lambda>afterwards.
             assert_on (confirmed_unspent S sh)
               (\<lambda>us. length before = 1 \<and> afterwards = [] \<and> length us = 1
                  \<and> su_height (us ! 0) = 2))))))])"

lemma forget_confirm_passes:
  assumes "sled_ok S" and "empty_index S ix"
    and "let fund = fund_tx [p2pkh_script]
         in distinct_ids B [fund, spend_tx B 0 fund [0x51]] [p2pkh_script, [0x51]]"
  shows "passes_on (empty_state S ix) (test_forget_confirm S B)"
  using assms
  by (simp add: test_forget_confirm_def run_model cong: bindE_lazy)

section \<open>Restarts\<close>

definition test_restart_rollback :: "'t sled \<Rightarrow> bitcoin_lib \<Rightarrow> 't index_state run_test list" where
  "test_restart_rollback S B =
     (let script = p2pkh_script; sh = from_script B script;
          prevout = outpoint_of B (fund_tx [script]) 0
      in
     [(''restart_preserves_rollback_state'',
        after [apply_block S B (make_block 1 [script]) 1]
          (bindE (readE (get_balance S sh)) (\<lambda>funded.
           bindE (apply_block S B (make_spend_block 2 prevout [0x6a]) 2) (\<lambda>_.
           bindE (readE (get_balance S sh)) (\<lambda>spent.
           bindE (reopen S B) (\<lambda>_.
           bindE (readE (get_balance S sh)) (\<lambda>reopened.
           bindE (rollback_height S B 2) (\<lambda>_.
           bindE (readE (get_balance S sh)) (\<lambda>rolled_back.
             assert_that (\<lambda>st. funded = 1000 \<and> spent = 0 \<and> reopened = 0 \<and> rolled_back = 1000
                \<and> length (get_history S B sh st) = 1))))))))))])"

lemma restart_rollback_passes:
  assumes "sled_ok S" and "empty_index S ix"
    and "let fund = fund_tx [p2pkh_script]
         in distinct_ids B [fund, spend_tx B 2 fund [0x6a]] [p2pkh_script, [0x6a]]"
  shows "passes_on (empty_state S ix) (test_restart_rollback S B)"
proof (cases "from_script B p2pkh_script" "from_script B [0x6a]" rule: linorder_cases)
  case less
  then show ?thesis
    using assms less_not_sym [OF less]
    by (simp add: test_restart_rollback_def run_model cong: bindE_lazy)
next
  case equal
  then show ?thesis using assms by (simp add: run_start Let_def)
next
  case greater
  then show ?thesis
    using assms less_not_sym [OF greater]
    by (simp add: test_restart_rollback_def run_model cong: bindE_lazy)
qed

definition test_restart_pending :: "'t sled \<Rightarrow> bitcoin_lib \<Rightarrow> 't index_state run_test list" where
  "test_restart_pending S B =
     (let sh = from_script B p2pkh_script;
          pending_ids = (\<lambda>st. load_pending_txids S (store st))
      in
     [(''restart_restores_pending_transactions'',
        after [track S B (coin_tx 900 p2pkh_script)]
          (bindE (readE (mempool S B sh)) (\<lambda>mempool_before.
           bindE (readE pending_ids) (\<lambda>ids_before.
           bindE (reopen S B) (\<lambda>_.
           bindE (readE pending_ids) (\<lambda>ids.
           bindE (assert_that (\<lambda>st. length (pending_txs st) = 1 \<and> length (pending_outputs st) = 1
               \<and> length (pending_unspent_for_script sh st) = 1)) (\<lambda>sizes.
           bindE (readE (mempool S B sh)) (\<lambda>ms.
           bindE (reopen S B) (\<lambda>_.
             assert_on (list_unspent S B sh)
               (\<lambda>us. length mempool_before = 1 \<and> length ids_before = 1 \<and> length ids = 1 \<and> sizes
                  \<and> length ms = 1 \<and> me_height (ms ! 0) = 0 \<and> me_fee (ms ! 0) = 0
                  \<and> length us = 1 \<and> su_height (us ! 0) = 0 \<and> su_value (us ! 0) = 900))))))))))])"

lemma restart_pending_passes:
  assumes "sled_ok S" and "empty_index S ix" and "distinct_ids B [] []"
  shows "passes_on (empty_state S ix) (test_restart_pending S B)"
  using assms
  by (simp add: test_restart_pending_def run_model cong: bindE_lazy)

section \<open>A library for the tests\<close>

text \<open>
  Ids are sums over the version, the previous outputs and the outputs, in which a script
  counts with its length and first byte. The ids of the transactions and scripts of all
  tests are different.
\<close>

definition script_sum :: "bytes \<Rightarrow> u256" where
  "script_sum s = 256 * of_nat (length s) + ucast (hd (s @ [0]))"

definition tx_sum :: "transaction \<Rightarrow> u256" where
  "tx_sum tx =
     foldl (\<lambda>a x. 10007 * a + x) (ucast (tx_version tx))
       (map (\<lambda>i. op_txid (previous_output i)) (tx_input tx)
        @ map (\<lambda>out. 1000000 * script_sum (script_pubkey out) + ucast (tx_value out)) (tx_output tx))"

definition tests_bitcoin :: bitcoin_lib where
  "tests_bitcoin = ref_bitcoin\<lparr>compute_txid := tx_sum, sha256 := script_sum,
     is_null := (\<lambda>p. p = null_outpoint)\<rparr>"

lemma tests_bitcoin_simps [simp]:
  "compute_txid tests_bitcoin = tx_sum" "sha256 tests_bitcoin = script_sum"
  "op_txid (outpoint_of tests_bitcoin tx v) = tx_sum tx" "op_txid null_outpoint = 0"
  by (simp_all add: tests_bitcoin_def null_outpoint_def)

definition all_txs :: "bitcoin_lib \<Rightarrow> transaction list" where
  "all_txs B =
     (let fund = fund_tx [p2pkh_script]; fund2 = fund_tx [p2pkh_script, [0x52]];
          first = spend_tx B 2 fund [0x51]; child = spend_tx B 3 first [0x52];
          parent = coin_tx 1000 [0x51]
      in [fund, first, child, spend_tx B 4 child [0x53], spend_tx B 4 fund [0x53],
          spend_tx B 5 fund [0x54], spend_tx B 2 fund [0x6a], duplicated_tx B fund,
          fund2, spend_tx B 2 fund2 [0x51], second_tx B fund2, parent, spend_tx B 0 parent [0x52]])"

definition all_scripts :: "bytes list" where
  "all_scripts = [p2pkh_script, [0x51], [0x52], [0x53], [0x54], [0x6a]]"

lemma tests_bitcoin_ids: "pairwise_distinct (map tx_sum (all_txs tests_bitcoin))"
  by (simp add: all_txs_def fund_tx_def spend_tx_def coin_tx_def second_tx_def duplicated_tx_def
      make_block_def make_spend_block_def tx_sum_def script_sum_def p2pkh_script_def test_tx_def
      Let_def)

lemma from_script_sum: "from_script tests_bitcoin s = from_script tests_bitcoin s' \<longleftrightarrow> script_sum s = script_sum s'"
proof -
  have "be_bytes 32 (from_be (rev (arr32 h)) :: u256) = rev (arr32 h)" for h :: u256
    using be_bytes_from_be [of "rev (arr32 h)", where 'a = 256] by simp
  then have "from_be (rev (arr32 g)) = (from_be (rev (arr32 h)) :: u256) \<Longrightarrow> rev (arr32 g) = rev (arr32 h)"
    for g h :: u256 by metis
  then show ?thesis by (auto simp: from_script_def)
qed

lemma tests_bitcoin_scripts: "pairwise_distinct (map (from_script tests_bitcoin) all_scripts)"
  by (simp add: all_scripts_def from_script_sum script_sum_def p2pkh_script_def)

lemma tests_bitcoin_ok:
  "distinct_ids tests_bitcoin (all_txs tests_bitcoin) all_scripts"
  "compute_txid tests_bitcoin unknown_tx \<noteq> make_txid 1"
proof -
  have "bitcoin_ok tests_bitcoin" "\<forall>p. is_null tests_bitcoin p \<longleftrightarrow> p = null_outpoint"
    using ref_bitcoin_ok by (simp_all add: tests_bitcoin_def bitcoin_ok_def)
  then show "distinct_ids tests_bitcoin (all_txs tests_bitcoin) all_scripts"
    by (simp add: distinct_ids_def tests_bitcoin_ids tests_bitcoin_scripts del: pairwise_distinct.simps)
  have "10006 * make_txid 1 + 437140949 \<noteq> 0"
  proof
    assume "10006 * make_txid 1 + 437140949 = 0"
    then have "even (10006 * make_txid 1 + 437140949)" by simp
    then show False by simp
  qed
  then show "compute_txid tests_bitcoin unknown_tx \<noteq> make_txid 1"
    by (simp add: unknown_tx_def first_output_def tx_sum_def script_sum_def test_tx_def)
qed

end
