(* ===== verification/ElectrumTests.thy ===== *)
theory ElectrumTests
  imports ElectrumClient IndexTests
begin

text \<open>
  The unit tests of \<open>electrum_server.rs\<close>, carried over to the model. The text of a request is
  an argument, with the value to which the parser takes it; \<open>FakeSource\<close> knows no header.
  The digest of a concrete text, which one test gives, is a fact about the hash function
  and a hypothesis of its lemma.
\<close>

section \<open>Fixtures\<close>

definition fake_env :: "bitcoin_lib \<Rightarrow> (string \<Rightarrow> string + json) \<Rightarrow> server_env" where
  "fake_env B parse =
     \<lparr>env_bitcoin = B, env_header = (\<lambda>_. Inr None), env_broadcast = None, env_parse = parse,
      env_print = (\<lambda>_. [])\<rparr>"

definition rpc_request :: "int \<Rightarrow> string \<Rightarrow> json" where
  "rpc_request i m =
     JObject [(''jsonrpc'', JString ''2.0''), (''id'', JInt i), (''method'', JString m),
              (''params'', JArray [])]"

definition returns :: "'e + 'a \<Rightarrow> ('a \<Rightarrow> bool) \<Rightarrow> bool" where
  "returns r p = (case r of Inl _ \<Rightarrow> False | Inr v \<Rightarrow> p v)"

definition fails_with :: "string + 'a \<Rightarrow> string \<Rightarrow> bool" where
  "fails_with r msg = (case r of Inl e \<Rightarrow> sublist msg e | Inr _ \<Rightarrow> False)"

lemma returns_simps [simp]:
  "\<not> returns (Inl e) p" "returns (Inr v) p \<longleftrightarrow> p v"
  "fails_with (Inl e) msg \<longleftrightarrow> sublist msg e" "\<not> fails_with (Inr v) msg"
  by (simp_all add: returns_def fails_with_def)

definition str_params :: "string list \<Rightarrow> json" where
  "str_params ss = JArray (map JString ss)"

lemma zeros_to_hex: "replicate 64 (CHR ''0'') = to_hex 0"
  by code_simp

lemma parse_params [simp]:
  "parse_scripthash (str_params [to_hex sh]) = Inr sh" "str_param 0 (str_params (s # ss)) = Some s"
  by (simp_all add: str_params_def parse_to_hex str_param_def)

section \<open>Parameters, statuses and fees\<close>

definition test_version :: "test list" where
  "test_version =
     [(''server_version_response'',
        returns (handle_server_version (str_params [''Electrum/4.0'', ''1.4'']))
          (\<lambda>r. case r of
                 JArray [JString v, JString p] \<Rightarrow> sublist ''nakamoto-electrs'' v \<and> p = ''1.4''
               | _ \<Rightarrow> False))]"

definition test_parse_scripthash :: "test list" where
  "test_parse_scripthash =
     [(''parse_scripthash_valid'',
        returns (parse_scripthash (str_params [replicate 64 (CHR ''a'')])) (\<lambda>_. True)),
      (''parse_scripthash_wrong_length'', is_err (parse_scripthash (str_params [''abcd'']))),
      (''parse_scripthash_missing_param'', is_err (parse_scripthash (JArray [])))]"

definition zeros :: string where
  "zeros = replicate 64 (CHR ''0'')"

definition test_classify :: "test list" where
  "test_classify =
     [(''classify_tx_status_reverted'',
        classify_tx_status ''transaction has been reverted'' = Reverted),
      (''classify_tx_status_confirmed'',
        classify_tx_status (''transaction was included in block '' @ zeros @ '' at height 1'')
          = Confirmed),
      (''classify_tx_status_stale'',
        classify_tx_status
          (''transaction was replaced by '' @ butlast zeros @ ''1 in block ...'') = Stale),
      (''classify_tx_status_acknowledged'',
        classify_tx_status ''transaction was acknowledged by peer 127.0.0.1:8333'' = Acknowledged),
      (''classify_tx_status_other'',
        classify_tx_status ''unknown status'' = Other \<and> classify_tx_status [] = Other)]"

definition test_status_hash :: "bitcoin_lib \<Rightarrow> test list" where
  "test_status_hash B =
     [(''compute_status_hash_empty_returns_none'', compute_status_hash B [] [] = None),
      (''compute_status_hash_non_empty_returns_some'',
        returns (txid_from_str B zeros) (\<lambda>t.
          compute_status_hash B [\<lparr>te_txid = t, te_height = 1, te_sequence = 0\<rparr>] [] \<noteq> None)),
      (''compute_status_hash_mempool_only_returns_some'',
        returns (txid_from_str B (replicate 64 (CHR ''1''))) (\<lambda>t.
          compute_status_hash B [] [\<lparr>me_txid = t, me_height = 0, me_fee = 10\<rparr>] \<noteq> None))]"

definition test_status_format :: "bitcoin_lib \<Rightarrow> test list" where
  "test_status_format B =
     [(''compute_status_hash_uses_electrum_format'',
        returns (txid_from_str B zeros) (\<lambda>t.
          let hist = [\<lparr>te_txid = t, te_height = 1, te_sequence = 0\<rparr>];
              mem = [\<lparr>me_txid = t, me_height = 0, me_fee = 10\<rparr>]
          in compute_status_hash B hist []
               = Some ''12b132b4f9cac2ddb0a05030bf14ab07a46352fe787aa4f0e245fac197dd5b48''
             \<and> compute_status_hash B hist [] \<noteq> compute_status_hash B hist mem))]"

definition test_header_params :: "bitcoin_lib \<Rightarrow> (string \<Rightarrow> string + json) \<Rightarrow> test list" where
  "test_header_params B parse =
     [(''block_headers_missing_start_height_returns_error'',
        is_err (handle_block_headers (fake_env B parse) (JArray []))),
      (''block_headers_missing_count_returns_error'',
        is_err (handle_block_headers (fake_env B parse) (JArray [JInt 0])))]"

definition fake_header :: "u32 \<Rightarrow> block_header" where
  "fake_header height =
     \<lparr>header_version = 1, prev_blockhash = 0, merkle_root = 0, header_time = height,
      header_bits = 0x1d00ffff, header_nonce = height\<rparr>"

definition test_block_headers :: "bitcoin_lib \<Rightarrow> (string \<Rightarrow> string + json) \<Rightarrow> test list" where
  "test_block_headers B parse =
     (let headers = [(1, fake_header 1), (2, fake_header 2)];
          E = (fake_env B parse)\<lparr>env_header := (\<lambda>h. Inr (map_of headers h))\<rparr>;
          hex = (\<lambda>h. serialize_header_hex B (fake_header h))
      in
     [(''block_header_and_headers_return_serialized_data'',
        returns (handle_block_header E (JArray [JInt 1])) (\<lambda>r. r = JString (hex 1)) \<and>
        returns (handle_block_headers E (JArray [JInt 1, JInt 2])) (\<lambda>r.
          json_field ''count'' r = Some (JInt 2) \<and> json_field ''hex'' r = Some (JString (hex 1 @ hex 2))))])"

definition test_missing_header :: "bitcoin_lib \<Rightarrow> (string \<Rightarrow> string + json) \<Rightarrow> test list" where
  "test_missing_header B parse =
     [(''block_header_missing_height_errors'',
        fails_with (handle_block_header (fake_env B parse) (JArray [JInt 0])) ''no header'')]"

lemma version_passes: "passes test_version"
  by code_simp

lemma parse_scripthash_passes: "passes test_parse_scripthash"
  by code_simp

lemma classify_passes: "passes test_classify"
  by code_simp

lemma status_hash_passes:
  assumes "is_err (txid_from_str B zeros) = False"
    and "is_err (txid_from_str B (replicate 64 (CHR ''1''))) = False"
  shows "passes (test_status_hash B)"
  using assms
  by (auto simp: test_status_hash_def compute_status_hash_def is_err_def returns_def
      split: sum.splits)

lemma status_format_passes:
  fixes B :: bitcoin_lib
  defines "digest text \<equiv> sha256_to_string B (sha256 B (ascii text))"
  assumes "txid_from_str B zeros = Inr t" and "txid_to_string B t = zeros"
    and "digest (zeros @ '':1:'') = ''12b132b4f9cac2ddb0a05030bf14ab07a46352fe787aa4f0e245fac197dd5b48''"
    and "digest (zeros @ '':1:'') \<noteq> digest (zeros @ '':1:'' @ zeros @ '':0:'')"
  shows "passes (test_status_format B)"
proof -
  have "dec 1 = ''1''" "dec_int 0 = ''0''"
    by (simp_all add: dec_int_def dec.simps char_of_def bit_0)
  then show ?thesis
    using assms(2-)
    by (simp add: test_status_format_def compute_status_hash_def status_item_def digest_def Let_def)
qed

lemma headers_pass:
  "passes (test_header_params B parse)" "passes (test_block_headers B parse)"
  "passes (test_missing_header B parse)"
  by (simp_all add: test_header_params_def test_block_headers_def test_missing_header_def
      fake_env_def handle_block_header_def handle_block_headers_def u64_param_def is_err_def
      u32_range_def saturating_add_def upt_rec jnat_def Let_def)

section \<open>Running requests on a new server\<close>

definition test_server :: "'t sled \<Rightarrow> 't pindex \<Rightarrow> 't server" where
  "test_server S ix = new_server \<lparr>state = empty_state S ix, ixr_metrics = new_metrics\<rparr>"

text \<open>
  Operations of the index on the server; a query with what is asserted of its answer; a
  handler, whose error makes the test fail; the receiver of a new subscription, and the
  message that it takes.
\<close>

definition on_index ::
  "('t index_state \<Rightarrow> (error + 'a) \<times> 't index_state) \<Rightarrow> 't server \<Rightarrow> (error + unit) \<times> 't server" where
  "on_index m = on_state (discard m)"

definition answers ::
  "('t index_state \<Rightarrow> 'e + 'a) \<Rightarrow> ('a \<Rightarrow> bool) \<Rightarrow> 't server \<Rightarrow> (error + bool) \<times> 't server" where
  "answers q p = assert_that (\<lambda>sv. returns (q (sv_state sv)) p)"

definition handler :: "('s \<Rightarrow> (string + 'a) \<times> 's) \<Rightarrow> 's \<Rightarrow> (error + 'a) \<times> 's" where
  "handler m s = (case m s of (r, s') \<Rightarrow> (map_err SledError r, s'))"

definition new_receiver :: "'t server \<Rightarrow> (error + nat) \<times> 't server" where
  "new_receiver sv =
     (case subscribe (sv_changes sv) of (rx, subs) \<Rightarrow> (Inr rx, sv\<lparr>sv_changes := subs\<rparr>))"

definition take_change :: "nat \<Rightarrow> 't server \<Rightarrow> (error + script_hash list option) \<times> 't server" where
  "take_change rx sv =
     (case recv rx (sv_changes sv) of (r, subs) \<Rightarrow> (Inr r, sv\<lparr>sv_changes := subs\<rparr>))"

text \<open>The tests have one receiver: its queue as the state of the subscriber list.\<close>

definition queued :: "'m list \<Rightarrow> 'm subscribers" where
  "queued ms = \<lparr>next_id = 1, senders = [\<lparr>ch_id = 0, ch_open = True, ch_queue = ms\<rparr>]\<rparr>"

lemma broadcast_queued: "broadcast m (queued ms) = queued (ms @ [m])"
  by (simp add: queued_def Channels.broadcast_def send_def map_filter_simps)

lemma recv_queued:
  "subscribe new_subscribers = (0, queued [])"
  "recv 0 (queued []) = (None, queued [])" "recv 0 (queued (m # ms)) = (Some m, queued ms)"
  by (simp_all add: queued_def Channels.subscribe_def new_subscribers_def recv_def channel_of_def
      upd_channel_def)

lemmas run_server =
  test_server_def new_server_def sv_state_def upd_state_def on_state_def on_index_def answers_def
  handler_def new_receiver_def take_change_def returns_def broadcast_queued recv_queued
  broadcast_changes_def

definition scripthash_params :: "script_hash \<Rightarrow> json" where
  "scripthash_params sh = str_params [to_hex sh]"

definition object_at :: "json \<Rightarrow> nat \<Rightarrow> string \<Rightarrow> json option" where
  "object_at arr i k = Option.bind (json_index i arr) (json_field k)"

fun array_len :: "json \<Rightarrow> nat" where
  "array_len (JArray vs) = length vs"
| "array_len _ = 0"

section \<open>Script hash queries\<close>

definition test_balance_answer :: "'t sled \<Rightarrow> bitcoin_lib \<Rightarrow> 't server run_test list" where
  "test_balance_answer S B =
     (let sh = from_script B [0x51] in
     [(''scripthash_get_balance_includes_pending_delta'',
        after [on_index (track S B (coin_tx 900 [0x51]))]
          (answers (handle_scripthash_get_balance S B (scripthash_params sh))
            (\<lambda>r. json_field ''confirmed'' r = Some (JInt 0)
               \<and> json_field ''unconfirmed'' r = Some (JInt 900))))])"

definition test_mempool_answers :: "'t sled \<Rightarrow> bitcoin_lib \<Rightarrow> 't server run_test list" where
  "test_mempool_answers S B =
     (let sh = from_script B [0x51]; sh2 = from_script B [0x52]; tx = coin_tx 900 [0x51];
          spend = test_tx 1 [first_output 0x11] [(900, [0x52])];
          parent = coin_tx 1000 [0x51]; child = spend_tx B 0 parent [0x52];
          entry = (\<lambda>r height fee t. array_len r = 1
             \<and> object_at r 0 ''height'' = Some (JInt height) \<and> object_at r 0 ''fee'' = Some (JInt fee)
             \<and> object_at r 0 ''tx_hash'' = Some (JString (txid_to_string B (compute_txid B t))))
      in
     [(''scripthash_get_mempool_reports_pending_fee'',
        after [on_index (track S B tx)]
          (answers (handle_scripthash_get_mempool S B (scripthash_params sh))
            (\<lambda>r. entry r 0 0 tx))),
      (''scripthash_get_mempool_reports_confirmed_input_fee'',
        after [on_index (on_store (store_output S (first_output 0x11) sh 1000 1)),
               on_index (reopen S B), on_index (track S B spend)]
          (answers (handle_scripthash_get_mempool S B (scripthash_params sh2))
            (\<lambda>r. entry r 0 100 spend))),
      (''scripthash_get_mempool_reports_height_minus_one_for_pending_parent'',
        after [on_index (track S B parent), on_index (track S B child)]
          (answers (handle_scripthash_get_mempool S B (scripthash_params sh2))
            (\<lambda>r. entry r (- 1) 100 child)))])"

definition test_unspent_answers :: "'t sled \<Rightarrow> bitcoin_lib \<Rightarrow> 't server run_test list" where
  "test_unspent_answers S B =
     (let sh = from_script B [0x51] in
     [(''scripthash_listunspent_includes_pending_outputs'',
        after [on_index (track S B (coin_tx 900 [0x51]))]
          (answers (handle_scripthash_listunspent S B (scripthash_params sh))
            (\<lambda>r. array_len r = 1 \<and> object_at r 0 ''height'' = Some (JInt 0)
               \<and> object_at r 0 ''value'' = Some (JInt 900))))])"

lemmas run_answers =
  scripthash_params_def object_at_def handle_scripthash_get_balance_def
  handle_scripthash_get_mempool_def handle_scripthash_listunspent_def jnat_def

lemma balance_answer_passes:
  assumes "sled_ok S" and "empty_index S ix" and "distinct_ids B [] []"
  shows "passes_on (test_server S ix) (test_balance_answer S B)"
  using assms
  by (simp add: test_balance_answer_def run_answers run_server run_model cong: bindE_lazy)

lemma mempool_answers_pass:
  assumes "sled_ok S" and "empty_index S ix"
    and "let parent = coin_tx 1000 [0x51]
         in distinct_ids B [parent, spend_tx B 0 parent [0x52]] [[0x51], [0x52]]"
    and "compute_txid B (test_tx 1 [first_output 0x11] [(900, [0x52])]) \<noteq> make_txid 0x11"
  shows "passes_on (test_server S ix) (test_mempool_answers S B)"
  using assms
  by (simp add: test_mempool_answers_def run_answers run_server run_model cong: bindE_lazy)

lemma unspent_answers_pass:
  assumes "sled_ok S" and "empty_index S ix" and "distinct_ids B [] []"
  shows "passes_on (test_server S ix) (test_unspent_answers S B)"
  using assms
  by (simp add: test_unspent_answers_def run_answers run_server run_model cong: bindE_lazy)

section \<open>Status of a pending transaction\<close>

text \<open>
  Most of these tests store a transaction, restore it as pending and then report a status
  for it; a receiver listens from the start.
\<close>

definition status_change :: "'t sled \<Rightarrow> bitcoin_lib \<Rightarrow> transaction \<Rightarrow> string \<Rightarrow> 't server \<Rightarrow> (error + unit) \<times> 't server" where
  "status_change S B tx status =
     handler (apply_tx_status_change S B (txid_to_string B (compute_txid B tx)) status)"

definition included :: string where
  "included = ''transaction was included in block '' @ zeros @ '' at height 1''"

definition replaced_by_deadbeef :: string where
  "replaced_by_deadbeef = ''transaction was replaced by deadbeef in block '' @ zeros"

definition replaced_by_one :: string where
  "replaced_by_one = ''transaction was replaced by '' @ butlast zeros @ ''1 in block '' @ zeros"

definition status_test ::
  "'t sled \<Rightarrow> bitcoin_lib \<Rightarrow> (nat \<Rightarrow> 't server \<Rightarrow> (error + bool) \<times> 't server) \<Rightarrow> 't server
     \<Rightarrow> (error + bool) \<times> 't server" where
  "status_test S B t =
     bindE new_receiver (\<lambda>rx.
     bindE (on_index (store_transaction S B (coin_tx 900 [0x51]))) (\<lambda>_.
     bindE (on_index (restore_pending_transaction S B (compute_txid B (coin_tx 900 [0x51])))) (\<lambda>_.
       t rx)))"

definition delta_is :: "'t sled \<Rightarrow> bitcoin_lib \<Rightarrow> script_hash \<Rightarrow> i64 \<Rightarrow> 't server \<Rightarrow> (error + bool) \<times> 't server" where
  "delta_is S B sh d = answers (get_unconfirmed_balance_delta S B sh) (\<lambda>r. r = d)"

definition test_status_changes :: "'t sled \<Rightarrow> bitcoin_lib \<Rightarrow> 't server run_test list" where
  "test_status_changes S B =
     (let tx = coin_tx 900 [0x51]; sh = from_script B [0x51];
          ends = (\<lambda>status. status_test S B (\<lambda>rx.
            after [status_change S B tx status]
              (bindE (delta_is S B sh 0) (\<lambda>gone.
               bindE (take_change rx) (\<lambda>change. returnE (gone \<and> change = Some [sh]))))))
      in
     [(''tx_status_reverted_restores_pending_transaction'',
        bindE new_receiver (\<lambda>rx.
          after [on_index (store_transaction S B tx),
                 status_change S B tx ''transaction has been reverted'']
            (bindE (delta_is S B sh 900) (\<lambda>back.
             bindE (take_change rx) (\<lambda>change. returnE (back \<and> change = Some [sh])))))),
      (''tx_status_confirmed_clears_pending_transaction'', ends included),
      (''tx_status_stale_clears_pending_transaction'',
        ends replaced_by_deadbeef)])"

definition test_status_ignored :: "'t sled \<Rightarrow> bitcoin_lib \<Rightarrow> 't server run_test list" where
  "test_status_ignored S B =
     (let tx = coin_tx 900 [0x51]; sh = from_script B [0x51] in
     [(''tx_status_unconfirmed_is_ignored_and_acknowledged_by_peer_is_noop'',
        status_test S B (\<lambda>rx.
          after [status_change S B tx ''transaction is unconfirmed'']
            (bindE (delta_is S B sh 900) (\<lambda>kept.
             bindE (take_change rx) (\<lambda>change.
               after [status_change S B tx ''transaction was acknowledged by peer 127.0.0.1:8333'']
                 (bindE (delta_is S B sh 900) (\<lambda>kept'.
                  bindE (take_change rx) (\<lambda>change'.
                    returnE (kept \<and> change = None \<and> kept' \<and> change' = None))))))))),
      (''tx_status_unknown_string_is_ignored'',
        status_test S B (\<lambda>rx.
          after [status_change S B tx ''something unexpected happened'']
            (bindE (delta_is S B sh 900) (\<lambda>kept.
             bindE (take_change rx) (\<lambda>change. returnE (kept \<and> change = None)))))),
      (''tx_status_invalid_txid_is_rejected'',
        assert_that (\<lambda>sv. fails_with
          (fst (apply_tx_status_change S B ''not-a-txid'' ''transaction has been reverted'' sv))
          ''invalid txid''))])"

definition test_status_descendants :: "'t sled \<Rightarrow> bitcoin_lib \<Rightarrow> 't server run_test list" where
  "test_status_descendants S B =
     (let parent = coin_tx 1000 [0x51]; child = spend_tx B 0 parent [0x52];
          parent_sh = from_script B [0x51]; child_sh = from_script B [0x52];
          both = (\<lambda>change. case change of None \<Rightarrow> False
                   | Some shs \<Rightarrow> parent_sh \<in> set shs \<and> child_sh \<in> set shs)
      in
     [(''tx_status_for_parent_notifies_descendant_scripts'',
        bindE new_receiver (\<lambda>rx.
          after [on_index (track S B parent), on_index (track S B child),
                 status_change S B parent included]
            (bindE (take_change rx) (\<lambda>change. returnE (both change))))),
      (''tx_status_replaced_by_clears_descendant_pending_transactions'',
        bindE new_receiver (\<lambda>rx.
          after [on_index (track S B parent), on_index (track S B child),
                 status_change S B parent replaced_by_one]
            (bindE (take_change rx) (\<lambda>change.
             bindE (answers (mempool S B parent_sh) (\<lambda>ms. ms = [])) (\<lambda>parent_gone.
             bindE (answers (mempool S B child_sh) (\<lambda>ms. ms = [])) (\<lambda>child_gone.
               returnE (both change \<and> parent_gone \<and> child_gone)))))))])"

lemma status_kinds:
  "classify_tx_status ''transaction has been reverted'' = Reverted"
  "classify_tx_status included = Confirmed"
  "classify_tx_status replaced_by_deadbeef = Stale" "classify_tx_status replaced_by_one = Stale"
  "classify_tx_status ''transaction is unconfirmed'' = Other"
  "classify_tx_status ''transaction was acknowledged by peer 127.0.0.1:8333'' = Acknowledged"
  "classify_tx_status ''something unexpected happened'' = Other"
  by code_simp+

lemmas run_status =
  status_change_def status_test_def delta_is_def apply_tx_status_change_def apply_tx_status_kind_def
  status_kinds

lemma status_changes_pass:
  assumes "sled_ok S" and "empty_index S ix" and "distinct_ids B [] []"
  shows "passes_on (test_server S ix) (test_status_changes S B)"
  using assms
  by (simp add: test_status_changes_def run_status run_server run_model cong: bindE_lazy)

lemma status_ignored_passes:
  assumes "sled_ok S" and "empty_index S ix" and "distinct_ids B [] []"
    and "is_err (txid_from_str B ''not-a-txid'')"
  shows "passes_on (test_server S ix) (test_status_ignored S B)"
proof -
  obtain e where e: "txid_from_str B ''not-a-txid'' = Inl e"
    using assms(4) by (cases "txid_from_str B ''not-a-txid''") (auto simp: is_err_def)
  have "sublist ''invalid txid'' (''invalid txid in tx status event: '' @ e)"
    by (rule prefix_imp_sublist) simp
  then show ?thesis
    using assms(1-3) e
    by (simp add: test_status_ignored_def run_status run_server run_model cong: bindE_lazy)
qed

lemma status_descendants_pass:
  assumes "sled_ok S" and "empty_index S ix"
    and "let parent = coin_tx 1000 [0x51]
         in distinct_ids B [parent, spend_tx B 0 parent [0x52]] [[0x51], [0x52]]"
  shows "passes_on (test_server S ix) (test_status_descendants S B)"
  using assms
  by (simp add: test_status_descendants_def run_status run_server run_model cong: bindE_lazy)

section \<open>Transactions and subscriptions\<close>

text \<open>
  \<open>raw\<close> is the hexadecimal text of the encoded transaction. The tests assert which txid the
  mocked broadcaster saw; here it accepts only the transaction with that txid.
\<close>

definition mock_env :: "bitcoin_lib \<Rightarrow> txid \<Rightarrow> server_env" where
  "mock_env B seen = (fake_env B (\<lambda>_. Inr JNull))\<lparr>env_broadcast :=
     Some (\<lambda>tx. if compute_txid B tx = seen then Inr () else Inl ''another transaction'')\<rparr>"

definition nop_env :: "bitcoin_lib \<Rightarrow> server_env" where
  "nop_env B = (fake_env B (\<lambda>_. Inr JNull))\<lparr>env_broadcast := Some (\<lambda>_. Inr ())\<rparr>"

definition test_transaction_get :: "'t sled \<Rightarrow> bitcoin_lib \<Rightarrow> 't server run_test list" where
  "test_transaction_get S B =
     (let tx = coin_tx 1000 [0x51] in
     [(''transaction_get_returns_persisted_tx_hex'',
        after [on_index (store_transaction S B tx)]
          (answers (handle_transaction_get S B (str_params [txid_to_string B (compute_txid B tx)]))
            (\<lambda>r. r = JString (serialize_tx_hex B tx)))),
      (''transaction_get_missing_tx_fails'',
        assert_that (\<lambda>sv. fails_with
          (handle_transaction_get S B (str_params [zeros]) (sv_state sv)) ''not in local cache''))])"

definition test_broadcast :: "'t sled \<Rightarrow> bitcoin_lib \<Rightarrow> string \<Rightarrow> 't server run_test list" where
  "test_broadcast S B raw =
     (let tx = coin_tx 1000 []; t = compute_txid B tx in
     [(''transaction_broadcast_returns_txid_when_supported'',
        bindE (handler (handle_transaction_broadcast S (mock_env B t) (str_params [raw]))) (\<lambda>resp.
          answers (get_transaction S B t)
            (\<lambda>r. resp = JString (txid_to_string B t) \<and> r = Some tx)))])"

definition test_broadcast_change :: "'t sled \<Rightarrow> bitcoin_lib \<Rightarrow> string \<Rightarrow> 't server run_test list" where
  "test_broadcast_change S B raw =
     (let tx = coin_tx 1000 [0x51]; t = compute_txid B tx in
     [(''transaction_broadcast_emits_pending_change_notification'',
        bindE new_receiver (\<lambda>rx.
        bindE (handler (handle_transaction_broadcast S (mock_env B t) (str_params [raw]))) (\<lambda>resp.
        bindE (take_change rx) (\<lambda>change.
          returnE (resp = JString (txid_to_string B t)
            \<and> change = Some [from_script B [0x51]])))))])"

definition test_broadcast_errors ::
  "'t sled \<Rightarrow> bitcoin_lib \<Rightarrow> string \<Rightarrow> string \<Rightarrow> 't server run_test list" where
  "test_broadcast_errors S B raw invalid_tx =
     (let broadcast_error = (\<lambda>E hex msg. assert_that (\<lambda>sv. fails_with
            (fst (handle_transaction_broadcast S E (str_params [hex]) sv)) msg))
      in
     [(''transaction_broadcast_without_broadcaster_returns_error'',
        broadcast_error (fake_env B (\<lambda>_. Inr JNull)) raw ''bridge mode''),
      (''transaction_broadcast_with_invalid_hex_returns_error'',
        broadcast_error (nop_env B) ''not-hex'' ''invalid hex''),
      (''transaction_broadcast_with_invalid_tx_bytes_returns_error'',
        broadcast_error (nop_env B) invalid_tx ''invalid transaction'')])"

lemmas run_requests =
  mock_env_def nop_env_def fake_env_def handle_transaction_get_def handle_transaction_broadcast_def
  string_err_def upd_metrics_def

lemma transaction_get_passes:
  assumes "sled_ok S" and "empty_index S ix" and "distinct_ids B [] []"
    and "txid_from_str B zeros = Inr 0"
  shows "passes_on (test_server S ix) (test_transaction_get S B)"
proof -
  have "sublist ''not in local cache'' (''transaction '' @ zeros @ '' not in local cache'')"
    by code_simp
  then show ?thesis
    using assms
    by (simp add: test_transaction_get_def run_requests run_server run_model cong: bindE_lazy)
qed

lemma broadcast_passes:
  assumes "sled_ok S" and "empty_index S ix" and "distinct_ids B [] []"
    and "hex_decode B raw = Inr (serialize_tx B (coin_tx 1000 []))"
  shows "passes_on (test_server S ix) (test_broadcast S B raw)"
  using assms
  by (simp add: test_broadcast_def run_requests run_server run_model cong: bindE_lazy)

lemma broadcast_change_passes:
  assumes "sled_ok S" and "empty_index S ix" and "distinct_ids B [] []"
    and "hex_decode B raw = Inr (serialize_tx B (coin_tx 1000 [0x51]))"
  shows "passes_on (test_server S ix) (test_broadcast_change S B raw)"
  using assms
  by (simp add: test_broadcast_change_def run_requests run_server run_model cong: bindE_lazy)

lemma broadcast_errors_pass:
  assumes "bitcoin_ok B" and "hex_decode B raw = Inr (serialize_tx B (test_tx 1 [null_outpoint] []))"
    and "is_err (hex_decode B ''not-hex'')"
    and "hex_decode B invalid_tx = Inr raw_bytes" and "is_err (deserialize_tx B raw_bytes)"
  shows "passes_on sv (test_broadcast_errors S B raw invalid_tx)"
proof -
  obtain e e' where errors: "hex_decode B ''not-hex'' = Inl e" "deserialize_tx B raw_bytes = Inl e'"
    using assms(3,5) by (auto simp: is_err_def split: sum.splits)
  have "sublist ''bridge mode'' ''transaction broadcast is only available in bridge mode''"
    by code_simp
  moreover have "sublist ''invalid hex'' (''invalid hex: '' @ e)"
    "sublist ''invalid transaction'' (''invalid transaction: '' @ e')"
    by (rule prefix_imp_sublist, simp)+
  ultimately show ?thesis
    using assms(1,2,4) errors
    by (simp add: test_broadcast_errors_def run_requests run_monad throwE_apply cong: bindE_lazy)
qed

definition test_unspent_fields :: "'t sled \<Rightarrow> bitcoin_lib \<Rightarrow> 't server run_test list" where
  "test_unspent_fields S B =
     [(''listunspent_uses_expected_fields'',
        answers (handle_scripthash_listunspent S B (str_params [zeros])) (\<lambda>_. True))]"

definition test_subscribe :: "'t sled \<Rightarrow> bitcoin_lib \<Rightarrow> 't server run_test list" where
  "test_subscribe S B =
     [(''scripthash_subscribe_records_status'',
        assert_that (\<lambda>sv.
          case handle_scripthash_subscribe S B (str_params [zeros]) (sv_state sv) new_client_state of
            (resp, c) \<Rightarrow> resp = Inr JNull \<and> length (subscribed_scripthashes c) = 1
               \<and> length (status_by_scripthash c) = 1))]"

text \<open>The status before and after a transaction becomes pending.\<close>

definition test_subscribe_pending :: "'t sled \<Rightarrow> bitcoin_lib \<Rightarrow> 't server run_test list" where
  "test_subscribe_pending S B =
     (let sh = from_script B [0x51]; sub = handle_scripthash_subscribe S B (scripthash_params sh) in
     [(''scripthash_subscribe_reflects_pending_transaction_state'',
        bindE (readE (\<lambda>sv. Inr (sub (sv_state sv) new_client_state))) (\<lambda>(empty, c).
        after [on_index (track S B (coin_tx 1000 [0x51]))]
          (assert_that (\<lambda>sv. case sub (sv_state sv) c of (pending, c') \<Rightarrow>
             empty = Inr JNull
             \<and> returns pending (\<lambda>r. as_str r \<noteq> None \<and> subscribed_scripthashes c' = [sh]
                 \<and> Option.bind (map_of (status_by_scripthash c') sh) id = as_str r)))))])"

definition test_headers_subscribe :: "'t sled \<Rightarrow> bitcoin_lib \<Rightarrow> 't server run_test list" where
  "test_headers_subscribe S B =
     [(''headers_subscribe_returns_current_tip_shape'',
        assert_that (\<lambda>sv. returns
          (fst (handle_headers_subscribe (fake_env B (\<lambda>_. Inr JNull)) (sv_state sv) new_client_state))
          (\<lambda>r. json_field ''height'' r = Some (JInt 0))))]"

lemmas run_subscribe =
  handle_scripthash_subscribe_def handle_headers_subscribe_def current_header_status_def
  header_json_def script_status_def compute_status_hash_def json_of_status_def
  new_client_state_def handle_scripthash_listunspent_def fake_env_def scripthash_params_def

lemma subscribe_passes:
  assumes "sled_ok S" and "empty_index S ix" and "distinct_ids B [] []"
  shows "passes_on (test_server S ix) (test_unspent_fields S B)"
    "passes_on (test_server S ix) (test_subscribe S B)"
    "passes_on (test_server S ix) (test_subscribe_pending S B)"
    "passes_on (test_server S ix) (test_headers_subscribe S B)"
  using assms
  by (simp_all add: test_unspent_fields_def test_subscribe_def test_subscribe_pending_def test_headers_subscribe_def
      zeros_def zeros_to_hex run_subscribe run_server run_model cong: bindE_lazy)

section \<open>Dispatch, fees and notifications\<close>

definition test_ping ::
  "'t sled \<Rightarrow> bitcoin_lib \<Rightarrow> (string \<Rightarrow> string + json) \<Rightarrow> string \<Rightarrow> 't server run_test list" where
  "test_ping S B parse raw =
     [(''dispatch_ping_returns_null'',
        assert_that (\<lambda>sv. case dispatch_request S (fake_env B parse) raw (new_client_state, sv) of
          (resp, _) \<Rightarrow> json_field ''result'' resp = Some JNull
             \<and> json_field ''id'' resp = Some (JInt 1)))]"

definition test_unknown_method ::
  "'t sled \<Rightarrow> bitcoin_lib \<Rightarrow> (string \<Rightarrow> string + json) \<Rightarrow> string \<Rightarrow> 't server run_test list" where
  "test_unknown_method S B parse raw =
     [(''dispatch_unknown_method_returns_error_json'',
        assert_that (\<lambda>sv. case dispatch_request S (fake_env B parse) raw (new_client_state, sv) of
          (resp, _) \<Rightarrow> json_field ''error'' resp \<noteq> None
             \<and> json_field ''id'' resp = Some (JInt 99)))]"

text \<open>\<open>0.00025f64\<close> is the nearest float, \<open>4611686018427388 / 2 powi 64\<close>.\<close>

definition test_estimatefee :: "'t server run_test list" where
  "test_estimatefee =
     [(''estimatefee_returns_latest_fee_when_available'',
        bindE (modifyE (update_sat_per_vb 25)) (\<lambda>_.
          assert_that (\<lambda>sv. returns (handle_estimatefee (JArray [JInt 6]) sv)
            (\<lambda>v. v = JFloat (F64 4611686018427388 (- 64)))))),
      (''estimatefee_returns_unknown_before_first_update'',
        assert_that (\<lambda>sv. returns (handle_estimatefee (JArray [JInt 6]) sv) (\<lambda>v. v = JInt (- 1))))]"

definition test_fee_rate_updates :: "'t server run_test list" where
  "test_fee_rate_updates =
     [(''fee_rate_state_last_update_wins'',
        bindE (modifyE (update_sat_per_vb 10)) (\<lambda>_.
        bindE (modifyE (update_sat_per_vb 50)) (\<lambda>_.
          assert_that (\<lambda>sv. current_sat_per_vb sv = Some 50))))]"

definition test_pending_changes :: "'t server run_test list" where
  "test_pending_changes =
     [(''pending_change_broadcaster_delivers_affected_scripts'',
        bindE new_receiver (\<lambda>rx.
        bindE (modifyE (broadcast_changes [make_script_hash 1])) (\<lambda>_.
        bindE (take_change rx) (\<lambda>received. returnE (received = Some [make_script_hash 1])))))]"

lemma dispatch_passes:
  assumes "parse ping = Inr (rpc_request 1 ''server.ping'')"
    and "parse unknown = Inr (rpc_request 99 ''totally.unknown'')"
  shows "passes_on sv (test_ping S B parse ping)" "passes_on sv (test_unknown_method S B parse unknown)"
  using assms
  by (simp_all add: test_ping_def test_unknown_method_def dispatch_request_def rpc_request_def
      fake_env_def request_method_def field_or_null_def run_method_def rpc_result_def rpc_error_def
      throwE_apply run_monad cong: bindE_lazy)

lemma estimate_of_25: "f64_mul (f64_of_u64 25) f64_1e_5 = F64 4611686018427388 (- 64)"
  by (simp add: f64_of_u64_def f64_1e_5_def f64_round_def bit_len.simps Let_def)

lemma fees_pass:
  "passes_on (test_server S ix) test_estimatefee" "passes_on (test_server S ix) test_fee_rate_updates"
  "passes_on (test_server S ix) test_pending_changes"
  by (simp_all add: test_estimatefee_def test_fee_rate_updates_def test_pending_changes_def
      handle_estimatefee_def current_sat_per_vb_def update_sat_per_vb_def estimate_of_25
      run_server run_monad cong: bindE_lazy)

section \<open>Headers over a connection\<close>

text \<open>
  The test that runs the server: a client subscribes, the source reports a block, and the
  client reads the answer and the notification. No indexer runs, so that the wait for the
  indexer ends at its deadline. \<open>LiveSource\<close> knows the header when it reports the block.
\<close>

definition live_block :: block where
  "live_block = \<lparr>header = fake_header 1, txdata = []\<rparr>"

definition live_net ::
  "'t sled \<Rightarrow> server_env \<Rightarrow> string \<Rightarrow> 't pindex \<Rightarrow> 't net" where
  "live_net S E raw ix =
     (let start = new_net \<lparr>state = empty_state S ix, ixr_metrics = new_metrics\<rparr>;
          n = client_line S E 0 raw (accept_client start);
          source = E\<lparr>env_header := (\<lambda>h. Inr (map_of [(1, fake_header 1)] h))\<rparr>
      in client_block_event S source 0
           (n\<lparr>net_events := broadcast (Connected live_block 1) (net_events n)\<rparr>))"

definition first_param :: "json \<Rightarrow> json option" where
  "first_param v = Option.bind (json_field ''params'' v) (json_index 0)"

definition test_live_headers ::
  "'t sled \<Rightarrow> bitcoin_lib \<Rightarrow> (string \<Rightarrow> string + json) \<Rightarrow> (json \<Rightarrow> string) \<Rightarrow> string \<Rightarrow> 't pindex
     \<Rightarrow> test list" where
  "test_live_headers S B parse print raw ix =
     (let n = live_net S ((fake_env B parse)\<lparr>env_print := print\<rparr>) raw ix in
     [(''headers_subscribe_receives_update_after_connected_block'',
        case map_of (net_clients n) 0 of
          None \<Rightarrow> False
        | Some cl \<Rightarrow>
            (case conn_out (cl_conn cl) of
               [line1, line2] \<Rightarrow>
                 returns (parse (butlast line1)) (\<lambda>initial.
                   Option.bind (json_field ''result'' initial) (json_field ''height'')
                     = Some (JInt 0))
                 \<and> returns (parse (butlast line2)) (\<lambda>notification.
                   json_field ''method'' notification = Some (JString ''blockchain.headers.subscribe'')
                   \<and> Option.bind (first_param notification) (json_field ''height'') = Some (JInt 1))
             | _ \<Rightarrow> False))])"

lemma live_headers_pass:
  assumes "sled_ok S" and "empty_index S ix" and "raw \<noteq> []"
    and "parse raw = Inr (rpc_request 1 ''blockchain.headers.subscribe'')"
    and "\<And>v. parse (print v) = Inr v"
  shows "passes (test_live_headers S B parse print raw ix)"
  using assms
  by (simp add: test_live_headers_def live_net_def live_block_def first_param_def new_net_def
      accept_client_def client_line_def client_block_event_def handle_line_def dispatch_request_def
      rpc_request_def request_method_def field_or_null_def run_method_def on_client_def rpc_result_def
      write_json_def upd_client_def upd_metrics_def notify_block_def event_headers_def
      refresh_statuses_def update_header_def header_notification_def notification_def
      run_subscribe run_server run_start run_monad jnat_def cong: bindE_lazy)

end
