(* ===== verification/AppTests.thy ===== *)
theory AppTests
  imports AppSpec ElectrumTests
begin

text \<open>
  The unit tests of \<open>nakamoto_source.rs\<close> and \<open>app.rs\<close>, carried over to the model. The
  conversions between the two versions of the bitcoin crate are arguments; the fake client
  answers from a table of headers.
\<close>

section \<open>The block source\<close>

definition fake_client ::
  "('b, 'hd, 'h) nk_client \<Rightarrow> (u64 \<times> 'hd) list \<Rightarrow> ('b, 'hd, 'h) nk_client" where
  "fake_client nk headers =
     nk\<lparr>nk_get_tip := Inr (last headers), nk_request_block := (\<lambda>_. Inr ()),
        nk_tree := (\<lambda>h. Answer (map_of headers h))\<rparr>"

definition test_source_block ::
  "bitcoin_lib \<Rightarrow> ('b, 'hd, 'h) nk_client \<Rightarrow> 'hd \<Rightarrow> 'b \<Rightarrow> 'h \<Rightarrow> test list" where
  "test_source_block B nk hdr blk hash =
     (let client = fake_client nk [(1, hdr)];
          (rx, bs0) = source_subscribe new_block_source;
          bs1 = on_event B client (BlockConnected hash 1) bs0;
          bs2 = on_block B client (blk, 1) bs1
      in
     [(''connected_block_is_downloaded_cached_and_broadcast'',
        returns (conv_hash nk hash) (\<lambda>h.
          requested bs1 = [hash]
          \<and> (case fst (recv rx (bs_subscribers bs2)) of
               Some (Connected got height) \<Rightarrow> height = 1 \<and> block_hash B (header got) = h
             | _ \<Rightarrow> False)
          \<and> returns (source_block_by_hash h bs2) (\<lambda>r.
               returns (conv_block nk blk) (\<lambda>converted. r = Some converted))))])"

definition test_source_synced ::
  "bitcoin_lib \<Rightarrow> ('b, 'hd, 'h) nk_client \<Rightarrow> 'hd \<Rightarrow> 'h \<Rightarrow> test list" where
  "test_source_synced B nk hdr hash =
     (let client = fake_client nk [(7, hdr)];
          (rx, bs0) = source_subscribe new_block_source;
          bs1 = on_event B client (NkSynced 7 7) bs0
      in
     [(''synced_event_broadcasts_tip_hash'',
        case fst (recv rx (bs_subscribers bs1)) of
          Some (Synced height tip) \<Rightarrow> height = 7 \<and> conv_hash nk hash = Inr tip
        | _ \<Rightarrow> False)])"

definition test_source_queries ::
  "bitcoin_lib \<Rightarrow> ('b, 'hd, 'h) nk_client \<Rightarrow> 'hd \<Rightarrow> 'h \<Rightarrow> test list" where
  "test_source_queries B nk hdr hash =
     (let client = fake_client nk [(3, hdr)] in
     [(''point_queries_hit_handle_tree'',
        returns (source_tip B client) (\<lambda>(height, tip). height = 3 \<and> conv_hash nk hash = Inr tip)
        \<and> returns (source_block_header client 3) (\<lambda>r.
             returns (conv_header nk hdr) (\<lambda>converted. r = Some converted))
        \<and> returns (source_block_header client 4) (\<lambda>r. r = None))])"

lemma fake_client_simps [simp]:
  "conv_hash (fake_client nk headers) = conv_hash nk"
  "conv_header (fake_client nk headers) = conv_header nk"
  "conv_block (fake_client nk headers) = conv_block nk"
  "nk_get_tip (fake_client nk headers) = Inr (last headers)"
  "nk_request_block (fake_client nk headers) h = Inr ()"
  "nk_tree (fake_client nk headers) n = Answer (map_of headers n)"
  by (simp_all add: fake_client_def conv_hash_def conv_header_def conv_block_def fun_eq_iff)

lemmas run_source_tests =
  source_subscribe_def new_block_source_def on_event_def on_block_def broadcast_event_def
  source_tip_def source_block_header_def source_block_by_hash_def hm_insert_def Let_def

text \<open>The hash of a block is the one of its header, in both versions of the crate.\<close>

lemma source_tests_pass:
  assumes "conv_hash nk hash = Inr h"
    and "conv_block nk blk = Inr blk'" and "block_hash B (header blk') = h"
    and "conv_header nk hdr = Inr hdr'" and "block_hash B hdr' = h"
  shows "passes (test_source_block B nk hdr blk hash)"
    "passes (test_source_synced B nk hdr hash)" "passes (test_source_queries B nk hdr hash)"
  using assms
  by (simp_all add: test_source_block_def test_source_synced_def test_source_queries_def
      run_source_tests broadcast_queued recv_queued)

section \<open>Shutdown\<close>

text \<open>
  The flag is seen by each poll: never set, or set before the poll \<open>k\<close>. The mocked handle
  counts the calls of \<open>shutdown\<close>.
\<close>

definition test_watcher :: "nat \<Rightarrow> test list" where
  "test_watcher k =
     [(''shutdown_watcher_only_trips_after_flag_is_set'',
        spawn_shutdown_watcher Suc (\<lambda>_. False) 0 = None
        \<and> spawn_shutdown_watcher Suc (\<lambda>i. k \<le> i) 0 = Some 1)]"

definition test_wait :: "nat \<Rightarrow> test list" where
  "test_wait k =
     [(''wait_for_shutdown_returns_when_flag_flips'', wait_for_shutdown (\<lambda>i. k \<le> i) 0 \<noteq> None)]"

lemma shutdown_tests_pass: "passes (test_watcher k)" "passes (test_wait k)"
proof -
  have "wait_for_shutdown (\<lambda>i. k \<le> i) 0 = Some k"
    by (rule wait_for_shutdown_first) auto
  moreover have "wait_for_shutdown (\<lambda>_. False) 0 = None"
    using wait_for_shutdown_returns [of "\<lambda>_. False"] by (cases "wait_for_shutdown (\<lambda>_. False) 0") auto
  ultimately show "passes (test_watcher k)" "passes (test_wait k)"
    by (simp_all add: test_watcher_def test_wait_def spawn_shutdown_watcher_def)
qed

section \<open>The cache of the client\<close>

definition cache_files :: "string \<Rightarrow> u64 \<Rightarrow> u64 \<Rightarrow> files" where
  "cache_files network_cache_dir headers_len filters_len =
     [(path_push network_cache_dir ''headers.db'', headers_len),
      (path_push network_cache_dir ''filters.db'', filters_len)]"

definition dir_exists :: "string \<Rightarrow> files \<Rightarrow> bool" where
  "dir_exists dir fs = list_ex (\<lambda>(p, _). starts_with (dir @ ''/'') p) fs"

definition test_clears_cache :: "string \<Rightarrow> test list" where
  "test_clears_cache tmp =
     (let cache_dir = path_push tmp ''.nakamoto-electrs''; legacy = path_push tmp ''legacy'';
          fs = cache_files (path_push cache_dir ''signet'') 0 64
      in
     [(''clears_partial_nakamoto_cache'',
        case clear_corrupt_nakamoto_cache (\<lambda>_. True) cache_dir legacy ''signet'' fs of
          (cleared, fs') \<Rightarrow> cleared \<and> \<not> dir_exists cache_dir fs')])"

definition test_keeps_cache :: "string \<Rightarrow> test list" where
  "test_keeps_cache tmp =
     (let cache_dir = path_push tmp ''.nakamoto-electrs''; legacy = path_push tmp ''legacy'';
          fs = cache_files (path_push cache_dir ''signet'') 80 64
      in
     [(''keeps_consistent_nakamoto_cache'',
        case clear_corrupt_nakamoto_cache (\<lambda>_. True) cache_dir legacy ''signet'' fs of
          (cleared, fs') \<Rightarrow> \<not> cleared \<and> dir_exists cache_dir fs')])"

lemma cache_paths:
  "path_push (path_push (path_push tmp ''.nakamoto-electrs'') ''signet'') ''headers.db''
     = path_push tmp ''.nakamoto-electrs'' @ ''/signet/headers.db''"
  "path_push (path_push (path_push tmp ''.nakamoto-electrs'') ''signet'') ''filters.db''
     = path_push tmp ''.nakamoto-electrs'' @ ''/signet/filters.db''"
  by (simp_all add: path_push_def)

lemma below_dir: "starts_with (dir @ ''/'') (dir @ CHR ''/'' # p)"
  by (simp add: starts_with_def)

lemma cache_tests_pass: "passes (test_clears_cache tmp)" "passes (test_keeps_cache tmp)"
  by (simp_all add: cache_paths below_dir test_clears_cache_def test_keeps_cache_def cache_files_def dir_exists_def
      clear_corrupt_nakamoto_cache_def metadata_len_def unwrap_or_0_def remove_dir_all_def Let_def)

end
