(* ===== verification/Spec2Isabelle.thy ===== *)
theory Spec2Isabelle
  imports AppSpec NotifySpec ProtocolSpec Recovery SystemSpec ResponseTypes Races StoreFailure AppTests
begin

text \<open>
  A verification library for nakamoto-electrs, an Electrum server that indexes the block
  chain through a light client (nakamoto) and answers wallets over a line-based JSON
  protocol.

  The program (\<open>src/src/\<close>). \<open>nakamoto_source.rs\<close> turns what the light client reports into
  block events. \<open>indexer.rs\<close> consumes the events on one thread: it writes each block to a
  persistent index (\<open>store.rs\<close>, six trees of the sled store) together with a journal that
  allows the block to be rolled back, keeps caches of the history and the journal in
  memory, and a view of the pending transactions. \<open>electrum_server.rs\<close> accepts clients; each
  client has a reader that answers requests from the index and a thread that forwards
  block events and changes of pending transactions. \<open>app.rs\<close> starts all of it;
  \<open>config.rs\<close>, \<open>lib.rs\<close> and \<open>metrics.rs\<close> hold settings, helpers and counters.

  The model, in the order of the imports.

    \<^item> \<open>Prelude\<close>: state and errors (a computation maps a state to a sum of an error and a
      result, and a state), invariants through that monad, big-endian bytes, saturating
      arithmetic, hash maps as association lists, and the interfaces shared by components:
      \<open>machine\<close> (a step relation with an invariant), \<open>undo_log\<close> (operations that can be
      undone), \<open>codec\<close> and \<open>exact_codec\<close>. \<open>External\<close>: the records of functions that stand for
      the crates sled (\<open>'t sled\<close>) and bitcoin (\<open>bitcoin_lib\<close>), the behaviour relied upon
      (\<open>sled_ok\<close>: a tree is a finite map and no I/O error occurs; \<open>bitcoin_ok\<close>), and the
      instances \<open>ref_sled\<close> and \<open>ref_bitcoin\<close> on which every hypothesis is shown to hold.
    \<^item> \<open>Store\<close> is \<open>store.rs\<close>. Operations take the index and return it updated; every error
      branch is present. \<open>StoreSpec\<close>: encodings, sums and lists against the contents of the
      trees, retries when opening.
    \<^item> \<open>IndexState\<close>, \<open>Blocks\<close>, \<open>Queries\<close> and \<open>Indexer\<close> are \<open>indexer.rs\<close>: the caches and pending
      transactions, \<open>apply_block\<close> and \<open>rollback_height\<close>, the queries, and startup with the event
      loop. \<open>Rollback\<close> and \<open>ChainIndex\<close> show that these operations implement a run of journal
      records on the contents of four trees. \<open>ChainSpec\<close> and \<open>ReorgSpec\<close>: what a block writes,
      what it cannot touch, and that a reorganisation leaves no trace. \<open>UtxoSpec\<close>: the trees
      refine an abstract set of unspent outputs. \<open>PendingView\<close>: the pending view is the one of
      the pending transactions, and conflicts and descendants are evicted. \<open>QuerySpec\<close>: what
      the queries answer. \<open>Restart\<close>: opening the index again restores the running program, and
      \<open>Recovery\<close>: it does so in every state that the operations reach from an empty store.
      \<open>StoreFailure\<close>: a store whose write of one journal entry fails while a block is connected.
    \<^item> \<open>Helpers\<close>, \<open>Config\<close> and \<open>Metrics\<close> are \<open>lib.rs\<close>, \<open>config.rs\<close> with \<open>main.rs\<close>, and \<open>metrics.rs\<close>.
      \<open>format_fee_rate\<close> prints the exact value of the float, rounded to hundredths.
    \<^item> \<open>Channels\<close>: subscriber lists and their unbounded channels. \<open>BlockSource\<close> is
      \<open>nakamoto_source.rs\<close> and \<open>block_source.rs\<close>; a schedule interleaves the messages of its
      two threads. \<open>SourceSpec\<close>: delivery and order of events.
    \<^item> \<open>Json\<close>, \<open>Electrum\<close> and \<open>ElectrumClient\<close> are \<open>electrum_server.rs\<close>: the request handlers and
      the dispatch, then the connections: \<open>thread_step\<close> is a step of the server's own threads,
      \<open>net_step\<close> adds a source and an indexer that may do anything. \<open>ProtocolSpec\<close>: requests and answers.
      \<open>NetSpec\<close>: the invariant of every reachable server. \<open>NotifySpec\<close>: notifications.
      \<open>ResponseTypes\<close>: a table with the type of each method's result, and the invariant that
      every line on the wire is a message of such a type. \<open>Races\<close>: a request with two reads.
    \<^item> \<open>App\<close> is \<open>app.rs\<close>; \<open>AppSpec\<close>: cache repair, startup, serving an existing index, the wait for
      shutdown, and the subsidy schedule of \<open>lib.rs\<close>.
    \<^item> \<open>ServerFrame\<close>: the contract \<open>index_client\<close> between the server and the index (four operations
      on pending transactions), by which everything that clients and their threads do keeps
      the view of pending transactions and leaves the confirmed index alone. \<open>System\<close> composes
      the source, the indexer, the server and its clients to one step relation \<open>sys_step\<close>, with
      the events sent and taken; the delivery of \<open>Channels\<close> holds of its indexer. \<open>SystemSpec\<close>:
      in every interleaving the index, and the balances read from it, are those of the chain
      that the source's events describe.
    \<^item> \<open>LibTests\<close>, \<open>StoreTests\<close>, \<open>IndexTests\<close>, \<open>ElectrumTests\<close> and \<open>AppTests\<close> carry the unit tests
      of the program over to the model, one definition for each group of tests, and show that
      the model passes them. \<open>TreeOrder\<close> gives the order in which a tree is iterated after
      writes. A test runs on a new index over any store that meets \<open>sled_ok\<close>; \<open>distinct_ids\<close>
      says that the ids of its transactions and scripts do not collide, and \<open>tests_bitcoin\<close> is
      a library for which that holds of all tests. Left out: the tests that run the argument
      parser, those that only take an event apart, and the end-to-end tests of \<open>tests/\<close>.

  Conventions. Rust integers are words of their width and wrap around as in the release
  profile; \<open>usize\<close> counters over vectors are natural numbers. A \<open>HashMap\<close> is an association
  list: an iteration order that Rust leaves open is the order of the list, and properties
  do not depend on it unless they say so. A locked operation is one step. A loop whose
  rounds depend on the outside (startup, waiting for peers, accepting) runs over a list
  with one element for each round, and says so when it is still running at the end of
  the list; \<open>wait_for_indexer_tip\<close> and \<open>wait_for_shutdown\<close> may run forever and are partial
  functions over what each poll sees (the tip and the clock, the flag), with the condition
  under which they end. The walks over the graph of pending
  transactions are total functions with a termination proof, without fuel.

  Not modelled: logging and tracing; installing the signal handler and joining of threads;
  poisoned locks; the argument parser; parsing and printing of JSON, which are
  arguments of the server; the internals of sled, of
  the bitcoin crate and of the nakamoto client. \<open>script_status\<close> and the balance handler take
  the read lock twice; in the step relations both reads see one state, and \<open>Races\<close> treats the
  balance request whose reads see two. A source channel that closes, as at
  shutdown, ends a client's thread in the code; the model stops taking its steps.
\<close>

end
